theory Spec2Isabelle
  imports Main "HOL-Library.Word"
begin

unbundle bit_operations_syntax

section \<open>MoQT validator: data model\<close>

text \<open>
  A shallow embedding of the Go validator \<^verbatim>\<open>main.go\<close>. Go's \<^verbatim>\<open>uint64\<close>, \<^verbatim>\<open>uint32\<close>,
  \<^verbatim>\<open>uint16\<close> and \<^verbatim>\<open>byte\<close> are words of that width; \<^verbatim>\<open>int\<close> counts are naturals.
  An \<^verbatim>\<open>io.Reader\<close> over a byte slice is the list of bytes not yet read. Every error the
  code can return is a value of \<open>error\<close>: the two sentinel errors of package \<^verbatim>\<open>io\<close>, an
  error wrapping \<^verbatim>\<open>ErrValidation\<close> or \<^verbatim>\<open>ErrProtocolViolation\<close> (with the constant part of
  its message; the numbers formatted into the message are left out), the error of
  \<^verbatim>\<open>VarInt.Encode\<close>, and a failed type assertion.
\<close>

type_synonym byte = "8 word"
type_synonym u16 = "16 word"
type_synonym u32 = "32 word"
type_synonym u64 = "64 word"

datatype error =
    EOF
  | ErrUnexpectedEOF
  | ErrValidation string
  | ErrProtocolViolation string
  | ErrVarIntTooLarge
  | Panic string

subsection \<open>Reading from a byte reader\<close>

text \<open>
  \<^verbatim>\<open>io.ReadFull(r, buf)\<close> with \<^verbatim>\<open>len(buf) = n\<close>: nothing is read for an empty buffer; an
  exhausted reader gives \<^verbatim>\<open>io.EOF\<close>; a reader holding fewer than \<open>n\<close> bytes is drained and
  gives \<^verbatim>\<open>io.ErrUnexpectedEOF\<close>. The result is the buffer, the error and the reader.
\<close>

definition ReadFull :: "nat \<Rightarrow> byte list \<Rightarrow> byte list \<times> error option \<times> byte list" where
  "ReadFull n r =
     (if n = 0 then ([], None, r)
      else if r = [] then ([], Some EOF, [])
      else if length r < n then (r, Some ErrUnexpectedEOF, [])
      else (take n r, None, drop n r))"

text \<open>\<^verbatim>\<open>io.ReadAll(r)\<close> on a byte reader returns what is left and never fails.\<close>

definition ReadAll :: "byte list \<Rightarrow> byte list \<times> error option \<times> byte list" where
  "ReadAll r = (r, None, [])"

subsection \<open>Big-endian integers (package encoding/binary)\<close>

definition PutUint16 :: "u16 \<Rightarrow> byte list" where
  "PutUint16 x = [ucast (drop_bit 8 x), ucast x]"

definition PutUint32 :: "u32 \<Rightarrow> byte list" where
  "PutUint32 x = [ucast (drop_bit 24 x), ucast (drop_bit 16 x), ucast (drop_bit 8 x), ucast x]"

definition PutUint64 :: "u64 \<Rightarrow> byte list" where
  "PutUint64 x = [ucast (drop_bit 56 x), ucast (drop_bit 48 x), ucast (drop_bit 40 x),
     ucast (drop_bit 32 x), ucast (drop_bit 24 x), ucast (drop_bit 16 x),
     ucast (drop_bit 8 x), ucast x]"

text \<open>
  The readers index a slice that every call site builds with the right length; on a
  shorter slice Go panics, which no call below can reach, and the model returns 0.
\<close>

fun Uint16 :: "byte list \<Rightarrow> u16" where
  "Uint16 (b0 # b1 # _) = ucast b1 OR push_bit 8 (ucast b0)"
| "Uint16 _ = 0"

fun Uint32 :: "byte list \<Rightarrow> u32" where
  "Uint32 (b0 # b1 # b2 # b3 # _) =
     ucast b3 OR push_bit 8 (ucast b2) OR push_bit 16 (ucast b1) OR push_bit 24 (ucast b0)"
| "Uint32 _ = 0"

fun Uint64 :: "byte list \<Rightarrow> u64" where
  "Uint64 (b0 # b1 # b2 # b3 # b4 # b5 # b6 # b7 # _) =
     ucast b7 OR push_bit 8 (ucast b6) OR push_bit 16 (ucast b5) OR push_bit 24 (ucast b4) OR
     push_bit 32 (ucast b3) OR push_bit 40 (ucast b2) OR push_bit 48 (ucast b1) OR
     push_bit 56 (ucast b0)"
| "Uint64 _ = 0"

subsection \<open>The variable-length integer codec\<close>

definition VarInt_Encode :: "u64 \<Rightarrow> error + byte list" where
  "VarInt_Encode v =
     (if v < 0x40 then Inr [ucast v]
      else if v < 0x4000 then Inr (PutUint16 (ucast (v OR 0x4000)))
      else if v < 0x40000000 then Inr (PutUint32 (ucast (v OR 0x80000000)))
      else if v < 0x4000000000000000 then Inr (PutUint64 (v OR 0xC000000000000000))
      else Inl ErrVarIntTooLarge)"

text \<open>\<^verbatim>\<open>Decode\<close> returns the value, the count of bytes consumed, the error and the reader.\<close>

definition VarInt_Decode :: "byte list \<Rightarrow> u64 \<times> nat \<times> error option \<times> byte list" where
  "VarInt_Decode r =
     (case ReadFull 1 r of
        (firstByte, Some err, r1) \<Rightarrow> (0, 0, Some err, r1)
      | (firstByte, None, r1) \<Rightarrow>
          (let prefix = drop_bit 6 (firstByte ! 0) in
           if prefix = 0 then (ucast (firstByte ! 0), 1, None, r1)
           else if prefix = 1 then
             (case ReadFull 1 r1 of
                (buf, Some err, r2) \<Rightarrow> (0, 1, Some err, r2)
              | (buf, None, r2) \<Rightarrow>
                  (ucast (Uint16 (firstByte @ buf) AND 0x3FFF), 2, None, r2))
           else if prefix = 2 then
             (case ReadFull 3 r1 of
                (buf, Some err, r2) \<Rightarrow> (0, 1, Some err, r2)
              | (buf, None, r2) \<Rightarrow>
                  (ucast (Uint32 (firstByte @ buf) AND 0x3FFFFFFF), 4, None, r2))
           else
             (case ReadFull 7 r1 of
                (buf, Some err, r2) \<Rightarrow> (0, 1, Some err, r2)
              | (buf, None, r2) \<Rightarrow>
                  (Uint64 (firstByte @ buf) AND 0x3FFFFFFFFFFFFFFF, 8, None, r2))))"

text \<open>
  The two idioms every call site uses: \<^verbatim>\<open>x, _, err := varInt.Decode(r)\<close> and
  \<^verbatim>\<open>buf := make([]byte, n); _, err := io.ReadFull(r, buf)\<close>, each followed by a return when
  \<^verbatim>\<open>err != nil\<close>. The result is the error, or the value and the reader after it.
\<close>

definition readVarInt :: "byte list \<Rightarrow> error + (u64 \<times> byte list)" where
  "readVarInt r =
     (case VarInt_Decode r of
        (x, n, Some err, r') \<Rightarrow> Inl err
      | (x, n, None, r') \<Rightarrow> Inr (x, r'))"

definition readBytes :: "nat \<Rightarrow> byte list \<Rightarrow> error + (byte list \<times> byte list)" where
  "readBytes n r =
     (case ReadFull n r of
        (buf, Some err, r') \<Rightarrow> Inl err
      | (buf, None, r') \<Rightarrow> Inr (buf, r'))"

text \<open>
  Go's early return, \<^verbatim>\<open>x, err := m; if err != nil { return nil, err }\<close>, followed by the
  rest of the function: \<open>orReturn\<close> in a function that returns a value or an error,
  \<open>orReturnV\<close> in a method that also returns the session state \<open>v\<close> it holds at that
  point, \<open>orReturnS\<close> when the callee itself may have changed the state. \<open>wrapErr\<close> is
  the return of a new error in place of the callee's,
  \<^verbatim>\<open>if err != nil { return nil, fmt.Errorf("%w: ...", ErrValidation) }\<close>.
\<close>

definition orReturn :: "error + 'a \<Rightarrow> ('a \<Rightarrow> error + 'b) \<Rightarrow> error + 'b" where
  "orReturn m f = (case m of Inl err \<Rightarrow> Inl err | Inr x \<Rightarrow> f x)"

definition orReturnV :: "'s \<Rightarrow> error + 'a \<Rightarrow> ('a \<Rightarrow> (error + 'b) \<times> 's) \<Rightarrow> (error + 'b) \<times> 's" where
  "orReturnV v m f = (case m of Inl err \<Rightarrow> (Inl err, v) | Inr x \<Rightarrow> f x)"

definition orReturnS ::
  "(error + 'a) \<times> 's \<Rightarrow> ('a \<Rightarrow> 's \<Rightarrow> (error + 'b) \<times> 's) \<Rightarrow> (error + 'b) \<times> 's" where
  "orReturnS m f = (case m of (Inl err, v) \<Rightarrow> (Inl err, v) | (Inr x, v) \<Rightarrow> f x v)"

definition wrapErr :: "error \<Rightarrow> error + 'a \<Rightarrow> error + 'a" where
  "wrapErr e m = (case m of Inl err \<Rightarrow> Inl e | Inr x \<Rightarrow> Inr x)"

section \<open>Decoded records and session state\<close>

text \<open>
  \<^verbatim>\<open>Location\<close>, \<^verbatim>\<open>TrackNamespace\<close> and \<^verbatim>\<open>FullTrackName\<close> are the structs of the source.
\<close>

record Location =
  GroupID :: u64
  ObjectID :: u64

definition Less :: "Location \<Rightarrow> Location \<Rightarrow> bool" where
  "Less l other =
     (if GroupID l < GroupID other then True
      else if GroupID l = GroupID other then ObjectID l < ObjectID other
      else False)"

record TrackNamespace =
  Fields :: "byte list list"

record FullTrackName =
  Namespace :: TrackNamespace
  Name :: "byte list"

definition NewTrackNamespace :: "byte list list \<Rightarrow> error + TrackNamespace" where
  "NewTrackNamespace fields' =
     (if length fields' = 0 \<or> length fields' > 32
      then Inl (ErrProtocolViolation ''track namespace must have 1-32 fields'')
      else Inr \<lparr>Fields = fields'\<rparr>)"

definition NewFullTrackName :: "TrackNamespace \<Rightarrow> byte list \<Rightarrow> error + FullTrackName" where
  "NewFullTrackName namespace name =
     (let totalLength = foldl (\<lambda>t field. t + length field) 0 (Fields namespace);
          totalLength = totalLength + length name
      in if totalLength > 4096
         then Inl (ErrProtocolViolation ''full track name exceeds 4096 bytes'')
         else Inr \<lparr>Namespace = namespace, Name = name\<rparr>)"

text \<open>
  A decoded record is a Go \<^verbatim>\<open>map[string]interface{}\<close>: a map from keys to dynamically typed
  values. \<open>JHex\<close> is the text \<^verbatim>\<open>hex.EncodeToString\<close> gives for the bytes, \<open>JFmt\<close> the
  text \<^verbatim>\<open>fmt.Sprintf\<close> gives for a format and a number (the rendering itself is not
  modelled), \<open>JLoc\<close> a \<^verbatim>\<open>map[string]uint64\<close>, \<open>JTrack\<close> a \<^verbatim>\<open>*FullTrackName\<close>.
\<close>

datatype jval =
    JU64 u64
  | JU16 u16
  | JU8 byte
  | JInt int
  | JBool bool
  | JStr string
  | JHex "byte list"
  | JFmt string u64
  | JNil
  | JList "jval list"
  | JLoc "string \<Rightarrow> u64 option"
  | JMap "string \<Rightarrow> jval option"
  | JTrack FullTrackName

type_synonym record_map = "string \<Rightarrow> jval option"

text \<open>
  The type assertions \<^verbatim>\<open>x, ok := m[k].(uint64)\<close> and \<^verbatim>\<open>m[k].(map[string]uint64)\<close>: not
  \<^verbatim>\<open>ok\<close> when the key is missing or holds a value of another type. Indexing a
  \<^verbatim>\<open>map[string]uint64\<close> at a missing key gives 0.
\<close>

fun assertU64 :: "jval option \<Rightarrow> u64 option" where
  "assertU64 (Some (JU64 x)) = Some x"
| "assertU64 _ = None"

fun assertLoc :: "jval option \<Rightarrow> (string \<Rightarrow> u64 option) option" where
  "assertLoc (Some (JLoc m)) = Some m"
| "assertLoc _ = None"

definition indexLoc :: "(string \<Rightarrow> u64 option) \<Rightarrow> string \<Rightarrow> u64" where
  "indexLoc m k = (case m k of Some x \<Rightarrow> x | None \<Rightarrow> 0)"

record MoQTValidator =
  currentVersion :: u64
  maxRequestIDClient :: u64
  maxRequestIDServer :: u64
  activeTracks :: "u64 \<Rightarrow> FullTrackName option"
  activeSubscriptions :: "u64 \<Rightarrow> jval option"
  activeFetches :: "u64 \<Rightarrow> jval option"
  authTokens :: "u64 \<Rightarrow> byte list option"
  maxAuthTokenCacheSize :: u64
  currentAuthTokenSize :: u64

text \<open>Fields the constructor does not mention have Go's zero value.\<close>

definition NewMoQTValidator :: MoQTValidator where
  "NewMoQTValidator =
     \<lparr>currentVersion = 0x00000001,
      maxRequestIDClient = 0,
      maxRequestIDServer = 0,
      activeTracks = Map.empty,
      activeSubscriptions = Map.empty,
      activeFetches = Map.empty,
      authTokens = Map.empty,
      maxAuthTokenCacheSize = 0,
      currentAuthTokenSize = 0\<rparr>"

subsection \<open>Protocol constants\<close>

abbreviation (input) ClientSetup :: u64 where "ClientSetup \<equiv> 0x20"
abbreviation (input) ServerSetup :: u64 where "ServerSetup \<equiv> 0x21"
abbreviation (input) Goaway :: u64 where "Goaway \<equiv> 0x10"
abbreviation (input) MaxRequestID :: u64 where "MaxRequestID \<equiv> 0x15"
abbreviation (input) RequestsBlocked :: u64 where "RequestsBlocked \<equiv> 0x1A"
abbreviation (input) Subscribe :: u64 where "Subscribe \<equiv> 0x3"
abbreviation (input) SubscribeOK :: u64 where "SubscribeOK \<equiv> 0x4"
abbreviation (input) SubscribeError :: u64 where "SubscribeError \<equiv> 0x5"
abbreviation (input) Unsubscribe :: u64 where "Unsubscribe \<equiv> 0xA"
abbreviation (input) SubscribeUpdate :: u64 where "SubscribeUpdate \<equiv> 0x2"
abbreviation (input) SubscribeDone :: u64 where "SubscribeDone \<equiv> 0xB"
abbreviation (input) Fetch :: u64 where "Fetch \<equiv> 0x16"
abbreviation (input) FetchOK :: u64 where "FetchOK \<equiv> 0x18"
abbreviation (input) FetchError :: u64 where "FetchError \<equiv> 0x19"
abbreviation (input) FetchCancel :: u64 where "FetchCancel \<equiv> 0x17"
abbreviation (input) TrackStatusRequest :: u64 where "TrackStatusRequest \<equiv> 0xD"
abbreviation (input) TrackStatus :: u64 where "TrackStatus \<equiv> 0xE"
abbreviation (input) Announce :: u64 where "Announce \<equiv> 0x6"
abbreviation (input) AnnounceOK :: u64 where "AnnounceOK \<equiv> 0x7"
abbreviation (input) AnnounceError :: u64 where "AnnounceError \<equiv> 0x8"
abbreviation (input) Unannounce :: u64 where "Unannounce \<equiv> 0x9"
abbreviation (input) AnnounceCancel :: u64 where "AnnounceCancel \<equiv> 0xC"
abbreviation (input) SubscribeAnnounces :: u64 where "SubscribeAnnounces \<equiv> 0x11"
abbreviation (input) SubscribeAnnouncesOK :: u64 where "SubscribeAnnouncesOK \<equiv> 0x12"
abbreviation (input) SubscribeAnnouncesError :: u64 where "SubscribeAnnouncesError \<equiv> 0x13"
abbreviation (input) UnsubscribeAnnounces :: u64 where "UnsubscribeAnnounces \<equiv> 0x14"

abbreviation (input) NextGroupStart :: u64 where "NextGroupStart \<equiv> 0x1"
abbreviation (input) LatestObject :: u64 where "LatestObject \<equiv> 0x2"
abbreviation (input) AbsoluteStart :: u64 where "AbsoluteStart \<equiv> 0x3"
abbreviation (input) AbsoluteRange :: u64 where "AbsoluteRange \<equiv> 0x4"

abbreviation (input) ObjectStatusNormal :: u64 where "ObjectStatusNormal \<equiv> 0x0"
abbreviation (input) ObjectStatusDoesNotExist :: u64 where "ObjectStatusDoesNotExist \<equiv> 0x1"
abbreviation (input) ObjectStatusEndOfGroup :: u64 where "ObjectStatusEndOfGroup \<equiv> 0x3"
abbreviation (input) ObjectStatusEndOfTrack :: u64 where "ObjectStatusEndOfTrack \<equiv> 0x4"

abbreviation (input) ObjectDatagramNoExt :: u64 where "ObjectDatagramNoExt \<equiv> 0x00"
abbreviation (input) ObjectDatagramWithExt :: u64 where "ObjectDatagramWithExt \<equiv> 0x01"
abbreviation (input) ObjectStatusNoExt :: u64 where "ObjectStatusNoExt \<equiv> 0x02"
abbreviation (input) ObjectStatusWithExt :: u64 where "ObjectStatusWithExt \<equiv> 0x03"

abbreviation (input) SetupParamPath :: u64 where "SetupParamPath \<equiv> 0x01"
abbreviation (input) SetupParamMaxRequestID :: u64 where "SetupParamMaxRequestID \<equiv> 0x02"
abbreviation (input) SetupParamMaxAuthTokenCacheSize :: u64 where "SetupParamMaxAuthTokenCacheSize \<equiv> 0x04"

abbreviation (input) VersionParamAuthorizationToken :: u64 where "VersionParamAuthorizationToken \<equiv> 0x01"
abbreviation (input) VersionParamDeliveryTimeout :: u64 where "VersionParamDeliveryTimeout \<equiv> 0x02"
abbreviation (input) VersionParamMaxCacheDuration :: u64 where "VersionParamMaxCacheDuration \<equiv> 0x04"

abbreviation (input) ExtHeaderPriorGroupIDGap :: u64 where "ExtHeaderPriorGroupIDGap \<equiv> 0x40"

abbreviation (input) AliasTypeDelete :: u64 where "AliasTypeDelete \<equiv> 0x0"
abbreviation (input) AliasTypeRegister :: u64 where "AliasTypeRegister \<equiv> 0x1"
abbreviation (input) AliasTypeUseAlias :: u64 where "AliasTypeUseAlias \<equiv> 0x2"
abbreviation (input) AliasTypeUseValue :: u64 where "AliasTypeUseValue \<equiv> 0x3"

subsection \<open>Helper functions\<close>

definition isValidMessageType :: "u64 \<Rightarrow> bool" where
  "isValidMessageType msgType =
     (msgType \<in> set
        [ClientSetup, ServerSetup, Goaway, MaxRequestID, RequestsBlocked,
         Subscribe, SubscribeOK, SubscribeError, Unsubscribe, SubscribeUpdate, SubscribeDone,
         Fetch, FetchOK, FetchError, FetchCancel,
         TrackStatusRequest, TrackStatus,
         Announce, AnnounceOK, AnnounceError, Unannounce, AnnounceCancel,
         SubscribeAnnounces, SubscribeAnnouncesOK, SubscribeAnnouncesError,
         UnsubscribeAnnounces])"

definition messageTypeNames :: "u64 \<Rightarrow> string option" where
  "messageTypeNames =
     [ClientSetup \<mapsto> ''CLIENT_SETUP'',
      ServerSetup \<mapsto> ''SERVER_SETUP'',
      Goaway \<mapsto> ''GOAWAY'',
      MaxRequestID \<mapsto> ''MAX_REQUEST_ID'',
      RequestsBlocked \<mapsto> ''REQUESTS_BLOCKED'',
      Subscribe \<mapsto> ''SUBSCRIBE'',
      SubscribeOK \<mapsto> ''SUBSCRIBE_OK'',
      SubscribeError \<mapsto> ''SUBSCRIBE_ERROR'',
      Unsubscribe \<mapsto> ''UNSUBSCRIBE'',
      SubscribeUpdate \<mapsto> ''SUBSCRIBE_UPDATE'',
      SubscribeDone \<mapsto> ''SUBSCRIBE_DONE'',
      Fetch \<mapsto> ''FETCH'',
      FetchOK \<mapsto> ''FETCH_OK'',
      FetchError \<mapsto> ''FETCH_ERROR'',
      FetchCancel \<mapsto> ''FETCH_CANCEL'',
      TrackStatusRequest \<mapsto> ''TRACK_STATUS_REQUEST'',
      TrackStatus \<mapsto> ''TRACK_STATUS'',
      Announce \<mapsto> ''ANNOUNCE'',
      AnnounceOK \<mapsto> ''ANNOUNCE_OK'',
      AnnounceError \<mapsto> ''ANNOUNCE_ERROR'',
      Unannounce \<mapsto> ''UNANNOUNCE'',
      AnnounceCancel \<mapsto> ''ANNOUNCE_CANCEL'',
      SubscribeAnnounces \<mapsto> ''SUBSCRIBE_ANNOUNCES'',
      SubscribeAnnouncesOK \<mapsto> ''SUBSCRIBE_ANNOUNCES_OK'',
      SubscribeAnnouncesError \<mapsto> ''SUBSCRIBE_ANNOUNCES_ERROR'',
      UnsubscribeAnnounces \<mapsto> ''UNSUBSCRIBE_ANNOUNCES'']"

definition getMessageTypeName :: "u64 \<Rightarrow> jval" where
  "getMessageTypeName msgType =
     (case messageTypeNames msgType of
        Some name \<Rightarrow> JStr name
      | None \<Rightarrow> JFmt ''UNKNOWN_%d'' msgType)"

definition isValidFilterType :: "u64 \<Rightarrow> bool" where
  "isValidFilterType filterType \<longleftrightarrow> filterType \<ge> NextGroupStart \<and> filterType \<le> AbsoluteRange"

definition getFilterTypeName :: "u64 \<Rightarrow> jval" where
  "getFilterTypeName filterType =
     (case [NextGroupStart \<mapsto> ''NEXT_GROUP_START'',
            LatestObject \<mapsto> ''LATEST_OBJECT'',
            AbsoluteStart \<mapsto> ''ABSOLUTE_START'',
            AbsoluteRange \<mapsto> ''ABSOLUTE_RANGE''] filterType of
        Some name \<Rightarrow> JStr name
      | None \<Rightarrow> JFmt ''UNKNOWN_%d'' filterType)"

definition getGroupOrderName :: "byte \<Rightarrow> jval" where
  "getGroupOrderName order =
     (if order = 0x0 then JStr ''DEFAULT''
      else if order = 0x1 then JStr ''ASCENDING''
      else if order = 0x2 then JStr ''DESCENDING''
      else JFmt ''UNKNOWN_%d'' (ucast order))"

definition isValidObjectStatus :: "u64 \<Rightarrow> bool" where
  "isValidObjectStatus status \<longleftrightarrow>
     status = ObjectStatusNormal \<or> status = ObjectStatusDoesNotExist \<or>
     status = ObjectStatusEndOfGroup \<or> status = ObjectStatusEndOfTrack"

definition getObjectStatusName :: "u64 \<Rightarrow> jval" where
  "getObjectStatusName status =
     (case [ObjectStatusNormal \<mapsto> ''NORMAL'',
            ObjectStatusDoesNotExist \<mapsto> ''OBJECT_DOES_NOT_EXIST'',
            ObjectStatusEndOfGroup \<mapsto> ''END_OF_GROUP'',
            ObjectStatusEndOfTrack \<mapsto> ''END_OF_TRACK''] status of
        Some name \<Rightarrow> JStr name
      | None \<Rightarrow> JFmt ''UNKNOWN_%d'' status)"

definition isValidDatagramType :: "u64 \<Rightarrow> bool" where
  "isValidDatagramType datagramType \<longleftrightarrow>
     datagramType \<ge> ObjectDatagramNoExt \<and> datagramType \<le> ObjectStatusWithExt"

definition getDatagramTypeName :: "u64 \<Rightarrow> jval" where
  "getDatagramTypeName datagramType =
     (case [ObjectDatagramNoExt \<mapsto> ''OBJECT_DATAGRAM_NO_EXT'',
            ObjectDatagramWithExt \<mapsto> ''OBJECT_DATAGRAM_WITH_EXT'',
            ObjectStatusNoExt \<mapsto> ''OBJECT_STATUS_NO_EXT'',
            ObjectStatusWithExt \<mapsto> ''OBJECT_STATUS_WITH_EXT''] datagramType of
        Some name \<Rightarrow> JStr name
      | None \<Rightarrow> JFmt ''UNKNOWN_%d'' datagramType)"

section \<open>The validator\<close>

text \<open>
  A method that assigns to a field of the validator takes the session state and returns
  it with its result, also when it returns an error: what was assigned before the error
  stays assigned. A method that only reads the state takes it as an argument, and a
  method that does not touch it is a function of the reader alone. A loop over
  \<^verbatim>\<open>i < n\<close> recurses on the number of iterations left, and the result slice grows at
  its end as \<^verbatim>\<open>append\<close> does. The size limits of \<^verbatim>\<open>make\<close> are not modelled: where
  the code allocates for a count or a length taken from the wire, Go panics when it is
  beyond the allocation limit, and the model goes on to the reads, which fail there for
  want of bytes. The two agree whenever the counts and lengths decoded do not exceed the
  number of bytes in the buffer.
\<close>

subsection \<open>Tuples and request ids\<close>

fun readTuple_loop :: "nat \<Rightarrow> byte list \<Rightarrow> byte list list \<Rightarrow> error + (byte list list \<times> byte list)" where
  "readTuple_loop 0 r fields' = Inr (fields', r)"
| "readTuple_loop (Suc n) r fields' =
     orReturn (readVarInt r) (\<lambda>(fieldLength, r).
     orReturn (wrapErr (ErrValidation ''insufficient data for tuple field'')
                 (readBytes (unat fieldLength) r)) (\<lambda>(fieldData, r).
     readTuple_loop n r (fields' @ [fieldData])))"

definition readTuple :: "byte list \<Rightarrow> error + (byte list list \<times> byte list)" where
  "readTuple r =
     orReturn (readVarInt r) (\<lambda>(numFields, r).
     readTuple_loop (unat numFields) r [])"

definition validateRequestID :: "MoQTValidator \<Rightarrow> u64 \<Rightarrow> bool \<Rightarrow> error option" where
  "validateRequestID v requestID isClient =
     (if isClient then
        (if requestID mod 2 \<noteq> 0
         then Some (ErrProtocolViolation ''client request ID must be even'')
         else if requestID > maxRequestIDClient v
         then Some (ErrProtocolViolation ''request ID exceeds maximum'')
         else None)
      else
        (if requestID mod 2 \<noteq> 1
         then Some (ErrProtocolViolation ''server request ID must be odd'')
         else if requestID > maxRequestIDServer v
         then Some (ErrProtocolViolation ''request ID exceeds maximum'')
         else None))"

text \<open>\<^verbatim>\<open>if err := f(); err != nil { return nil, err }\<close> for a callee that returns only an error.\<close>

definition errOf :: "error option \<Rightarrow> error + unit" where
  "errOf e = (case e of Some err \<Rightarrow> Inl err | None \<Rightarrow> Inr ())"

subsection \<open>Setup parameters\<close>

fun validateSetupParameters_loop :: "nat \<Rightarrow> byte list \<Rightarrow> jval list \<Rightarrow> error + jval list" where
  "validateSetupParameters_loop 0 r params = Inr params"
| "validateSetupParameters_loop (Suc n) r params =
     orReturn (readVarInt r) (\<lambda>(paramType, r).
     let paramInfo = [''type'' \<mapsto> JU64 paramType] in
     orReturn
       (if paramType mod 2 = 0 then
          orReturn (readVarInt r) (\<lambda>(value, r).
          Inr (paramInfo(''value'' \<mapsto> JU64 value), r))
        else
          orReturn (readVarInt r) (\<lambda>(length', r).
          if length' > 65535
          then Inl (ErrProtocolViolation ''parameter length too large'') else
          orReturn (wrapErr (ErrValidation ''insufficient data for parameter value'')
                      (readBytes (unat length') r)) (\<lambda>(value, r).
          Inr (paramInfo(''value'' \<mapsto> JHex value, ''length'' \<mapsto> JU64 length'), r))))
       (\<lambda>(paramInfo, r).
     let paramInfo =
           (if paramType = SetupParamPath
            then paramInfo(''name'' \<mapsto> JStr ''PATH'')
            else if paramType = SetupParamMaxRequestID
            then paramInfo(''name'' \<mapsto> JStr ''MAX_REQUEST_ID'')
            else if paramType = SetupParamMaxAuthTokenCacheSize
            then paramInfo(''name'' \<mapsto> JStr ''MAX_AUTH_TOKEN_CACHE_SIZE'')
            else paramInfo)
     in validateSetupParameters_loop n r (params @ [JMap paramInfo])))"

definition validateSetupParameters :: "byte list \<Rightarrow> u64 \<Rightarrow> error + jval list" where
  "validateSetupParameters r numParams = validateSetupParameters_loop (unat numParams) r []"

subsection \<open>Authorization tokens\<close>

definition aliasTypeNames :: "u64 \<Rightarrow> string option" where
  "aliasTypeNames = [0 \<mapsto> ''DELETE'', 1 \<mapsto> ''REGISTER'', 2 \<mapsto> ''USE_ALIAS'', 3 \<mapsto> ''USE_VALUE'']"

text \<open>\<^verbatim>\<open>aliasTypeNames[aliasType]\<close> is the empty string for a missing key.\<close>

definition validateAuthToken ::
  "MoQTValidator \<Rightarrow> byte list \<Rightarrow> (error + record_map) \<times> MoQTValidator" where
  "validateAuthToken v tokenData =
     orReturnV v (readVarInt tokenData) (\<lambda>(aliasType, r).
     if aliasType > 3 then (Inl (ErrProtocolViolation ''invalid alias type''), v) else
     let result =
           [''alias_type'' \<mapsto>
              JStr (case aliasTypeNames aliasType of Some name \<Rightarrow> name | None \<Rightarrow> [])] in
     orReturnV v
       (if aliasType \<le> 2 then
          orReturn (readVarInt r) (\<lambda>(tokenAlias, r).
          Inr (result(''token_alias'' \<mapsto> JU64 tokenAlias), r))
        else Inr (result, r))
       (\<lambda>(result, r).
     orReturnS
       (if aliasType = 1 \<or> aliasType = 3 then
          orReturnV v (readVarInt r) (\<lambda>(tokenType, r).
          let result = result(''token_type'' \<mapsto> JU64 tokenType) in
          case ReadAll r of
            (tokenValue, Some err, r) \<Rightarrow> (Inl err, v)
          | (tokenValue, None, r) \<Rightarrow>
              (let result = result(''token_value'' \<mapsto> JHex tokenValue,
                     ''token_value_length'' \<mapsto> JInt (int (length tokenValue))) in
               if aliasType = AliasTypeRegister then
                 (let tokenSize = (of_nat (8 + length tokenValue) :: u64) in
                  if currentAuthTokenSize v + tokenSize > maxAuthTokenCacheSize v
                  then (Inl (ErrProtocolViolation ''auth token cache overflow''), v)
                  else
                   (case assertU64 (result ''token_alias'') of
                      Some alias \<Rightarrow>
                        if authTokens v alias \<noteq> None
                        then (Inl (ErrProtocolViolation ''duplicate auth token alias''), v)
                        else (Inr result,
                              v\<lparr>authTokens := (authTokens v)(alias \<mapsto> tokenValue),
                                currentAuthTokenSize := currentAuthTokenSize v + tokenSize\<rparr>)
                    | None \<Rightarrow> (Inr result, v)))
               else (Inr result, v)))
        else (Inr result, v))
       (\<lambda>result v.
     if aliasType = AliasTypeDelete then
       (case assertU64 (result ''token_alias'') of
          Some alias \<Rightarrow>
            (case authTokens v alias of
               Some token \<Rightarrow>
                 (let tokenSize = (of_nat (8 + length token) :: u64) in
                  (Inr result,
                   v\<lparr>authTokens := (authTokens v)(alias := None),
                     currentAuthTokenSize := currentAuthTokenSize v - tokenSize\<rparr>))
             | None \<Rightarrow> (Inr result, v))
        | None \<Rightarrow> (Inr result, v))
     else if aliasType = AliasTypeUseAlias then
       (case assertU64 (result ''token_alias'') of
          Some alias \<Rightarrow>
            if authTokens v alias = None
            then (Inl (ErrProtocolViolation ''unknown auth token alias''), v)
            else (Inr result, v)
        | None \<Rightarrow> (Inr result, v))
     else (Inr result, v))))"

subsection \<open>Version parameters\<close>

text \<open>
  \<^verbatim>\<open>value\<close> is declared before the parity branch and stays \<^verbatim>\<open>nil\<close> (length 0) for an even
  type.
\<close>

fun validateVersionParameters_loop ::
  "nat \<Rightarrow> MoQTValidator \<Rightarrow> byte list \<Rightarrow> jval list \<Rightarrow> (error + jval list) \<times> MoQTValidator" where
  "validateVersionParameters_loop 0 v r params = (Inr params, v)"
| "validateVersionParameters_loop (Suc n) v r params =
     orReturnV v (readVarInt r) (\<lambda>(paramType, r).
     let paramInfo = [''type'' \<mapsto> JU64 paramType] in
     orReturnV v
       (if paramType mod 2 = 0 then
          orReturn (readVarInt r) (\<lambda>(val, r).
          Inr (paramInfo(''value'' \<mapsto> JU64 val), [], r))
        else
          orReturn (readVarInt r) (\<lambda>(length', r).
          if length' > 65535
          then Inl (ErrProtocolViolation ''parameter length too large'') else
          orReturn (wrapErr (ErrValidation ''insufficient data for parameter value'')
                      (readBytes (unat length') r)) (\<lambda>(value, r).
          Inr (paramInfo(''value'' \<mapsto> JHex value, ''length'' \<mapsto> JU64 length'), value, r))))
       (\<lambda>(paramInfo, value, r).
     if paramType = VersionParamAuthorizationToken then
       (let paramInfo = paramInfo(''name'' \<mapsto> JStr ''AUTHORIZATION_TOKEN'') in
        if length value > 0 then
          orReturnS (validateAuthToken v value) (\<lambda>authDetails v.
          validateVersionParameters_loop n v r (params @ [JMap (paramInfo ++ authDetails)]))
        else validateVersionParameters_loop n v r (params @ [JMap paramInfo]))
     else if paramType = VersionParamDeliveryTimeout then
       validateVersionParameters_loop n v r
         (params @ [JMap (paramInfo(''name'' \<mapsto> JStr ''DELIVERY_TIMEOUT''))])
     else if paramType = VersionParamMaxCacheDuration then
       validateVersionParameters_loop n v r
         (params @ [JMap (paramInfo(''name'' \<mapsto> JStr ''MAX_CACHE_DURATION''))])
     else validateVersionParameters_loop n v r (params @ [JMap paramInfo])))"

definition validateVersionParameters ::
  "MoQTValidator \<Rightarrow> byte list \<Rightarrow> u64 \<Rightarrow> (error + jval list) \<times> MoQTValidator" where
  "validateVersionParameters v r numParams =
     validateVersionParameters_loop (unat numParams) v r []"

subsection \<open>Control messages\<close>

fun validateClientSetup_versions ::
  "nat \<Rightarrow> byte list \<Rightarrow> jval list \<Rightarrow> error + (jval list \<times> byte list)" where
  "validateClientSetup_versions 0 r versions = Inr (versions, r)"
| "validateClientSetup_versions (Suc n) r versions =
     orReturn (readVarInt r) (\<lambda>(version, r).
     validateClientSetup_versions n r (versions @ [JFmt ''0x%08x'' version]))"

definition validateClientSetup :: "byte list \<Rightarrow> error + record_map" where
  "validateClientSetup r =
     orReturn (readVarInt r) (\<lambda>(numVersions, r).
     let result = [''num_versions'' \<mapsto> JU64 numVersions] in
     orReturn (validateClientSetup_versions (unat numVersions) r []) (\<lambda>(versions, r).
     let result = result(''supported_versions'' \<mapsto> JList versions) in
     orReturn (readVarInt r) (\<lambda>(numParams, r).
     let result = result(''num_parameters'' \<mapsto> JU64 numParams) in
     orReturn (validateSetupParameters r numParams) (\<lambda>params.
     Inr (result(''parameters'' \<mapsto> JList params))))))"

definition validateServerSetup :: "byte list \<Rightarrow> error + record_map" where
  "validateServerSetup r =
     orReturn (readVarInt r) (\<lambda>(version, r).
     let result = [''selected_version'' \<mapsto> JFmt ''0x%08x'' version] in
     orReturn (readVarInt r) (\<lambda>(numParams, r).
     let result = result(''num_parameters'' \<mapsto> JU64 numParams) in
     orReturn (validateSetupParameters r numParams) (\<lambda>params.
     Inr (result(''parameters'' \<mapsto> JList params)))))"

definition validateSubscribe ::
  "MoQTValidator \<Rightarrow> byte list \<Rightarrow> (error + record_map) \<times> MoQTValidator" where
  "validateSubscribe v r =
     orReturnV v (readVarInt r) (\<lambda>(requestID, r).
     let result = [''request_id'' \<mapsto> JU64 requestID] in
     orReturnV v (errOf (validateRequestID v requestID True)) (\<lambda>_.
     orReturnV v (readVarInt r) (\<lambda>(trackAlias, r).
     let result = result(''track_alias'' \<mapsto> JU64 trackAlias) in
     orReturnV v (readTuple r) (\<lambda>(namespace, r).
     let namespaceHex = map JHex namespace;
         result = result(''track_namespace'' \<mapsto> JList namespaceHex) in
     orReturnV v (readVarInt r) (\<lambda>(nameLength, r).
     orReturnV v (wrapErr (ErrValidation ''insufficient data for track name'')
                    (readBytes (unat nameLength) r)) (\<lambda>(trackName, r).
     let result = result(''track_name'' \<mapsto> JHex trackName) in
     orReturnV v (wrapErr (ErrValidation ''invalid track namespace'')
                    (NewTrackNamespace namespace)) (\<lambda>trackNamespace.
     orReturnV v (wrapErr (ErrValidation ''invalid track name'')
                    (NewFullTrackName trackNamespace trackName)) (\<lambda>fullTrackName.
     orReturnV v (wrapErr (ErrValidation ''missing subscriber priority'')
                    (readBytes 1 r)) (\<lambda>(priorityByte, r).
     let result = result(''subscriber_priority'' \<mapsto> JU8 (priorityByte ! 0)) in
     orReturnV v (wrapErr (ErrValidation ''missing group order'')
                    (readBytes 1 r)) (\<lambda>(orderByte, r).
     let groupOrder = orderByte ! 0 in
     if groupOrder > 2 then (Inl (ErrProtocolViolation ''invalid group order''), v) else
     let result = result(''group_order'' \<mapsto> getGroupOrderName groupOrder) in
     orReturnV v (wrapErr (ErrValidation ''missing forward flag'')
                    (readBytes 1 r)) (\<lambda>(forwardByte, r).
     let forward = forwardByte ! 0 in
     if forward > 1 then (Inl (ErrProtocolViolation ''invalid forward value''), v) else
     let result = result(''forward'' \<mapsto> JBool (forward = 1)) in
     orReturnV v (readVarInt r) (\<lambda>(filterType, r).
     if \<not> isValidFilterType filterType
     then (Inl (ErrProtocolViolation ''invalid filter type''), v) else
     let result = result(''filter_type'' \<mapsto> getFilterTypeName filterType) in
     orReturnV v
       (if filterType = AbsoluteStart \<or> filterType = AbsoluteRange then
          orReturn (readVarInt r) (\<lambda>(startGroup, r).
          orReturn (readVarInt r) (\<lambda>(startObject, r).
          Inr (result(''start_location'' \<mapsto>
                 JLoc [''group'' \<mapsto> startGroup, ''object'' \<mapsto> startObject]), r)))
        else Inr (result, r))
       (\<lambda>(result, r).
     orReturnV v
       (if filterType = AbsoluteRange then
          orReturn (readVarInt r) (\<lambda>(endGroup, r).
          let result = result(''end_group'' \<mapsto> JU64 endGroup) in
          case assertLoc (result ''start_location'') of
            Some startLoc \<Rightarrow>
              if endGroup < indexLoc startLoc ''group''
              then Inl (ErrValidation ''end group must be >= start group'')
              else Inr (result, r)
          | None \<Rightarrow> Inr (result, r))
        else Inr (result, r))
       (\<lambda>(result, r).
     orReturnV v (readVarInt r) (\<lambda>(numParams, r).
     let result = result(''num_parameters'' \<mapsto> JU64 numParams) in
     orReturnS
       (if numParams > 0 then
          orReturnS (validateVersionParameters v r numParams) (\<lambda>params v.
          (Inr (result(''parameters'' \<mapsto> JList params)), v))
        else (Inr result, v))
       (\<lambda>result v.
     (Inr result,
      v\<lparr>activeSubscriptions := (activeSubscriptions v)(requestID \<mapsto>
           JMap [''track_alias'' \<mapsto> JU64 trackAlias,
                 ''full_track_name'' \<mapsto> JTrack fullTrackName,
                 ''filter_type'' \<mapsto> JU64 filterType])\<rparr>)))))))))))))))))"

definition validateSubscribeOK ::
  "MoQTValidator \<Rightarrow> byte list \<Rightarrow> (error + record_map) \<times> MoQTValidator" where
  "validateSubscribeOK v r =
     orReturnV v (readVarInt r) (\<lambda>(requestID, r).
     let result = [''request_id'' \<mapsto> JU64 requestID] in
     orReturnV v (readVarInt r) (\<lambda>(expires, r).
     let result = result(''expires_ms'' \<mapsto> JU64 expires) in
     orReturnV v (wrapErr (ErrValidation ''missing group order'')
                    (readBytes 1 r)) (\<lambda>(orderByte, r).
     let groupOrder = orderByte ! 0 in
     if groupOrder = 0 \<or> groupOrder > 2
     then (Inl (ErrProtocolViolation ''invalid group order in SUBSCRIBE_OK''), v) else
     let result = result(''group_order'' \<mapsto> getGroupOrderName groupOrder) in
     orReturnV v (wrapErr (ErrValidation ''missing content exists flag'')
                    (readBytes 1 r)) (\<lambda>(existsByte, r).
     let contentExists = existsByte ! 0 in
     if contentExists > 1
     then (Inl (ErrProtocolViolation ''invalid content exists value''), v) else
     let result = result(''content_exists'' \<mapsto> JBool (contentExists = 1)) in
     orReturnV v
       (if contentExists = 1 then
          orReturn (readVarInt r) (\<lambda>(largestGroup, r).
          orReturn (readVarInt r) (\<lambda>(largestObject, r).
          Inr (result(''largest_location'' \<mapsto>
                 JLoc [''group'' \<mapsto> largestGroup, ''object'' \<mapsto> largestObject]), r)))
        else Inr (result, r))
       (\<lambda>(result, r).
     orReturnV v (readVarInt r) (\<lambda>(numParams, r).
     let result = result(''num_parameters'' \<mapsto> JU64 numParams) in
     if numParams > 0 then
       orReturnS (validateVersionParameters v r numParams) (\<lambda>params v.
       (Inr (result(''parameters'' \<mapsto> JList params)), v))
     else (Inr result, v)))))))"

definition fetchTypeNames :: "string list" where
  "fetchTypeNames = [''STANDALONE'', ''RELATIVE_JOINING'', ''ABSOLUTE_JOINING'']"

definition validateFetch ::
  "MoQTValidator \<Rightarrow> byte list \<Rightarrow> (error + record_map) \<times> MoQTValidator" where
  "validateFetch v r =
     orReturnV v (readVarInt r) (\<lambda>(requestID, r).
     let result = [''request_id'' \<mapsto> JU64 requestID] in
     orReturnV v (errOf (validateRequestID v requestID True)) (\<lambda>_.
     orReturnV v (wrapErr (ErrValidation ''missing subscriber priority'')
                    (readBytes 1 r)) (\<lambda>(priorityByte, r).
     let result = result(''subscriber_priority'' \<mapsto> JU8 (priorityByte ! 0)) in
     orReturnV v (wrapErr (ErrValidation ''missing group order'')
                    (readBytes 1 r)) (\<lambda>(orderByte, r).
     let groupOrder = orderByte ! 0 in
     if groupOrder > 2 then (Inl (ErrProtocolViolation ''invalid group order''), v) else
     let result = result(''group_order'' \<mapsto> getGroupOrderName groupOrder) in
     orReturnV v (readVarInt r) (\<lambda>(fetchType, r).
     if fetchType < 1 \<or> fetchType > 3
     then (Inl (ErrProtocolViolation ''invalid fetch type''), v) else
     let result = result(''fetch_type'' \<mapsto> JStr (fetchTypeNames ! unat (fetchType - 1))) in
     orReturnV v
       (if fetchType = 1 then
          orReturn (readTuple r) (\<lambda>(namespace, r).
          let namespaceHex = map JHex namespace;
              result = result(''track_namespace'' \<mapsto> JList namespaceHex) in
          orReturn (readVarInt r) (\<lambda>(nameLength, r).
          orReturn (readBytes (unat nameLength) r) (\<lambda>(trackName, r).
          let result = result(''track_name'' \<mapsto> JHex trackName) in
          orReturn (readVarInt r) (\<lambda>(startGroup, r).
          orReturn (readVarInt r) (\<lambda>(startObject, r).
          let result = result(''start'' \<mapsto>
                 JLoc [''group'' \<mapsto> startGroup, ''object'' \<mapsto> startObject]) in
          orReturn (readVarInt r) (\<lambda>(endGroup, r).
          orReturn (readVarInt r) (\<lambda>(endObject, r).
          let result = result(''end'' \<mapsto>
                 JLoc [''group'' \<mapsto> endGroup, ''object'' \<mapsto> endObject]);
              startLoc = \<lparr>GroupID = startGroup, ObjectID = startObject\<rparr>;
              endLoc = \<lparr>GroupID = endGroup, ObjectID = endObject\<rparr> in
          if Less endLoc startLoc
          then Inl (ErrValidation ''end location must be >= start location'')
          else Inr (result, r))))))))
        else
          orReturn (readVarInt r) (\<lambda>(subscribeID, r).
          let result = result(''joining_subscribe_id'' \<mapsto> JU64 subscribeID) in
          orReturn (readVarInt r) (\<lambda>(joiningStart, r).
          Inr (result(''joining_start'' \<mapsto> JU64 joiningStart), r))))
       (\<lambda>(result, r).
     orReturnV v (readVarInt r) (\<lambda>(numParams, r).
     let result = result(''num_parameters'' \<mapsto> JU64 numParams) in
     orReturnS
       (if numParams > 0 then
          orReturnS (validateVersionParameters v r numParams) (\<lambda>params v.
          (Inr (result(''parameters'' \<mapsto> JList params)), v))
        else (Inr result, v))
       (\<lambda>result v.
     (Inr result, v\<lparr>activeFetches := (activeFetches v)(requestID \<mapsto> JMap result)\<rparr>)))))))))"

definition validateAnnounce ::
  "MoQTValidator \<Rightarrow> byte list \<Rightarrow> (error + record_map) \<times> MoQTValidator" where
  "validateAnnounce v r =
     orReturnV v (readVarInt r) (\<lambda>(requestID, r).
     let result = [''request_id'' \<mapsto> JU64 requestID] in
     orReturnV v (errOf (validateRequestID v requestID True)) (\<lambda>_.
     orReturnV v (readTuple r) (\<lambda>(namespace, r).
     let namespaceHex = map JHex namespace;
         result = result(''track_namespace'' \<mapsto> JList namespaceHex) in
     orReturnV v (readVarInt r) (\<lambda>(numParams, r).
     let result = result(''num_parameters'' \<mapsto> JU64 numParams) in
     if numParams > 0 then
       orReturnS (validateVersionParameters v r numParams) (\<lambda>params v.
       (Inr (result(''parameters'' \<mapsto> JList params)), v))
     else (Inr result, v)))))"

definition validateGoaway :: "byte list \<Rightarrow> error + record_map" where
  "validateGoaway r =
     orReturn (readVarInt r) (\<lambda>(uriLength, r).
     if uriLength > 8192 then Inl (ErrProtocolViolation ''new session URI too long'') else
     if uriLength > 0 then
       orReturn (wrapErr (ErrValidation ''insufficient data for URI'')
                   (readBytes (unat uriLength) r)) (\<lambda>(uri, r).
       Inr [''new_session_uri'' \<mapsto> JStr (map (\<lambda>b. char_of (unat b)) uri)])
     else Inr [''new_session_uri'' \<mapsto> JNil])"

text \<open>
  The source's own note in \<^verbatim>\<open>validateMaxRequestID\<close>: ``In real implementation, we'd track
  whether this is from client or server and validate accordingly''. The method decodes
  one varint and reports it.
\<close>

definition validateMaxRequestID :: "byte list \<Rightarrow> error + record_map" where
  "validateMaxRequestID r =
     orReturn (readVarInt r) (\<lambda>(requestID, r).
     Inr [''max_request_id'' \<mapsto> JU64 requestID])"

definition validateTrackStatusRequest ::
  "MoQTValidator \<Rightarrow> byte list \<Rightarrow> (error + record_map) \<times> MoQTValidator" where
  "validateTrackStatusRequest v r =
     orReturnV v (readVarInt r) (\<lambda>(requestID, r).
     let result = [''request_id'' \<mapsto> JU64 requestID] in
     orReturnV v (errOf (validateRequestID v requestID True)) (\<lambda>_.
     orReturnV v (readTuple r) (\<lambda>(namespace, r).
     let namespaceHex = map JHex namespace;
         result = result(''track_namespace'' \<mapsto> JList namespaceHex) in
     orReturnV v (readVarInt r) (\<lambda>(nameLength, r).
     orReturnV v (readBytes (unat nameLength) r) (\<lambda>(trackName, r).
     let result = result(''track_name'' \<mapsto> JHex trackName) in
     orReturnV v (readVarInt r) (\<lambda>(numParams, r).
     let result = result(''num_parameters'' \<mapsto> JU64 numParams) in
     if numParams > 0 then
       orReturnS (validateVersionParameters v r numParams) (\<lambda>params v.
       (Inr (result(''parameters'' \<mapsto> JList params)), v))
     else (Inr result, v)))))))"

text \<open>
  The per-type decoder reads from a fresh reader over the payload; its record is merged
  into the framing record, a later key overwriting an earlier one.
\<close>

definition validateControlMessage ::
  "MoQTValidator \<Rightarrow> byte list \<Rightarrow> (error + record_map) \<times> MoQTValidator" where
  "validateControlMessage v r =
     orReturnV v (wrapErr (ErrValidation ''failed to read message type'')
                    (readVarInt r)) (\<lambda>(msgType, r).
     if \<not> isValidMessageType msgType
     then (Inl (ErrProtocolViolation ''unknown message type''), v) else
     orReturnV v (wrapErr (ErrValidation ''insufficient data for message length'')
                    (readBytes 2 r)) (\<lambda>(lengthBytes, r).
     let msgLength = Uint16 lengthBytes in
     orReturnV v (wrapErr (ErrValidation ''message payload incomplete'')
                    (readBytes (unat msgLength) r)) (\<lambda>(payload, r).
     let result = [''type'' \<mapsto> getMessageTypeName msgType,
                   ''type_value'' \<mapsto> JU64 msgType,
                   ''length'' \<mapsto> JU16 msgLength];
         payloadReader = payload in
     if msgType = ClientSetup then
       orReturnV v (validateClientSetup payloadReader) (\<lambda>details.
       (Inr (result ++ details), v))
     else if msgType = ServerSetup then
       orReturnV v (validateServerSetup payloadReader) (\<lambda>details.
       (Inr (result ++ details), v))
     else if msgType = Subscribe then
       orReturnS (validateSubscribe v payloadReader) (\<lambda>details v.
       (Inr (result ++ details), v))
     else if msgType = SubscribeOK then
       orReturnS (validateSubscribeOK v payloadReader) (\<lambda>details v.
       (Inr (result ++ details), v))
     else if msgType = Fetch then
       orReturnS (validateFetch v payloadReader) (\<lambda>details v.
       (Inr (result ++ details), v))
     else if msgType = Announce then
       orReturnS (validateAnnounce v payloadReader) (\<lambda>details v.
       (Inr (result ++ details), v))
     else if msgType = Goaway then
       orReturnV v (validateGoaway payloadReader) (\<lambda>details.
       (Inr (result ++ details), v))
     else if msgType = MaxRequestID then
       orReturnV v (validateMaxRequestID payloadReader) (\<lambda>details.
       (Inr (result ++ details), v))
     else if msgType = TrackStatusRequest then
       orReturnS (validateTrackStatusRequest v payloadReader) (\<lambda>details v.
       (Inr (result ++ details), v))
     else (Inr (result(''raw_payload'' \<mapsto> JHex payload)), v))))"

subsection \<open>Extension headers\<close>

text \<open>The loop \<^verbatim>\<open>for r.Len() > 0\<close> runs while the reader over the extension bytes holds data.\<close>

function validateExtensionHeaders_loop :: "byte list \<Rightarrow> jval list \<Rightarrow> error + jval list" where
  "validateExtensionHeaders_loop r headers =
     (if length r > 0 then
        (case readVarInt r of
           Inl err \<Rightarrow> Inl err
         | Inr (headerType, r1) \<Rightarrow>
            (let header = [''type'' \<mapsto> JU64 headerType];
                 header = (if headerType = ExtHeaderPriorGroupIDGap
                           then header(''name'' \<mapsto> JStr ''PRIOR_GROUP_ID_GAP'')
                           else header) in
             if headerType mod 2 = 0 then
               (case readVarInt r1 of
                  Inl err \<Rightarrow> Inl err
                | Inr (value, r2) \<Rightarrow>
                    validateExtensionHeaders_loop r2
                      (headers @ [JMap (header(''value'' \<mapsto> JU64 value))]))
             else
               (case readVarInt r1 of
                  Inl err \<Rightarrow> Inl err
                | Inr (length', r2) \<Rightarrow>
                   (case readBytes (unat length') r2 of
                      Inl err \<Rightarrow>
                        Inl (ErrValidation ''insufficient data for extension header value'')
                    | Inr (value, r3) \<Rightarrow>
                        validateExtensionHeaders_loop r3
                          (headers @ [JMap (header(''value'' \<mapsto> JHex value,
                                                  ''length'' \<mapsto> JU64 length'))])))))
      else Inr headers)"
  by pat_completeness auto

definition validateExtensionHeaders :: "byte list \<Rightarrow> error + jval list" where
  "validateExtensionHeaders data = validateExtensionHeaders_loop data []"

subsection \<open>Data streams\<close>

definition validateSubgroupObject :: "byte list \<Rightarrow> bool \<Rightarrow> error + (record_map \<times> byte list)" where
  "validateSubgroupObject r extensionsPresent =
     orReturn (readVarInt r) (\<lambda>(objectID, r).
     let obj = [''object_id'' \<mapsto> JU64 objectID] in
     orReturn
       (if extensionsPresent then
          orReturn (readVarInt r) (\<lambda>(extLength, r).
          let obj = obj(''extension_headers_length'' \<mapsto> JU64 extLength) in
          if extLength > 0 then
            orReturn (wrapErr (ErrValidation ''insufficient data for extension headers'')
                        (readBytes (unat extLength) r)) (\<lambda>(extData, r).
            orReturn (validateExtensionHeaders extData) (\<lambda>headers.
            Inr (obj(''extension_headers'' \<mapsto> JList headers), r)))
          else Inr (obj, r))
        else Inr (obj, r))
       (\<lambda>(obj, r).
     orReturn (readVarInt r) (\<lambda>(payloadLength, r).
     let obj = obj(''payload_length'' \<mapsto> JU64 payloadLength) in
     if payloadLength = 0 then
       orReturn (readVarInt r) (\<lambda>(status, r).
       if \<not> isValidObjectStatus status
       then Inl (ErrProtocolViolation ''invalid object status'') else
       Inr (obj(''status'' \<mapsto> getObjectStatusName status), r))
     else
       (let obj = obj(''status'' \<mapsto> JStr ''NORMAL'') in
        orReturn (wrapErr (ErrValidation ''insufficient data for object payload'')
                    (readBytes (unat payloadLength) r)) (\<lambda>(payload, r).
        if payloadLength < 100
        then Inr (obj(''payload'' \<mapsto> JHex payload), r)
        else Inr (obj(''payload'' \<mapsto> JFmt ''<%d bytes>'' payloadLength), r))))))"

text \<open>
  The object loop of \<^verbatim>\<open>validateSubgroupHeader\<close>, with the variables it updates:
  \<^verbatim>\<open>objects\<close>, \<^verbatim>\<open>objectCount\<close>, \<^verbatim>\<open>firstObjectID\<close> (a pointer, \<open>None\<close> for \<^verbatim>\<open>nil\<close>) and
  \<^verbatim>\<open>lastObjectID\<close>. \<^verbatim>\<open>err == io.EOF\<close> compares with the sentinel itself. The loop ends
  with \<^verbatim>\<open>break\<close> (the values of the variables) or with an error.
\<close>

function validateSubgroupHeader_loop ::
  "bool \<Rightarrow> byte list \<Rightarrow> jval list \<Rightarrow> nat \<Rightarrow> u64 option \<Rightarrow> u64 \<Rightarrow>
   error + (jval list \<times> nat \<times> u64 option)" where
  "validateSubgroupHeader_loop extensionsPresent r objects objectCount firstObjectID lastObjectID =
     (case validateSubgroupObject r extensionsPresent of
        Inl err \<Rightarrow>
          if err = EOF then Inr (objects, objectCount, firstObjectID)
          else if objectCount > 0 then Inr (objects, objectCount, firstObjectID)
          else Inl err
      | Inr (obj, r') \<Rightarrow>
          (case assertU64 (obj ''object_id'') of
             None \<Rightarrow> Inl (Panic ''interface conversion'')
           | Some objID \<Rightarrow>
               (let firstObjectID = (if firstObjectID = None then Some objID else firstObjectID) in
                if objectCount > 0 \<and> objID \<le> lastObjectID
                then Inl (ErrProtocolViolation ''object IDs must be ascending'')
                else validateSubgroupHeader_loop extensionsPresent r' (objects @ [JMap obj])
                       (objectCount + 1) firstObjectID objID)))"
  by pat_completeness auto

definition typeInfo :: "u64 \<Rightarrow> (bool \<times> string \<times> bool) option" where
  "typeInfo =
     [0x08 \<mapsto> (False, ''0'', False),
      0x09 \<mapsto> (False, ''0'', True),
      0x0A \<mapsto> (False, ''first_object_id'', False),
      0x0B \<mapsto> (False, ''first_object_id'', True),
      0x0C \<mapsto> (True, '''', False),
      0x0D \<mapsto> (True, '''', True)]"

definition validateSubgroupHeader :: "byte list \<Rightarrow> u64 \<Rightarrow> error + record_map" where
  "validateSubgroupHeader r headerType =
     (let result = [''header_type'' \<mapsto> JStr ''SUBGROUP_HEADER''] in
      case typeInfo headerType of
        None \<Rightarrow> Inl (ErrProtocolViolation ''invalid subgroup header type'')
      | Some (subgroupIDPresent, subgroupIDValue, extensionsPresent) \<Rightarrow>
     let result = result(''subgroup_id_present'' \<mapsto> JBool subgroupIDPresent,
                         ''subgroup_id_value'' \<mapsto> JStr subgroupIDValue,
                         ''extensions_present'' \<mapsto> JBool extensionsPresent) in
     orReturn (readVarInt r) (\<lambda>(trackAlias, r).
     let result = result(''track_alias'' \<mapsto> JU64 trackAlias) in
     orReturn (readVarInt r) (\<lambda>(groupID, r).
     let result = result(''group_id'' \<mapsto> JU64 groupID) in
     orReturn
       (if subgroupIDPresent then
          orReturn (readVarInt r) (\<lambda>(subgroupID, r).
          Inr (result(''subgroup_id'' \<mapsto> JU64 subgroupID), r))
        else Inr (result, r))
       (\<lambda>(result, r).
     orReturn (wrapErr (ErrValidation ''missing publisher priority'')
                 (readBytes 1 r)) (\<lambda>(priorityByte, r).
     let result = result(''publisher_priority'' \<mapsto> JU8 (priorityByte ! 0)) in
     orReturn (validateSubgroupHeader_loop extensionsPresent r [] 0 None 0)
       (\<lambda>(objects, objectCount, firstObjectID).
     let result = result(''object_count'' \<mapsto> JInt (int objectCount),
                         ''objects'' \<mapsto> JList objects) in
     if (headerType = 0x0A \<or> headerType = 0x0B) \<and> firstObjectID \<noteq> None
     then Inr (result(''subgroup_id'' \<mapsto> JU64 (the firstObjectID)))
     else Inr result))))))"

definition validateFetchObject :: "byte list \<Rightarrow> error + (record_map \<times> byte list)" where
  "validateFetchObject r =
     orReturn (readVarInt r) (\<lambda>(groupID, r).
     let obj = [''group_id'' \<mapsto> JU64 groupID] in
     orReturn (readVarInt r) (\<lambda>(subgroupID, r).
     let obj = obj(''subgroup_id'' \<mapsto> JU64 subgroupID) in
     orReturn (readVarInt r) (\<lambda>(objectID, r).
     let obj = obj(''object_id'' \<mapsto> JU64 objectID) in
     orReturn (wrapErr (ErrValidation ''missing publisher priority'')
                 (readBytes 1 r)) (\<lambda>(priorityByte, r).
     let obj = obj(''publisher_priority'' \<mapsto> JU8 (priorityByte ! 0)) in
     orReturn (readVarInt r) (\<lambda>(extLength, r).
     let obj = obj(''extension_headers_length'' \<mapsto> JU64 extLength) in
     orReturn
       (if extLength > 0 then
          orReturn (wrapErr (ErrValidation ''insufficient data for extension headers'')
                      (readBytes (unat extLength) r)) (\<lambda>(extData, r).
          orReturn (validateExtensionHeaders extData) (\<lambda>headers.
          Inr (obj(''extension_headers'' \<mapsto> JList headers), r)))
        else Inr (obj, r))
       (\<lambda>(obj, r).
     orReturn (readVarInt r) (\<lambda>(payloadLength, r).
     let obj = obj(''payload_length'' \<mapsto> JU64 payloadLength) in
     if payloadLength = 0 then
       orReturn (readVarInt r) (\<lambda>(status, r).
       if \<not> isValidObjectStatus status
       then Inl (ErrProtocolViolation ''invalid object status'') else
       Inr (obj(''status'' \<mapsto> getObjectStatusName status), r))
     else
       (let obj = obj(''status'' \<mapsto> JStr ''NORMAL'') in
        orReturn (wrapErr (ErrValidation ''insufficient data for object payload'')
                    (readBytes (unat payloadLength) r)) (\<lambda>(payload, r).
        if payloadLength < 100
        then Inr (obj(''payload'' \<mapsto> JHex payload), r)
        else Inr (obj(''payload'' \<mapsto> JFmt ''<%d bytes>'' payloadLength), r))))))))))"

function validateFetchHeader_loop :: "byte list \<Rightarrow> jval list \<Rightarrow> error + jval list" where
  "validateFetchHeader_loop r objects =
     (case validateFetchObject r of
        Inl err \<Rightarrow>
          if err = EOF then Inr objects
          else if length objects > 0 then Inr objects
          else Inl err
      | Inr (obj, r') \<Rightarrow> validateFetchHeader_loop r' (objects @ [JMap obj]))"
  by pat_completeness auto

definition validateFetchHeader :: "byte list \<Rightarrow> error + record_map" where
  "validateFetchHeader r =
     (let result = [''header_type'' \<mapsto> JStr ''FETCH_HEADER''] in
      orReturn (readVarInt r) (\<lambda>(requestID, r).
      let result = result(''request_id'' \<mapsto> JU64 requestID) in
      orReturn (validateFetchHeader_loop r []) (\<lambda>objects.
      Inr (result(''object_count'' \<mapsto> JInt (int (length objects)),
                  ''objects'' \<mapsto> JList objects)))))"

definition validateDataStream :: "byte list \<Rightarrow> error + record_map" where
  "validateDataStream data =
     (if length data = 0 then Inl (ErrValidation ''empty data stream'') else
      orReturn (readVarInt data) (\<lambda>(streamType, r).
      let result = [''stream_type'' \<mapsto> JU64 streamType] in
      if streamType \<ge> 0x08 \<and> streamType \<le> 0x0D then
        orReturn (validateSubgroupHeader r streamType) (\<lambda>details.
        Inr (result ++ details))
      else if streamType = 0x05 then
        orReturn (validateFetchHeader r) (\<lambda>details.
        Inr (result ++ details))
      else Inl (ErrProtocolViolation ''unknown stream type'')))"

subsection \<open>Entry points\<close>

definition ValidateMessage ::
  "MoQTValidator \<Rightarrow> byte list \<Rightarrow> bool \<Rightarrow> (error + record_map) \<times> MoQTValidator" where
  "ValidateMessage v data isControlStream =
     (if length data = 0 then (Inl (ErrValidation ''empty message''), v)
      else if isControlStream then validateControlMessage v data
      else (validateDataStream data, v))"

definition ValidateDatagram ::
  "MoQTValidator \<Rightarrow> byte list \<Rightarrow> (error + record_map) \<times> MoQTValidator" where
  "ValidateDatagram v data =
     (if length data = 0 then (Inl (ErrValidation ''empty datagram''), v) else
      orReturnV v (readVarInt data) (\<lambda>(datagramType, r).
      if \<not> isValidDatagramType datagramType
      then (Inl (ErrProtocolViolation ''unknown datagram type''), v) else
      let result = [''type'' \<mapsto> getDatagramTypeName datagramType,
                    ''type_value'' \<mapsto> JU64 datagramType] in
      orReturnV v (readVarInt r) (\<lambda>(trackAlias, r).
      let result = result(''track_alias'' \<mapsto> JU64 trackAlias) in
      orReturnV v (readVarInt r) (\<lambda>(groupID, r).
      let result = result(''group_id'' \<mapsto> JU64 groupID) in
      orReturnV v (readVarInt r) (\<lambda>(objectID, r).
      let result = result(''object_id'' \<mapsto> JU64 objectID) in
      orReturnV v (wrapErr (ErrValidation ''missing publisher priority'')
                     (readBytes 1 r)) (\<lambda>(priorityByte, r).
      let result = result(''publisher_priority'' \<mapsto> JU8 (priorityByte ! 0)) in
      orReturnV v
        (if datagramType = ObjectDatagramWithExt \<or> datagramType = ObjectStatusWithExt then
           orReturn (readVarInt r) (\<lambda>(extLength, r).
           let result = result(''extension_headers_length'' \<mapsto> JU64 extLength) in
           if extLength > 0 then
             orReturn (wrapErr (ErrValidation ''insufficient data for extension headers'')
                         (readBytes (unat extLength) r)) (\<lambda>(extData, r).
             orReturn (validateExtensionHeaders extData) (\<lambda>headers.
             Inr (result(''extension_headers'' \<mapsto> JList headers), r)))
           else if extLength = 0 then
             Inl (ErrProtocolViolation ''extension header length is 0 for type with extensions'')
           else Inr (result, r))
         else Inr (result, r))
        (\<lambda>(result, r).
      if datagramType = ObjectDatagramNoExt \<or> datagramType = ObjectDatagramWithExt then
        (case ReadAll r of
           (payload, Some err, r) \<Rightarrow> (Inl err, v)
         | (payload, None, r) \<Rightarrow>
             (let result = result(''payload_length'' \<mapsto> JInt (int (length payload))) in
              if length payload < 100
              then (Inr (result(''payload'' \<mapsto> JHex payload)), v)
              else (Inr (result(''payload'' \<mapsto>
                           JFmt ''<%d bytes>'' (of_nat (length payload)))), v)))
      else
        orReturnV v (readVarInt r) (\<lambda>(status, r).
        if \<not> isValidObjectStatus status
        then (Inl (ErrProtocolViolation ''invalid object status''), v) else
        (Inr (result(''status'' \<mapsto> getObjectStatusName status)), v)))))))))"

section \<open>Notions used to state the properties\<close>

text \<open>
  The class of an error, as \<^verbatim>\<open>errors.Is\<close> would report it: only an error built with
  \<^verbatim>\<open>%w\<close> from \<^verbatim>\<open>ErrValidation\<close> (or \<^verbatim>\<open>ErrProtocolViolation\<close>) belongs to that class; the
  errors of package \<^verbatim>\<open>io\<close> that a decoder passes on unwrapped belong to neither.
\<close>

fun isErrValidation :: "error + 'a \<Rightarrow> bool" where
  "isErrValidation (Inl (ErrValidation msg)) = True"
| "isErrValidation _ = False"

fun isErrProtocolViolation :: "error + 'a \<Rightarrow> bool" where
  "isErrProtocolViolation (Inl (ErrProtocolViolation msg)) = True"
| "isErrProtocolViolation _ = False"

text \<open>
  The framing of a control message, read the way \<^verbatim>\<open>validateControlMessage\<close> reads it: the
  message type, the payload of the declared length, and the bytes after the payload.
\<close>

definition controlFrame :: "byte list \<Rightarrow> (u64 \<times> byte list \<times> byte list) option" where
  "controlFrame data =
     (case readVarInt data of
        Inl err \<Rightarrow> None
      | Inr (msgType, r) \<Rightarrow>
          (case readBytes 2 r of
             Inl err \<Rightarrow> None
           | Inr (lengthBytes, r) \<Rightarrow>
               (case readBytes (unat (Uint16 lengthBytes)) r of
                  Inl err \<Rightarrow> None
                | Inr (payload, r) \<Rightarrow> Some (msgType, payload, r))))"

text \<open>
  The object ids of a subgroup stream, in stream order: the ids of the objects that
  \<^verbatim>\<open>validateSubgroupObject\<close> decodes one after the other from the bytes after the header,
  up to the first object that does not decode.
\<close>

function subgroupObjectIDs :: "byte list \<Rightarrow> bool \<Rightarrow> u64 list" where
  "subgroupObjectIDs r extensionsPresent =
     (case validateSubgroupObject r extensionsPresent of
        Inl err \<Rightarrow> []
      | Inr (obj, r') \<Rightarrow>
          (case assertU64 (obj ''object_id'') of
             None \<Rightarrow> []
           | Some objID \<Rightarrow> objID # subgroupObjectIDs r' extensionsPresent))"
  by pat_completeness auto

text \<open>
  The bytes after the header of a subgroup stream: what is left when
  \<^verbatim>\<open>validateSubgroupHeader\<close> has read the track alias, the group id, the subgroup id
  (when the stream type has one) and the publisher priority.
\<close>

definition subgroupHeaderRest :: "byte list \<Rightarrow> bool \<Rightarrow> byte list option" where
  "subgroupHeaderRest r subgroupIDPresent =
     (case readVarInt r of
        Inl err \<Rightarrow> None
      | Inr (trackAlias, r) \<Rightarrow>
          (case readVarInt r of
             Inl err \<Rightarrow> None
           | Inr (groupID, r) \<Rightarrow>
               (case (if subgroupIDPresent then readVarInt r else Inr (0, r)) of
                  Inl err \<Rightarrow> None
                | Inr (subgroupID, r) \<Rightarrow>
                    (case readBytes 1 r of
                       Inl err \<Rightarrow> None
                     | Inr (priorityByte, r) \<Rightarrow> Some r))))"

text \<open>
  The track alias of a live subscription: the entry \<^verbatim>\<open>"track_alias"\<close> of the subscription
  info that \<^verbatim>\<open>validateSubscribe\<close> stores under the request id.
\<close>

definition subscriptionAlias :: "jval option \<Rightarrow> u64 option" where
  "subscriptionAlias sub =
     (case sub of
        Some (JMap info) \<Rightarrow> assertU64 (info ''track_alias'')
      | _ \<Rightarrow> None)"

text \<open>
  The setup-parameter list on the wire, read as the parameter reader of the
  specification describes it, to compare with what \<^verbatim>\<open>validateSetupParameters\<close> reports:
  \<open>n\<close> entries, each a varint type followed by a varint that is the value when the type
  is even and the length (at most 65535) of the bytes that follow when the type is odd.
  \<open>setupParameterRecord\<close> is the record of one entry: its type, its value (for an odd
  type the bytes in hex and their length) and the name of a known type.
  \<open>setupParametersOf\<close> is the parameter count and the bytes of the parameter list in the
  payload of a setup message: what follows the versions of a CLIENT\_SETUP, or the
  selected version of a SERVER\_SETUP.
\<close>

fun setupParameterList :: "nat \<Rightarrow> byte list \<Rightarrow> (u64 \<times> (u64 + byte list)) list option" where
  "setupParameterList 0 r = Some []"
| "setupParameterList (Suc n) r =
     (case readVarInt r of
        Inl err \<Rightarrow> None
      | Inr (paramType, r) \<Rightarrow>
          (case readVarInt r of
             Inl err \<Rightarrow> None
           | Inr (x, r) \<Rightarrow>
               if paramType mod 2 = 0
               then map_option ((#) (paramType, Inl x)) (setupParameterList n r)
               else if x > 65535 then None
               else (case readBytes (unat x) r of
                       Inl err \<Rightarrow> None
                     | Inr (bytes, r) \<Rightarrow>
                         map_option ((#) (paramType, Inr bytes)) (setupParameterList n r))))"

definition setupParameterRecord :: "u64 \<times> (u64 + byte list) \<Rightarrow> jval" where
  "setupParameterRecord p =
     (case p of (paramType, val) \<Rightarrow>
        let paramInfo =
              (case val of
                 Inl x \<Rightarrow> [''type'' \<mapsto> JU64 paramType, ''value'' \<mapsto> JU64 x]
               | Inr bytes \<Rightarrow>
                   [''type'' \<mapsto> JU64 paramType, ''value'' \<mapsto> JHex bytes,
                    ''length'' \<mapsto> JU64 (of_nat (length bytes))])
        in JMap (if paramType = SetupParamPath
                 then paramInfo(''name'' \<mapsto> JStr ''PATH'')
                 else if paramType = SetupParamMaxRequestID
                 then paramInfo(''name'' \<mapsto> JStr ''MAX_REQUEST_ID'')
                 else if paramType = SetupParamMaxAuthTokenCacheSize
                 then paramInfo(''name'' \<mapsto> JStr ''MAX_AUTH_TOKEN_CACHE_SIZE'')
                 else paramInfo))"

definition setupParametersOf :: "u64 \<Rightarrow> byte list \<Rightarrow> (u64 \<times> byte list) option" where
  "setupParametersOf msgType payload =
     (if msgType = ClientSetup then
        (case readVarInt payload of
           Inl err \<Rightarrow> None
         | Inr (numVersions, r) \<Rightarrow>
             (case validateClientSetup_versions (unat numVersions) r [] of
                Inl err \<Rightarrow> None
              | Inr (versions, r) \<Rightarrow>
                  (case readVarInt r of
                     Inl err \<Rightarrow> None
                   | Inr (numParams, r) \<Rightarrow> Some (numParams, r))))
      else if msgType = ServerSetup then
        (case readVarInt payload of
           Inl err \<Rightarrow> None
         | Inr (version, r) \<Rightarrow>
             (case readVarInt r of
                Inl err \<Rightarrow> None
              | Inr (numParams, r) \<Rightarrow> Some (numParams, r)))
      else None)"

text \<open>
  The token-cache budget: the sizes \<open>8 + len(value)\<close> of the registered tokens add up to
  \<^verbatim>\<open>currentAuthTokenSize\<close>, which does not exceed \<^verbatim>\<open>maxAuthTokenCacheSize\<close>.
\<close>

definition tokenCacheSum :: "MoQTValidator \<Rightarrow> nat" where
  "tokenCacheSum v = (\<Sum>a \<in> dom (authTokens v). 8 + length (the (authTokens v a)))"

definition tokenCacheOK :: "MoQTValidator \<Rightarrow> bool" where
  "tokenCacheOK v \<longleftrightarrow>
     finite (dom (authTokens v)) \<and>
     tokenCacheSum v = unat (currentAuthTokenSize v) \<and>
     currentAuthTokenSize v \<le> maxAuthTokenCacheSize v"

text \<open>
  The session states reachable from a state \<open>s0\<close> by validating messages through the
  entry points, whether a message is accepted or not.
\<close>

inductive reachableFrom :: "MoQTValidator \<Rightarrow> MoQTValidator \<Rightarrow> bool" for s0 where
  start: "reachableFrom s0 s0"
| message: "reachableFrom s0 s \<Longrightarrow> reachableFrom s0 (snd (ValidateMessage s data isControlStream))"
| datagram: "reachableFrom s0 s \<Longrightarrow> reachableFrom s0 (snd (ValidateDatagram s data))"

section \<open>Predicates used in the proofs\<close>

text \<open>
  \<open>within n m\<close>: when the read \<open>m\<close> succeeds, the reader it returns holds at most \<open>n\<close>
  bytes. \<open>post P m\<close>: the session state a method returns satisfies \<open>P\<close>.
\<close>

definition within :: "nat \<Rightarrow> error + ('a \<times> byte list) \<Rightarrow> bool" where
  "within n m \<longleftrightarrow> (\<forall>x r'. m = Inr (x, r') \<longrightarrow> length r' \<le> n)"

definition post :: "('s \<Rightarrow> bool) \<Rightarrow> (error + 'a) \<times> 's \<Rightarrow> bool" where
  "post P m \<longleftrightarrow> P (snd m)"

text \<open>
  \<open>postOK P m\<close>: when the method succeeds, the session state it returns satisfies \<open>P\<close>.
  \<open>sameButSubscriptions v w\<close>: the states \<open>v\<close> and \<open>w\<close> differ at most in the tables
  \<^verbatim>\<open>activeSubscriptions\<close> and \<^verbatim>\<open>activeTracks\<close>. \<open>agree m1 m2\<close>: two runs of a method return
  the same value or error, in states that differ at most in these tables.
\<close>

definition postOK :: "('s \<Rightarrow> bool) \<Rightarrow> (error + 'a) \<times> 's \<Rightarrow> bool" where
  "postOK P m \<longleftrightarrow> (\<forall>x v. m = (Inr x, v) \<longrightarrow> P v)"

definition sameButSubscriptions :: "MoQTValidator \<Rightarrow> MoQTValidator \<Rightarrow> bool" where
  "sameButSubscriptions v w \<longleftrightarrow>
     currentVersion v = currentVersion w \<and>
     maxRequestIDClient v = maxRequestIDClient w \<and>
     maxRequestIDServer v = maxRequestIDServer w \<and>
     activeFetches v = activeFetches w \<and>
     authTokens v = authTokens w \<and>
     maxAuthTokenCacheSize v = maxAuthTokenCacheSize w \<and>
     currentAuthTokenSize v = currentAuthTokenSize w"

definition agree ::
  "(error + 'a) \<times> MoQTValidator \<Rightarrow> (error + 'a) \<times> MoQTValidator \<Rightarrow> bool" where
  "agree m1 m2 \<longleftrightarrow> fst m1 = fst m2 \<and> sameButSubscriptions (snd m1) (snd m2)"

section \<open>Basic facts about the readers\<close>

lemma orReturn_simps [simp]:
  "orReturn (Inl e) f = Inl e"
  "orReturn (Inr x) f = f x"
  by (simp_all add: orReturn_def)

lemma orReturnV_simps [simp]:
  "orReturnV v (Inl e) g = (Inl e, v)"
  "orReturnV v (Inr x) g = g x"
  by (simp_all add: orReturnV_def)

lemma orReturnS_simps [simp]:
  "orReturnS (Inl e, v) h = (Inl e, v)"
  "orReturnS (Inr x, v) h = h x v"
  by (simp_all add: orReturnS_def)

lemma wrapErr_simps [simp]:
  "wrapErr e (Inl e') = Inl e"
  "wrapErr e (Inr x) = Inr x"
  by (simp_all add: wrapErr_def)

lemma errOf_simps [simp]:
  "errOf (Some e) = Inl e"
  "errOf None = Inr ()"
  by (simp_all add: errOf_def)

lemma wrapErr_Inr_iff [simp]: "wrapErr e m = Inr x \<longleftrightarrow> m = Inr x"
  by (cases m) simp_all

lemma orReturn_Inr_iff: "orReturn m f = Inr y \<longleftrightarrow> (\<exists>x. m = Inr x \<and> f x = Inr y)"
  by (cases m) simp_all

lemma ReadFull_length:
  "ReadFull n r = (buf, None, r') \<Longrightarrow> length buf = n \<and> r = buf @ r'"
  by (auto simp: ReadFull_def split: if_splits)

lemma readBytes_Inr: "readBytes n r = Inr (buf, r') \<longleftrightarrow> n \<le> length r \<and> buf = take n r \<and> r' = drop n r"
  by (auto simp: readBytes_def ReadFull_def)

lemma readBytes_Inl: "(\<exists>e. readBytes n r = Inl e) \<longleftrightarrow> length r < n"
  by (auto simp: readBytes_def ReadFull_def)

lemma readBytes_length: "readBytes n r = Inr (buf, r') \<Longrightarrow> length r' \<le> length r"
  by (simp add: readBytes_Inr)

lemma VarInt_Decode_shorter:
  "VarInt_Decode r = (x, n, None, r') \<Longrightarrow> length r' < length r"
  by (auto simp: VarInt_Decode_def ReadFull_def Let_def split: if_splits)

lemma readVarInt_length: "readVarInt r = Inr (x, r') \<Longrightarrow> length r' < length r"
  by (auto simp: readVarInt_def dest: VarInt_Decode_shorter split: prod.splits option.splits)

subsection \<open>A successful read leaves a shorter reader\<close>

lemma within_Inl: "within n (Inl e)"
  by (simp add: within_def)

lemma within_Inr: "length r \<le> n \<Longrightarrow> within n (Inr (x, r))"
  by (simp add: within_def)

lemma within_orReturn:
  "within n m \<Longrightarrow> (\<And>x r1. length r1 \<le> n \<Longrightarrow> within n (f x r1)) \<Longrightarrow>
   within n (orReturn m (\<lambda>(x, r1). f x r1))"
  by (cases m) (auto simp: within_def)

lemma within_orReturn_val: "(\<And>x. within n (f x)) \<Longrightarrow> within n (orReturn m f)"
  by (cases m) (auto simp: within_def)

lemma within_if:
  "(c \<Longrightarrow> within n a) \<Longrightarrow> (\<not> c \<Longrightarrow> within n b) \<Longrightarrow> within n (if c then a else b)"
  by simp

lemma within_Let: "within n (f x) \<Longrightarrow> within n (Let x f)"
  by simp

lemma within_wrapErr: "within n m \<Longrightarrow> within n (wrapErr e m)"
  by (cases m) (auto simp: within_def)

lemma within_readVarInt: "length r \<le> n \<Longrightarrow> within n (readVarInt r)"
  by (auto simp: within_def dest!: readVarInt_length)

lemma within_readVarInt_Suc: "length r \<le> Suc n \<Longrightarrow> within n (readVarInt r)"
  by (auto simp: within_def dest!: readVarInt_length)

lemma within_readBytes: "length r \<le> n \<Longrightarrow> within n (readBytes k r)"
  by (auto simp: within_def dest!: readBytes_length)

lemmas within_intros = within_Inl within_Inr within_orReturn within_orReturn_val within_if
  within_Let within_wrapErr within_readVarInt within_readBytes

lemma within_shorter:
  assumes "\<And>n. length r \<le> Suc n \<Longrightarrow> within n m" and "m = Inr (x, r')" and "r \<noteq> []"
  shows "length r' < length r"
proof -
  from \<open>r \<noteq> []\<close> have "length r \<le> Suc (length r - 1)" by simp
  from assms(1)[OF this] assms(2) have "length r' \<le> length r - 1"
    by (simp add: within_def)
  with \<open>r \<noteq> []\<close> show ?thesis by (cases r) auto
qed

lemma readVarInt_Nil [simp]: "readVarInt [] = Inl EOF"
  by (simp add: readVarInt_def VarInt_Decode_def ReadFull_def)

lemma validateSubgroupObject_within:
  "length r \<le> Suc n \<Longrightarrow> within n (validateSubgroupObject r ext)"
  unfolding validateSubgroupObject_def
  apply (rule within_orReturn)
   apply (erule within_readVarInt_Suc)
  apply (intro within_intros; assumption)
  done

lemma validateSubgroupObject_shorter:
  assumes "validateSubgroupObject r ext = Inr (obj, r')"
  shows "length r' < length r"
proof (rule within_shorter[OF validateSubgroupObject_within assms])
  show "r \<noteq> []" using assms by (auto simp: validateSubgroupObject_def)
qed

lemma validateFetchObject_within:
  "length r \<le> Suc n \<Longrightarrow> within n (validateFetchObject r)"
  unfolding validateFetchObject_def
  apply (rule within_orReturn)
   apply (erule within_readVarInt_Suc)
  apply (intro within_intros; assumption)
  done

lemma validateFetchObject_shorter:
  assumes "validateFetchObject r = Inr (obj, r')"
  shows "length r' < length r"
proof (rule within_shorter[OF validateFetchObject_within assms])
  show "r \<noteq> []" using assms by (auto simp: validateFetchObject_def)
qed

subsection \<open>The loops terminate\<close>

termination validateExtensionHeaders_loop
  apply (relation "measure (\<lambda>(r, headers). length r)")
    apply (auto dest!: readVarInt_length readBytes_length)
  done

termination validateSubgroupHeader_loop
  apply (relation "measure (\<lambda>(e, r, objs, c, f, l). length r)")
    apply (auto dest: validateSubgroupObject_shorter)
  done

termination validateFetchHeader_loop
  apply (relation "measure (\<lambda>(r, objs). length r)")
    apply (auto dest: validateFetchObject_shorter)
  done

termination subgroupObjectIDs
  apply (relation "measure (\<lambda>(r, e). length r)")
    apply (auto dest: validateSubgroupObject_shorter)
  done

declare validateExtensionHeaders_loop.simps [simp del]
declare validateSubgroupHeader_loop.simps [simp del]
declare validateFetchHeader_loop.simps [simp del]
declare subgroupObjectIDs.simps [simp del]

subsection \<open>Session state after a method\<close>

lemma post_pair: "P v \<Longrightarrow> post P (x, v)"
  by (simp add: post_def)

lemma post_orReturnV:
  "P v \<Longrightarrow> (\<And>x. m = Inr x \<Longrightarrow> post P (f x)) \<Longrightarrow> post P (orReturnV v m f)"
  by (cases m) (simp_all add: post_def)

lemma post_orReturnS:
  "post P m \<Longrightarrow> (\<And>x v'. P v' \<Longrightarrow> m = (Inr x, v') \<Longrightarrow> post P (f x v')) \<Longrightarrow>
   post P (orReturnS m f)"
  by (cases m; cases "fst m") (auto simp: post_def)

lemma post_if:
  "(c \<Longrightarrow> post P a) \<Longrightarrow> (\<not> c \<Longrightarrow> post P b) \<Longrightarrow> post P (if c then a else b)"
  by simp

lemma post_Let: "post P (f x) \<Longrightarrow> post P (Let x f)"
  by simp

lemma post_case_prod:
  "(\<And>a b. p = (a, b) \<Longrightarrow> post P (f a b)) \<Longrightarrow> post P (case p of (a, b) \<Rightarrow> f a b)"
  by (cases p) simp

lemmas post_intros = post_pair post_orReturnV post_orReturnS post_if post_Let post_case_prod

subsection \<open>The state after a successful method\<close>

lemma postOK_Inl: "postOK P (Inl e, v)"
  by (simp add: postOK_def)

lemma postOK_Inr: "P v \<Longrightarrow> postOK P (Inr x, v)"
  by (simp add: postOK_def)

lemma postOK_orReturnV:
  "(\<And>x. m = Inr x \<Longrightarrow> postOK P (f x)) \<Longrightarrow> postOK P (orReturnV v m f)"
  by (cases m) (simp_all add: postOK_def)

lemma postOK_orReturnS:
  "(\<And>x v'. m = (Inr x, v') \<Longrightarrow> postOK P (f x v')) \<Longrightarrow> postOK P (orReturnS m f)"
  by (cases m; cases "fst m") (auto simp: postOK_def)

lemma postOK_if:
  "(c \<Longrightarrow> postOK P a) \<Longrightarrow> (\<not> c \<Longrightarrow> postOK P b) \<Longrightarrow> postOK P (if c then a else b)"
  by simp

lemma postOK_Let: "postOK P (f x) \<Longrightarrow> postOK P (Let x f)"
  by simp

lemma postOK_case_prod:
  "(\<And>a b. p = (a, b) \<Longrightarrow> postOK P (f a b)) \<Longrightarrow> postOK P (case p of (a, b) \<Rightarrow> f a b)"
  by (cases p) simp

lemmas postOK_intros = postOK_Inl postOK_Inr postOK_orReturnV postOK_orReturnS postOK_if
  postOK_Let postOK_case_prod

subsection \<open>Two runs in states that differ in the subscription tables\<close>

lemma agree_pair: "sameButSubscriptions v w \<Longrightarrow> agree (x, v) (x, w)"
  by (simp add: agree_def)

lemma agree_orReturnV:
  "sameButSubscriptions v w \<Longrightarrow> m = m' \<Longrightarrow> (\<And>x. m = Inr x \<Longrightarrow> agree (f x) (g x)) \<Longrightarrow>
   agree (orReturnV v m f) (orReturnV w m' g)"
  by (cases m) (auto simp: agree_def)

lemma agree_orReturnS:
  "agree m1 m2 \<Longrightarrow>
   (\<And>x v' w'. sameButSubscriptions v' w' \<Longrightarrow> agree (f x v') (g x w')) \<Longrightarrow>
   agree (orReturnS m1 f) (orReturnS m2 g)"
  by (cases m1; cases m2; cases "fst m1") (auto simp: agree_def)

lemma agree_if:
  "c = c' \<Longrightarrow> (c \<Longrightarrow> agree a a') \<Longrightarrow> (\<not> c \<Longrightarrow> agree b b') \<Longrightarrow>
   agree (if c then a else b) (if c' then a' else b')"
  by simp

lemma agree_Let: "agree (f x) (g x) \<Longrightarrow> agree (Let x f) (Let x g)"
  by simp

lemma agree_case_prod:
  "(\<And>a b. p = (a, b) \<Longrightarrow> agree (f a b) (g a b)) \<Longrightarrow>
   agree (case p of (a, b) \<Rightarrow> f a b) (case p of (a, b) \<Rightarrow> g a b)"
  by (cases p) simp

lemma agree_case_option:
  "x = x' \<Longrightarrow> (x = None \<Longrightarrow> agree a a') \<Longrightarrow> (\<And>y. x = Some y \<Longrightarrow> agree (f y) (g y)) \<Longrightarrow>
   agree (case x of None \<Rightarrow> a | Some y \<Rightarrow> f y) (case x' of None \<Rightarrow> a' | Some y \<Rightarrow> g y)"
  by (auto split: option.splits)

lemmas agree_intros = agree_pair agree_orReturnV agree_orReturnS agree_if agree_Let
  agree_case_prod agree_case_option

subsection \<open>Evaluation on concrete buffers\<close>

lemmas decode_simps = readVarInt_def VarInt_Decode_def ReadFull_def readBytes_def

lemma loops_numeral [simp]:
  "readTuple_loop (numeral k) r fs = readTuple_loop (Suc (pred_numeral k)) r fs"
  "validateSetupParameters_loop (numeral k) r ps =
     validateSetupParameters_loop (Suc (pred_numeral k)) r ps"
  "validateVersionParameters_loop (numeral k) v r ps =
     validateVersionParameters_loop (Suc (pred_numeral k)) v r ps"
  "validateClientSetup_versions (numeral k) r vs =
     validateClientSetup_versions (Suc (pred_numeral k)) r vs"
  by (simp_all only: numeral_eq_Suc)

lemmas eval_control = ValidateMessage_def validateControlMessage_def decode_simps
  isValidMessageType_def Let_def

subsection \<open>Framed control messages\<close>

lemma controlFrame_dispatch:
  assumes "controlFrame data = Some (msgType, payload, rest)"
  shows "validateControlMessage v data =
     (if \<not> isValidMessageType msgType
      then (Inl (ErrProtocolViolation ''unknown message type''), v) else
      let result = [''type'' \<mapsto> getMessageTypeName msgType,
                    ''type_value'' \<mapsto> JU64 msgType,
                    ''length'' \<mapsto> JU16 (of_nat (length payload))] in
      if msgType = ClientSetup then
        orReturnV v (validateClientSetup payload) (\<lambda>details. (Inr (result ++ details), v))
      else if msgType = ServerSetup then
        orReturnV v (validateServerSetup payload) (\<lambda>details. (Inr (result ++ details), v))
      else if msgType = Subscribe then
        orReturnS (validateSubscribe v payload) (\<lambda>details v. (Inr (result ++ details), v))
      else if msgType = SubscribeOK then
        orReturnS (validateSubscribeOK v payload) (\<lambda>details v. (Inr (result ++ details), v))
      else if msgType = Fetch then
        orReturnS (validateFetch v payload) (\<lambda>details v. (Inr (result ++ details), v))
      else if msgType = Announce then
        orReturnS (validateAnnounce v payload) (\<lambda>details v. (Inr (result ++ details), v))
      else if msgType = Goaway then
        orReturnV v (validateGoaway payload) (\<lambda>details. (Inr (result ++ details), v))
      else if msgType = MaxRequestID then
        orReturnV v (validateMaxRequestID payload) (\<lambda>details. (Inr (result ++ details), v))
      else if msgType = TrackStatusRequest then
        orReturnS (validateTrackStatusRequest v payload)
          (\<lambda>details v. (Inr (result ++ details), v))
      else (Inr (result(''raw_payload'' \<mapsto> JHex payload)), v))"
proof -
  from assms obtain r1 lengthBytes r2 where
    1: "readVarInt data = Inr (msgType, r1)" and
    2: "readBytes 2 r1 = Inr (lengthBytes, r2)" and
    3: "readBytes (unat (Uint16 lengthBytes)) r2 = Inr (payload, rest)"
    by (auto simp: controlFrame_def split: sum.splits)
  from 3 have "length payload = unat (Uint16 lengthBytes)"
    by (auto simp: readBytes_Inr)
  then have 4: "of_nat (length payload) = Uint16 lengthBytes" by simp
  show ?thesis
    unfolding validateControlMessage_def 1 wrapErr_simps orReturnV_simps prod.case 2 3 Let_def 4
    by (rule refl)
qed

lemma controlFrame_nonempty: "controlFrame data = Some x \<Longrightarrow> data \<noteq> []"
  by (auto simp: controlFrame_def)

lemma ValidateMessage_control:
  "controlFrame data = Some x \<Longrightarrow> ValidateMessage v data True = validateControlMessage v data"
  by (auto simp: ValidateMessage_def dest: controlFrame_nonempty)

section \<open>The codec round trip\<close>

lemma u64_low: "(v::u64) < 2 ^ n \<Longrightarrow> \<exists>w. v = take_bit n w"
  by (metis less_mask_eq take_bit_eq_mask)

lemma bit_16384: "bit (16384 :: int) n \<longleftrightarrow> n = 14"
proof -
  have "(16384 :: int) = 2 ^ 14" by simp
  then show ?thesis by (simp only: bit_exp_iff) (auto simp: bit_simps)
qed

lemma bit_2147483648: "bit (2147483648 :: int) n \<longleftrightarrow> n = 31"
proof -
  have "(2147483648 :: int) = 2 ^ 31" by simp
  then show ?thesis by (simp only: bit_exp_iff) (auto simp: bit_simps)
qed

lemma bit_top2: "bit (13835058055282163712 :: int) n \<longleftrightarrow> n = 62 \<or> n = 63"
proof -
  have "(13835058055282163712 :: int) = 2 ^ 62 OR 2 ^ 63" by simp
  then show ?thesis by (simp only: bit_or_iff bit_exp_iff) (auto simp: bit_simps)
qed

lemma bit_three: "bit (3 :: int) n \<longleftrightarrow> n < 2"
proof -
  have "(3 :: int) = mask 2" by (simp add: mask_eq_exp_minus_1)
  then show ?thesis by (simp only: bit_mask_iff) (auto simp: bit_simps)
qed

lemma bit_two_byte: "bit (2 :: byte) n \<longleftrightarrow> n = 1"
  by (auto simp add: bit_simps)

lemma mask14: "(0x3FFF :: u16) = mask 14" by (simp add: mask_eq_exp_minus_1)
lemma mask30: "(0x3FFFFFFF :: u32) = mask 30" by (simp add: mask_eq_exp_minus_1)
lemma mask62: "(0x3FFFFFFFFFFFFFFF :: u64) = mask 62" by (simp add: mask_eq_exp_minus_1)

lemma Uint16_PutUint16: "Uint16 (PutUint16 y @ xs) = y"
  unfolding PutUint16_def
  by (simp, rule bit_word_eqI) (auto simp: bit_simps cong: conj_cong)

lemma Uint32_PutUint32: "Uint32 (PutUint32 y @ xs) = y"
  unfolding PutUint32_def
  apply (simp, rule bit_word_eqI)
  apply (simp add: bit_simps less_diff_conv2 cong: conj_cong)
  apply (case_tac "bit y n")
   apply simp_all
  apply linarith
  done

lemma Uint64_PutUint64: "Uint64 (PutUint64 y @ xs) = y"
  unfolding PutUint64_def
  apply (simp, rule bit_word_eqI)
  apply (simp add: bit_simps less_diff_conv2 cong: conj_cong)
  apply (case_tac "bit y n")
   apply simp_all
  apply linarith
  done

lemma prefix16: "drop_bit 6 (ucast (drop_bit 8 (y::u16)) :: byte) = ucast (drop_bit 14 y)"
  by (rule bit_word_eqI) (auto simp: bit_simps dest: bit_imp_le_length)

lemma prefix32: "drop_bit 6 (ucast (drop_bit 24 (y::u32)) :: byte) = ucast (drop_bit 30 y)"
  by (rule bit_word_eqI) (auto simp: bit_simps dest: bit_imp_le_length)

lemma prefix64: "drop_bit 6 (ucast (drop_bit 56 (y::u64)) :: byte) = ucast (drop_bit 62 y)"
  by (rule bit_word_eqI) (auto simp: bit_simps dest: bit_imp_le_length)

lemma class14:
  "ucast (drop_bit 14 (ucast (take_bit 14 (w::u64) OR 0x4000) :: u16)) = (1::byte)"
  by (rule bit_word_eqI) (auto simp: bit_simps bit_16384)

lemma class30:
  "ucast (drop_bit 30 (ucast (take_bit 30 (w::u64) OR 0x80000000) :: u32)) = (2::byte)"
  by (rule bit_word_eqI) (auto simp: bit_simps bit_2147483648 bit_two_byte)

lemma class62:
  "ucast (drop_bit 62 (take_bit 62 (w::u64) OR 0xC000000000000000)) = (3::byte)"
proof -
  have "ucast (drop_bit 62 (take_bit 62 (w::u64) OR 0xC000000000000000)) = (mask 2::byte)"
    by (rule bit_word_eqI) (auto simp: bit_simps bit_top2 bit_three)
  then show ?thesis by (simp add: mask_eq_exp_minus_1)
qed

lemma value14:
  "ucast ((ucast (take_bit 14 (w::u64) OR 0x4000) :: u16) AND mask 14) = take_bit 14 w"
  by (rule bit_word_eqI) (auto simp: bit_simps bit_16384)

lemma value30:
  "ucast ((ucast (take_bit 30 (w::u64) OR 0x80000000) :: u32) AND mask 30) = take_bit 30 w"
  by (rule bit_word_eqI) (auto simp: bit_simps bit_2147483648)

lemma value62:
  "(take_bit 62 (w::u64) OR 0xC000000000000000) AND mask 62 = take_bit 62 w"
  by (rule bit_word_eqI) (auto simp: bit_simps bit_top2)

lemma Decode_Encode1:
  assumes "v < 0x40"
  shows "VarInt_Decode (ucast (v::u64) # xs) = (v, 1, None, xs)"
proof -
  obtain w where v: "v = take_bit 6 w" using u64_low[of v 6] assms by auto
  have p: "drop_bit 6 (ucast v :: byte) = 0"
    unfolding v by (auto intro!: bit_word_eqI simp: bit_simps)
  have u: "ucast (ucast v :: byte) = v"
    unfolding v by (auto intro!: bit_word_eqI simp: bit_simps)
  show ?thesis by (simp add: VarInt_Decode_def ReadFull_def p u)
qed

lemma Decode_Encode2:
  assumes "v < 0x4000"
  shows "VarInt_Decode (PutUint16 (ucast ((v::u64) OR 0x4000)) @ xs) = (v, 2, None, xs)"
proof -
  obtain w where v: "v = take_bit 14 w" using u64_low[of v 14] assms by auto
  define y :: u16 where "y = ucast (v OR 0x4000)"
  have b0: "drop_bit 6 (ucast (drop_bit 8 y) :: byte) = 1"
    unfolding prefix16 y_def v by (rule class14)
  have "VarInt_Decode (PutUint16 y @ xs) = (ucast (Uint16 (PutUint16 y @ xs) AND 0x3FFF), 2, None, xs)"
    using b0 by (simp add: VarInt_Decode_def ReadFull_def PutUint16_def)
  then show ?thesis
    unfolding Uint16_PutUint16 mask14 unfolding y_def v value14 .
qed

lemma Decode_Encode4:
  assumes "v < 0x40000000"
  shows "VarInt_Decode (PutUint32 (ucast ((v::u64) OR 0x80000000)) @ xs) = (v, 4, None, xs)"
proof -
  obtain w where v: "v = take_bit 30 w" using u64_low[of v 30] assms by auto
  define y :: u32 where "y = ucast (v OR 0x80000000)"
  have b0: "drop_bit 6 (ucast (drop_bit 24 y) :: byte) = 2"
    unfolding prefix32 y_def v by (rule class30)
  have "VarInt_Decode (PutUint32 y @ xs) = (ucast (Uint32 (PutUint32 y @ xs) AND 0x3FFFFFFF), 4, None, xs)"
    using b0 by (simp add: VarInt_Decode_def ReadFull_def PutUint32_def)
  then show ?thesis
    unfolding Uint32_PutUint32 mask30 unfolding y_def v value30 .
qed

lemma Decode_Encode8:
  assumes "v < 0x4000000000000000"
  shows "VarInt_Decode (PutUint64 ((v::u64) OR 0xC000000000000000) @ xs) = (v, 8, None, xs)"
proof -
  obtain w where v: "v = take_bit 62 w" using u64_low[of v 62] assms by auto
  define y :: u64 where "y = v OR 0xC000000000000000"
  have b0: "drop_bit 6 (ucast (drop_bit 56 y) :: byte) = 3"
    unfolding prefix64 y_def v by (rule class62)
  have "VarInt_Decode (PutUint64 y @ xs) = (Uint64 (PutUint64 y @ xs) AND 0x3FFFFFFFFFFFFFFF, 8, None, xs)"
    using b0 by (simp add: VarInt_Decode_def ReadFull_def PutUint64_def)
  then show ?thesis
    unfolding Uint64_PutUint64 mask62 unfolding y_def v value62 .
qed

lemma varint_class_chain:
  "(v::u64) < 0x40 \<Longrightarrow> v < 0x4000"
  "(v::u64) < 0x4000 \<Longrightarrow> v < 0x40000000"
  "(v::u64) < 0x40000000 \<Longrightarrow> v < 0x4000000000000000"
  by (erule order.strict_trans, simp)+

lemma Decode_Encode_append:
  assumes "VarInt_Encode v = Inr bs"
  shows "VarInt_Decode (bs @ xs) = (v, length bs, None, xs)"
proof -
  consider "v < 0x40" | "\<not> v < 0x40" "v < 0x4000" | "\<not> v < 0x4000" "v < 0x40000000"
    | "\<not> v < 0x40000000" "v < 0x4000000000000000"
    using assms by (auto simp: VarInt_Encode_def split: if_splits)
  then show ?thesis
  proof cases
    case 1
    with assms have "bs = [ucast v]" by (simp add: VarInt_Encode_def)
    with 1 show ?thesis by (simp add: Decode_Encode1)
  next
    case 2
    with assms have "bs = PutUint16 (ucast (v OR 0x4000))" by (simp add: VarInt_Encode_def)
    with 2 show ?thesis by (simp add: Decode_Encode2) (simp add: PutUint16_def)
  next
    case 3
    then have "\<not> v < 0x40" using varint_class_chain by blast
    with 3 assms have "bs = PutUint32 (ucast (v OR 0x80000000))" by (simp add: VarInt_Encode_def)
    with 3 show ?thesis by (simp add: Decode_Encode4) (simp add: PutUint32_def)
  next
    case 4
    then have "\<not> v < 0x40" "\<not> v < 0x4000" using varint_class_chain by blast+
    with 4 assms have "bs = PutUint64 (v OR 0xC000000000000000)" by (simp add: VarInt_Encode_def)
    with 4 show ?thesis by (simp add: Decode_Encode8) (simp add: PutUint64_def)
  qed
qed

text \<open>
  Claim C4. For every \<open>v < 2\<^sup>6\<^sup>2\<close>, \<^verbatim>\<open>Encode\<close> succeeds, \<^verbatim>\<open>Decode\<close> of the encoded
  bytes returns exactly \<open>v\<close> with no error, and the byte count it reports is the length of
  the encoding; for every \<open>v \<ge> 2\<^sup>6\<^sup>2\<close>, \<^verbatim>\<open>Encode\<close> fails.
\<close>

theorem VarInt_roundtrip:
  "(v < 2 ^ 62 \<longrightarrow>
      (\<exists>bs. VarInt_Encode v = Inr bs \<and> VarInt_Decode bs = (v, length bs, None, []))) \<and>
   (2 ^ 62 \<le> v \<longrightarrow> VarInt_Encode v = Inl ErrVarIntTooLarge)"
proof (intro conjI impI)
  assume "v < 2 ^ 62"
  then have "\<exists>bs. VarInt_Encode v = Inr bs"
    by (simp add: VarInt_Encode_def)
  then obtain bs where e: "VarInt_Encode v = Inr bs" ..
  from Decode_Encode_append[OF e, of "[]"] e
  show "\<exists>bs. VarInt_Encode v = Inr bs \<and> VarInt_Decode bs = (v, length bs, None, [])"
    by auto
next
  assume "2 ^ 62 \<le> v"
  then have "\<not> v < 0x4000000000000000" by simp
  moreover from this have "\<not> v < 0x40000000" "\<not> v < 0x4000" "\<not> v < 0x40"
    using varint_class_chain by blast+
  ultimately show "VarInt_Encode v = Inl ErrVarIntTooLarge"
    by (simp add: VarInt_Encode_def)
qed

theorem VarInt_roundtrip_witness:
  "(300 :: u64) < 2 ^ 62 \<and>
   VarInt_Encode 300 = Inr [0x41, 0x2C] \<and>
   VarInt_Decode [0x41, 0x2C] = (300, length [0x41 :: byte, 0x2C], None, []) \<and>
   (2 ^ 62 :: u64) \<le> 2 ^ 62 \<and> VarInt_Encode (2 ^ 62) = Inl ErrVarIntTooLarge"
  using VarInt_roundtrip[of 300] VarInt_roundtrip[of "2 ^ 62"]
  by (simp add: VarInt_Encode_def PutUint16_def VarInt_Decode_def ReadFull_def)

section \<open>Empty buffers\<close>

text \<open>
  Claim C9. Validating an empty byte buffer through any entry point (\<^verbatim>\<open>ValidateMessage\<close>
  for a control message or a data stream, \<^verbatim>\<open>ValidateDatagram\<close> for a datagram, and
  \<^verbatim>\<open>validateDataStream\<close>, which the command line calls directly) fails with an error
  wrapping \<^verbatim>\<open>ErrValidation\<close> and leaves the session state unchanged.
\<close>

theorem empty_buffer_rejected:
  "ValidateMessage v [] True = (Inl (ErrValidation ''empty message''), v) \<and>
   ValidateMessage v [] False = (Inl (ErrValidation ''empty message''), v) \<and>
   ValidateDatagram v [] = (Inl (ErrValidation ''empty datagram''), v) \<and>
   validateDataStream [] = Inl (ErrValidation ''empty data stream'')"
  by (simp add: ValidateMessage_def ValidateDatagram_def validateDataStream_def)

section \<open>MAX\_REQUEST\_ID messages\<close>

text \<open>
  Claim C3 says that a second MAX\_REQUEST\_ID message with a smaller value than the
  first fails with a protocol violation. The code decodes the value and neither stores
  nor compares it: after MAX\_REQUEST\_ID 10, MAX\_REQUEST\_ID 5 is accepted.
\<close>

theorem max_request_id_decrease_counterexample:
  "\<not> isl (fst (ValidateMessage NewMoQTValidator [0x15, 0x00, 0x01, 0x0A] True)) \<and>
   \<not> isErrProtocolViolation
       (fst (ValidateMessage
               (snd (ValidateMessage NewMoQTValidator [0x15, 0x00, 0x01, 0x0A] True))
               [0x15, 0x00, 0x01, 0x05] True)) \<and>
   \<not> isl (fst (ValidateMessage
               (snd (ValidateMessage NewMoQTValidator [0x15, 0x00, 0x01, 0x0A] True))
               [0x15, 0x00, 0x01, 0x05] True))"
  by (simp add: eval_control validateMaxRequestID_def)

text \<open>
  Claim C3, as amended. In every session state, a MAX\_REQUEST\_ID control message whose
  payload starts with a complete varint \<open>x\<close> is accepted, whatever values earlier
  MAX\_REQUEST\_ID messages carried: the decoded record reports \<open>x\<close> and the session
  state is left as it was, so nothing is kept to compare a later value with.
\<close>

theorem max_request_id_unchecked:
  assumes "controlFrame data = Some (MaxRequestID, payload, rest)"
    and "readVarInt payload = Inr (x, r)"
  shows "\<exists>result. ValidateMessage v data True = (Inr result, v) \<and>
                  result ''max_request_id'' = Some (JU64 x)"
  using assms
  by (simp add: ValidateMessage_control controlFrame_dispatch isValidMessageType_def
        validateMaxRequestID_def)

theorem max_request_id_unchecked_witness:
  "controlFrame [0x15, 0x00, 0x01, 0x05] = Some (MaxRequestID, [0x05], []) \<and>
   readVarInt [0x05] = Inr (5, []) \<and>
   (\<exists>result. ValidateMessage (NewMoQTValidator\<lparr>maxRequestIDClient := 10\<rparr>)
                [0x15, 0x00, 0x01, 0x05] True =
              (Inr result, NewMoQTValidator\<lparr>maxRequestIDClient := 10\<rparr>) \<and>
             result ''max_request_id'' = Some (JU64 5))"
proof -
  have 1: "controlFrame [0x15, 0x00, 0x01, 0x05] = Some (MaxRequestID, [0x05], [])"
    by (simp add: controlFrame_def decode_simps)
  have 2: "readVarInt [0x05] = Inr (5, [])"
    by (simp add: decode_simps)
  from max_request_id_unchecked[OF 1 2] 1 2 show ?thesis by blast
qed

section \<open>Setup parameters\<close>

text \<open>
  Claim C1 says that after a CLIENT\_SETUP or SERVER\_SETUP carrying MAX\_REQUEST\_ID or
  MAX\_AUTH\_TOKEN\_CACHE\_SIZE the session state holds the values. No method assigns
  \<^verbatim>\<open>maxRequestIDClient\<close>, \<^verbatim>\<open>maxRequestIDServer\<close> or \<^verbatim>\<open>maxAuthTokenCacheSize\<close>: after a
  CLIENT\_SETUP with MAX\_REQUEST\_ID = 10 and MAX\_AUTH\_TOKEN\_CACHE\_SIZE = 64, accepted
  by a new validator, none of the fields holds its value.
\<close>

theorem setup_parameters_not_stored_counterexample:
  "\<not> isl (fst (ValidateMessage NewMoQTValidator
       [0x20, 0x00, 0x08, 0x01, 0x01, 0x02, 0x02, 0x0A, 0x04, 0x40, 0x40] True)) \<and>
   maxRequestIDClient (snd (ValidateMessage NewMoQTValidator
       [0x20, 0x00, 0x08, 0x01, 0x01, 0x02, 0x02, 0x0A, 0x04, 0x40, 0x40] True)) \<noteq> 10 \<and>
   maxRequestIDServer (snd (ValidateMessage NewMoQTValidator
       [0x20, 0x00, 0x08, 0x01, 0x01, 0x02, 0x02, 0x0A, 0x04, 0x40, 0x40] True)) \<noteq> 10 \<and>
   maxAuthTokenCacheSize (snd (ValidateMessage NewMoQTValidator
       [0x20, 0x00, 0x08, 0x01, 0x01, 0x02, 0x02, 0x0A, 0x04, 0x40, 0x40] True)) \<noteq> 64"
proof -
  have "\<exists>result. ValidateMessage NewMoQTValidator
       [0x20, 0x00, 0x08, 0x01, 0x01, 0x02, 0x02, 0x0A, 0x04, 0x40, 0x40] True =
       (Inr result, NewMoQTValidator)"
    by (simp add: eval_control validateClientSetup_def validateSetupParameters_def)
  then obtain result where "ValidateMessage NewMoQTValidator
       [0x20, 0x00, 0x08, 0x01, 0x01, 0x02, 0x02, 0x0A, 0x04, 0x40, 0x40] True =
       (Inr result, NewMoQTValidator)" ..
  then show ?thesis by (simp add: NewMoQTValidator_def)
qed

lemma validateControlMessage_setup_state:
  assumes "readVarInt data = Inr (msgType, r)"
    and "msgType = ClientSetup \<or> msgType = ServerSetup"
  shows "post (\<lambda>s. s = v) (validateControlMessage v data)"
  using assms(2)
proof
  assume "msgType = ClientSetup"
  with assms(1) have 1: "readVarInt data = Inr (ClientSetup, r)" by simp
  show ?thesis
    unfolding validateControlMessage_def 1 wrapErr_simps orReturnV_simps prod.case
    by (simp add: isValidMessageType_def split del: if_split) (intro post_intros refl)
next
  assume "msgType = ServerSetup"
  with assms(1) have 1: "readVarInt data = Inr (ServerSetup, r)" by simp
  show ?thesis
    unfolding validateControlMessage_def 1 wrapErr_simps orReturnV_simps prod.case
    by (simp add: isValidMessageType_def split del: if_split) (intro post_intros refl)
qed

lemma validateSetupParameters_loop_wire:
  "setupParameterList n r = Some wire \<Longrightarrow>
   validateSetupParameters_loop n r params = Inr (params @ map setupParameterRecord wire)"
proof (induction n arbitrary: r params wire)
  case 0
  then show ?case by simp
next
  case (Suc n)
  from Suc.prems obtain paramType r1 x r2 where
    1: "readVarInt r = Inr (paramType, r1)" and 2: "readVarInt r1 = Inr (x, r2)"
    by (auto split: sum.splits)
  show ?case
  proof (cases "paramType mod 2 = 0")
    case True
    with Suc.prems 1 2 obtain rest where
      w: "wire = (paramType, Inl x) # rest" and l: "setupParameterList n r2 = Some rest"
      by auto
    show ?thesis
      unfolding w
      by (simp add: 1 2 True Let_def Suc.IH[OF l] setupParameterRecord_def)
  next
    case False
    with Suc.prems 1 2 obtain bytes r3 rest where
      s: "\<not> x > 65535" and 3: "readBytes (unat x) r2 = Inr (bytes, r3)" and
      w: "wire = (paramType, Inr bytes) # rest" and l: "setupParameterList n r3 = Some rest"
      by (auto split: sum.splits if_splits)
    from 3 have "length bytes = unat x" by (auto simp: readBytes_Inr)
    then have len: "of_nat (length bytes) = x" by simp
    show ?thesis
      unfolding w
      using s False
      by (simp add: 1 2 3 Let_def Suc.IH[OF l] setupParameterRecord_def len)
  qed
qed

lemma setupParameterList_numeral [simp]:
  "setupParameterList (numeral k) r = setupParameterList (Suc (pred_numeral k)) r"
  by (simp only: numeral_eq_Suc)

lemma setup_message_record:
  assumes frame: "controlFrame data = Some (msgType, payload, rest)"
    and params: "setupParametersOf msgType payload = Some (numParams, r)"
    and wire: "setupParameterList (unat numParams) r = Some wire"
  shows "\<exists>result. ValidateMessage v data True = (Inr result, v) \<and>
           result ''num_parameters'' = Some (JU64 numParams) \<and>
           result ''parameters'' = Some (JList (map setupParameterRecord wire))"
proof -
  from params have "msgType = ClientSetup \<or> msgType = ServerSetup"
    by (auto simp: setupParametersOf_def split: if_splits)
  then show ?thesis
  proof
    assume m: "msgType = ClientSetup"
    with params obtain numVersions r0 versions r1 where
      "readVarInt payload = Inr (numVersions, r0)"
      "validateClientSetup_versions (unat numVersions) r0 [] = Inr (versions, r1)"
      "readVarInt r1 = Inr (numParams, r)"
      by (auto simp: setupParametersOf_def split: sum.splits)
    then have "\<exists>details. validateClientSetup payload = Inr details \<and>
        details ''num_parameters'' = Some (JU64 numParams) \<and>
        details ''parameters'' = Some (JList (map setupParameterRecord wire))"
      using validateSetupParameters_loop_wire[OF wire, of "[]"]
      by (simp add: validateClientSetup_def validateSetupParameters_def Let_def)
    then show ?thesis
      using frame m
      by (auto simp: ValidateMessage_control controlFrame_dispatch isValidMessageType_def
          Let_def map_add_def)
  next
    assume m: "msgType = ServerSetup"
    with params obtain version r1 where
      "readVarInt payload = Inr (version, r1)"
      "readVarInt r1 = Inr (numParams, r)"
      by (auto simp: setupParametersOf_def split: sum.splits)
    then have "\<exists>details. validateServerSetup payload = Inr details \<and>
        details ''num_parameters'' = Some (JU64 numParams) \<and>
        details ''parameters'' = Some (JList (map setupParameterRecord wire))"
      using validateSetupParameters_loop_wire[OF wire, of "[]"]
      by (simp add: validateServerSetup_def validateSetupParameters_def Let_def)
    then show ?thesis
      using frame m
      by (auto simp: ValidateMessage_control controlFrame_dispatch isValidMessageType_def
          Let_def map_add_def)
  qed
qed

lemma validateSetupParameters_loop_decodes:
  "validateSetupParameters_loop n r params = Inr ps \<Longrightarrow> \<exists>wire. setupParameterList n r = Some wire"
proof (induction n arbitrary: r params)
  case 0
  then show ?case by simp
next
  case (Suc n)
  from Suc.prems obtain paramType r1 where 1: "readVarInt r = Inr (paramType, r1)"
    by (auto simp: orReturn_Inr_iff)
  show ?case
  proof (cases "paramType mod 2 = 0")
    case True
    with Suc.prems 1 obtain x r2 pinfo where 2: "readVarInt r1 = Inr (x, r2)"
      and "validateSetupParameters_loop n r2 (params @ [pinfo]) = Inr ps"
      by (auto simp: orReturn_Inr_iff Let_def)
    from Suc.IH[OF this(2)] 1 2 True show ?thesis by auto
  next
    case False
    with Suc.prems 1 obtain x r2 bytes r3 pinfo where 2: "readVarInt r1 = Inr (x, r2)"
      and s: "\<not> x > 65535" and 3: "readBytes (unat x) r2 = Inr (bytes, r3)"
      and "validateSetupParameters_loop n r3 (params @ [pinfo]) = Inr ps"
      by (auto simp: orReturn_Inr_iff Let_def split: if_splits)
    from Suc.IH[OF this(4)] 1 2 3 s False show ?thesis by auto
  qed
qed

lemma setup_message_accepted:
  assumes 1: "readVarInt data = Inr (msgType, r)"
    and ty: "msgType = ClientSetup \<or> msgType = ServerSetup"
    and acc: "fst (ValidateMessage v data True) = Inr result"
  shows "\<exists>payload rest numParams r' wire.
           controlFrame data = Some (msgType, payload, rest) \<and>
           setupParametersOf msgType payload = Some (numParams, r') \<and>
           setupParameterList (unat numParams) r' = Some wire"
proof -
  from 1 have ne: "data \<noteq> []" by (auto simp: readVarInt_Nil)
  with acc have "fst (validateControlMessage v data) = Inr result"
    by (simp add: ValidateMessage_def)
  with 1 obtain lengthBytes r2 payload rest where
    2: "readBytes 2 r = Inr (lengthBytes, r2)" and
    3: "readBytes (unat (Uint16 lengthBytes)) r2 = Inr (payload, rest)"
    unfolding validateControlMessage_def
    by (cases "readBytes 2 r"; cases "readBytes (unat (Uint16 (fst (projr (readBytes 2 r))))) (snd (projr (readBytes 2 r)))")
       (auto simp: Let_def split: if_splits)
  from 1 2 3 have frame: "controlFrame data = Some (msgType, payload, rest)"
    by (simp add: controlFrame_def)
  from acc frame have d: "fst (validateControlMessage v data) = Inr result"
    by (simp add: ValidateMessage_control)
  from ty show ?thesis
  proof
    assume m: "msgType = ClientSetup"
    with d obtain details where "validateClientSetup payload = Inr details"
      unfolding controlFrame_dispatch[OF frame]
      by (cases "validateClientSetup payload") (auto simp: isValidMessageType_def Let_def)
    then obtain numVersions r0 versions r1 numParams r' ps where
      "readVarInt payload = Inr (numVersions, r0)"
      "validateClientSetup_versions (unat numVersions) r0 [] = Inr (versions, r1)"
      "readVarInt r1 = Inr (numParams, r')"
      "validateSetupParameters_loop (unat numParams) r' [] = Inr ps"
      by (auto simp: validateClientSetup_def validateSetupParameters_def orReturn_Inr_iff Let_def)
    with validateSetupParameters_loop_decodes[OF this(4)] frame m show ?thesis
      by (auto simp: setupParametersOf_def)
  next
    assume m: "msgType = ServerSetup"
    with d obtain details where "validateServerSetup payload = Inr details"
      unfolding controlFrame_dispatch[OF frame]
      by (cases "validateServerSetup payload") (auto simp: isValidMessageType_def Let_def)
    then obtain version r1 numParams r' ps where
      "readVarInt payload = Inr (version, r1)"
      "readVarInt r1 = Inr (numParams, r')"
      "validateSetupParameters_loop (unat numParams) r' [] = Inr ps"
      by (auto simp: validateServerSetup_def validateSetupParameters_def orReturn_Inr_iff Let_def)
    with validateSetupParameters_loop_decodes[OF this(3)] frame m show ?thesis
      by (auto simp: setupParametersOf_def)
  qed
qed

text \<open>
  Claim C1, as amended. Validating a CLIENT\_SETUP or SERVER\_SETUP message, whatever
  setup parameters it carries (MAX\_REQUEST\_ID and MAX\_AUTH\_TOKEN\_CACHE\_SIZE
  included) and whether or not it is accepted, leaves the session state exactly as it
  was: the per-direction max-request-id fields and \<^verbatim>\<open>maxAuthTokenCacheSize\<close> keep the
  values they had before. The values appear in the decoded record only: when the
  message is framed and its setup-parameter list decodes, the message is accepted and
  the record holds the parameter count and, under \<^verbatim>\<open>"parameters"\<close>, the record of every
  parameter of the list in wire order, with its type, its value and the name of a known
  type; and every accepted message is such a message.
\<close>

theorem setup_parameters_reported_not_stored:
  assumes "readVarInt data = Inr (msgType, r)"
    and "msgType = ClientSetup \<or> msgType = ServerSetup"
  shows "snd (ValidateMessage v data True) = v \<and>
         (\<forall>payload rest numParams r' wire.
            controlFrame data = Some (msgType, payload, rest) \<and>
            setupParametersOf msgType payload = Some (numParams, r') \<and>
            setupParameterList (unat numParams) r' = Some wire \<longrightarrow>
            (\<exists>result. fst (ValidateMessage v data True) = Inr result \<and>
               result ''num_parameters'' = Some (JU64 numParams) \<and>
               result ''parameters'' = Some (JList (map setupParameterRecord wire)))) \<and>
         (\<forall>result. fst (ValidateMessage v data True) = Inr result \<longrightarrow>
            (\<exists>payload rest numParams r' wire.
               controlFrame data = Some (msgType, payload, rest) \<and>
               setupParametersOf msgType payload = Some (numParams, r') \<and>
               setupParameterList (unat numParams) r' = Some wire \<and>
               result ''num_parameters'' = Some (JU64 numParams) \<and>
               result ''parameters'' = Some (JList (map setupParameterRecord wire))))"
proof (intro conjI allI impI)
  show "snd (ValidateMessage v data True) = v"
    using validateControlMessage_setup_state[OF assms, of v]
    by (simp add: ValidateMessage_def post_def)
next
  fix payload rest numParams r' wire
  assume a: "controlFrame data = Some (msgType, payload, rest) \<and>
            setupParametersOf msgType payload = Some (numParams, r') \<and>
            setupParameterList (unat numParams) r' = Some wire"
  from setup_message_record[of data msgType payload rest numParams r' wire v] a
  show "\<exists>result. fst (ValidateMessage v data True) = Inr result \<and>
               result ''num_parameters'' = Some (JU64 numParams) \<and>
               result ''parameters'' = Some (JList (map setupParameterRecord wire))"
    by auto
next
  fix result
  assume acc: "fst (ValidateMessage v data True) = Inr result"
  from setup_message_accepted[OF assms acc] obtain payload rest numParams r' wire where
    d: "controlFrame data = Some (msgType, payload, rest)"
      "setupParametersOf msgType payload = Some (numParams, r')"
      "setupParameterList (unat numParams) r' = Some wire"
    by blast
  from setup_message_record[OF d, of v] acc
  have "result ''num_parameters'' = Some (JU64 numParams) \<and>
        result ''parameters'' = Some (JList (map setupParameterRecord wire))"
    by auto
  with d show "\<exists>payload rest numParams r' wire.
               controlFrame data = Some (msgType, payload, rest) \<and>
               setupParametersOf msgType payload = Some (numParams, r') \<and>
               setupParameterList (unat numParams) r' = Some wire \<and>
               result ''num_parameters'' = Some (JU64 numParams) \<and>
               result ''parameters'' = Some (JList (map setupParameterRecord wire))"
    by blast
qed

text \<open>
  The CLIENT\_SETUP above, validated in a session whose limits are 4 and 16: the state
  is unchanged, and the record lists MAX\_REQUEST\_ID = 10 and
  MAX\_AUTH\_TOKEN\_CACHE\_SIZE = 64.
\<close>

theorem setup_parameters_reported_not_stored_witness:
  "readVarInt [0x20, 0x00, 0x08, 0x01, 0x01, 0x02, 0x02, 0x0A, 0x04, 0x40, 0x40] = Inr (ClientSetup, tl [0x20, 0x00, 0x08, 0x01, 0x01, 0x02, 0x02, 0x0A, 0x04, 0x40, 0x40]) \<and>
   controlFrame [0x20, 0x00, 0x08, 0x01, 0x01, 0x02, 0x02, 0x0A, 0x04, 0x40, 0x40] = Some (ClientSetup, [0x01, 0x01, 0x02, 0x02, 0x0A, 0x04, 0x40, 0x40], []) \<and>
   setupParametersOf ClientSetup [0x01, 0x01, 0x02, 0x02, 0x0A, 0x04, 0x40, 0x40] = Some (2, [0x02, 0x0A, 0x04, 0x40, 0x40]) \<and>
   setupParameterList 2 [0x02, 0x0A, 0x04, 0x40, 0x40] = Some [(2, Inl 10), (4, Inl 64)] \<and>
   snd (ValidateMessage (NewMoQTValidator\<lparr>maxRequestIDClient := 4, maxAuthTokenCacheSize := 16\<rparr>) [0x20, 0x00, 0x08, 0x01, 0x01, 0x02, 0x02, 0x0A, 0x04, 0x40, 0x40] True) = (NewMoQTValidator\<lparr>maxRequestIDClient := 4, maxAuthTokenCacheSize := 16\<rparr>) \<and>
   \<not> isl (fst (ValidateMessage (NewMoQTValidator\<lparr>maxRequestIDClient := 4, maxAuthTokenCacheSize := 16\<rparr>) [0x20, 0x00, 0x08, 0x01, 0x01, 0x02, 0x02, 0x0A, 0x04, 0x40, 0x40] True)) \<and>
   projr (fst (ValidateMessage (NewMoQTValidator\<lparr>maxRequestIDClient := 4, maxAuthTokenCacheSize := 16\<rparr>) [0x20, 0x00, 0x08, 0x01, 0x01, 0x02, 0x02, 0x0A, 0x04, 0x40, 0x40] True)) ''num_parameters'' = Some (JU64 2) \<and>
   projr (fst (ValidateMessage (NewMoQTValidator\<lparr>maxRequestIDClient := 4, maxAuthTokenCacheSize := 16\<rparr>) [0x20, 0x00, 0x08, 0x01, 0x01, 0x02, 0x02, 0x0A, 0x04, 0x40, 0x40] True)) ''parameters'' =
     Some (JList [JMap [''type'' \<mapsto> JU64 2, ''value'' \<mapsto> JU64 10,
                ''name'' \<mapsto> JStr ''MAX_REQUEST_ID''],
          JMap [''type'' \<mapsto> JU64 4, ''value'' \<mapsto> JU64 64,
                ''name'' \<mapsto> JStr ''MAX_AUTH_TOKEN_CACHE_SIZE'']])"
proof -
  have 1: "readVarInt [0x20, 0x00, 0x08, 0x01, 0x01, 0x02, 0x02, 0x0A, 0x04, 0x40, 0x40] = Inr (ClientSetup, tl [0x20, 0x00, 0x08, 0x01, 0x01, 0x02, 0x02, 0x0A, 0x04, 0x40, 0x40])"
    by (simp add: decode_simps)
  have 2: "controlFrame [0x20, 0x00, 0x08, 0x01, 0x01, 0x02, 0x02, 0x0A, 0x04, 0x40, 0x40] = Some (ClientSetup, [0x01, 0x01, 0x02, 0x02, 0x0A, 0x04, 0x40, 0x40], [])"
    by (simp add: controlFrame_def decode_simps)
  have 3: "setupParametersOf ClientSetup [0x01, 0x01, 0x02, 0x02, 0x0A, 0x04, 0x40, 0x40] = Some (2, [0x02, 0x0A, 0x04, 0x40, 0x40])"
    by (simp add: setupParametersOf_def decode_simps)
  have 4: "setupParameterList (unat (2 :: u64)) [0x02, 0x0A, 0x04, 0x40, 0x40] = Some [(2, Inl 10), (4, Inl 64)]"
    by (simp add: decode_simps)
  have 5: "map setupParameterRecord [(2, Inl 10), (4, Inl 64)] = [JMap [''type'' \<mapsto> JU64 2, ''value'' \<mapsto> JU64 10,
                ''name'' \<mapsto> JStr ''MAX_REQUEST_ID''],
          JMap [''type'' \<mapsto> JU64 4, ''value'' \<mapsto> JU64 64,
                ''name'' \<mapsto> JStr ''MAX_AUTH_TOKEN_CACHE_SIZE'']]"
    by (simp add: setupParameterRecord_def)
  have ty: "(0x20 :: u64) = ClientSetup \<or> (0x20 :: u64) = ServerSetup"
    by simp
  note t = setup_parameters_reported_not_stored[OF 1 ty, where v = "(NewMoQTValidator\<lparr>maxRequestIDClient := 4, maxAuthTokenCacheSize := 16\<rparr>)"]
  from t[THEN conjunct2, THEN conjunct1, rule_format, of "[0x01, 0x01, 0x02, 0x02, 0x0A, 0x04, 0x40, 0x40]" "[]" 2 "[0x02, 0x0A, 0x04, 0x40, 0x40]" "[(2, Inl 10), (4, Inl 64)]"]
  have "\<exists>result. fst (ValidateMessage (NewMoQTValidator\<lparr>maxRequestIDClient := 4, maxAuthTokenCacheSize := 16\<rparr>) [0x20, 0x00, 0x08, 0x01, 0x01, 0x02, 0x02, 0x0A, 0x04, 0x40, 0x40] True) = Inr result \<and>
               result ''num_parameters'' = Some (JU64 2) \<and>
               result ''parameters'' = Some (JList [JMap [''type'' \<mapsto> JU64 2, ''value'' \<mapsto> JU64 10,
                ''name'' \<mapsto> JStr ''MAX_REQUEST_ID''],
          JMap [''type'' \<mapsto> JU64 4, ''value'' \<mapsto> JU64 64,
                ''name'' \<mapsto> JStr ''MAX_AUTH_TOKEN_CACHE_SIZE'']])"
    using 2 3 4 unfolding 5 by simp
  with t[THEN conjunct1] 1 2 3 4 show ?thesis by auto
qed

section \<open>An authorization token of length zero\<close>

text \<open>
  Claim C10. A version parameter of type AUTHORIZATION\_TOKEN (0x01) whose value has
  length zero is accepted without a call of the auth-token subparser: the parameter is
  recorded, the loop goes on with the next parameter in the same session state, and a
  list of this one parameter validates with no error and no change of the state (so
  none of the token cache). The subparser itself fails on the empty buffer, which holds
  no alias type.
\<close>

theorem empty_authorization_token_accepted:
  assumes "readVarInt r = Inr (VersionParamAuthorizationToken, r1)"
    and "readVarInt r1 = Inr (0, r2)"
  shows "validateVersionParameters_loop (Suc n) v r params =
           validateVersionParameters_loop n v r2
             (params @ [JMap [''type'' \<mapsto> JU64 VersionParamAuthorizationToken,
                              ''value'' \<mapsto> JHex [], ''length'' \<mapsto> JU64 0,
                              ''name'' \<mapsto> JStr ''AUTHORIZATION_TOKEN'']]) \<and>
         validateVersionParameters v r 1 =
           (Inr [JMap [''type'' \<mapsto> JU64 VersionParamAuthorizationToken,
                       ''value'' \<mapsto> JHex [], ''length'' \<mapsto> JU64 0,
                       ''name'' \<mapsto> JStr ''AUTHORIZATION_TOKEN'']], v) \<and>
         validateAuthToken v [] = (Inl EOF, v)"
  using assms
  by (simp add: validateVersionParameters_def validateAuthToken_def readBytes_def ReadFull_def)

theorem empty_authorization_token_accepted_witness:
  "readVarInt [0x01, 0x00] = Inr (VersionParamAuthorizationToken, [0x00]) \<and>
   readVarInt [0x00] = Inr (0, []) \<and>
   validateVersionParameters NewMoQTValidator [0x01, 0x00] 1 =
     (Inr [JMap [''type'' \<mapsto> JU64 VersionParamAuthorizationToken,
                 ''value'' \<mapsto> JHex [], ''length'' \<mapsto> JU64 0,
                 ''name'' \<mapsto> JStr ''AUTHORIZATION_TOKEN'']], NewMoQTValidator) \<and>
   validateAuthToken NewMoQTValidator [] = (Inl EOF, NewMoQTValidator)"
proof -
  have 1: "readVarInt [0x01, 0x00] = Inr (VersionParamAuthorizationToken, [0x00])"
    and 2: "readVarInt [0x00] = Inr (0, [])"
    by (simp_all add: decode_simps)
  from empty_authorization_token_accepted[OF 1 2, of 0 NewMoQTValidator "[]"] 1 2
  show ?thesis by simp
qed

section \<open>Standalone FETCH with an inverted range\<close>

text \<open>
  Claim C7 says that a standalone FETCH whose end location is below its start location
  fails with a protocol violation. It fails, but \<^verbatim>\<open>validateFetch\<close> builds the error from
  \<^verbatim>\<open>ErrValidation\<close>: for the range (5,0) to (4,0) the result is the validation error and
  not a protocol violation.
\<close>

theorem fetch_range_inversion_counterexample:
  "fst (ValidateMessage NewMoQTValidator
         [0x16, 0x00, 0x0D, 0x00, 0x00, 0x00, 0x01, 0x01, 0x01, 0x61, 0x01, 0x62,
          0x05, 0x00, 0x04, 0x00] True) =
     Inl (ErrValidation ''end location must be >= start location'') \<and>
   \<not> isErrProtocolViolation
       (fst (ValidateMessage NewMoQTValidator
         [0x16, 0x00, 0x0D, 0x00, 0x00, 0x00, 0x01, 0x01, 0x01, 0x61, 0x01, 0x62,
          0x05, 0x00, 0x04, 0x00] True))"
proof -
  have "fst (ValidateMessage NewMoQTValidator
         [0x16, 0x00, 0x0D, 0x00, 0x00, 0x00, 0x01, 0x01, 0x01, 0x61, 0x01, 0x62,
          0x05, 0x00, 0x04, 0x00] True) =
     Inl (ErrValidation ''end location must be >= start location'')"
    by (simp add: eval_control validateFetch_def validateRequestID_def NewMoQTValidator_def
          readTuple_def Less_def)
  then show ?thesis by simp
qed

text \<open>
  Claim C7, as amended. For every FETCH control message whose payload decodes as a
  standalone FETCH (fetch-type 1) up to its end location, with a request id the session
  accepts and a group order of at most 2: if the end location is strictly less than the
  start location in the Location order, validation fails with the error
  ``end location must be >= start location'' wrapping \<^verbatim>\<open>ErrValidation\<close> (a validation
  error, not a protocol violation), and the session state is unchanged.
\<close>

theorem fetch_range_inversion_is_validation_error:
  assumes "controlFrame data = Some (Fetch, payload, rest)"
    and "readVarInt payload = Inr (requestID, r1)"
    and "validateRequestID v requestID True = None"
    and "readBytes 1 r1 = Inr (priorityByte, r2)"
    and "readBytes 1 r2 = Inr (orderByte, r3)"
    and "\<not> orderByte ! 0 > 2"
    and "readVarInt r3 = Inr (1, r4)"
    and "readTuple r4 = Inr (namespace, r5)"
    and "readVarInt r5 = Inr (nameLength, r6)"
    and "readBytes (unat nameLength) r6 = Inr (trackName, r7)"
    and "readVarInt r7 = Inr (startGroup, r8)"
    and "readVarInt r8 = Inr (startObject, r9)"
    and "readVarInt r9 = Inr (endGroup, r10)"
    and "readVarInt r10 = Inr (endObject, r11)"
    and "Less \<lparr>GroupID = endGroup, ObjectID = endObject\<rparr>
              \<lparr>GroupID = startGroup, ObjectID = startObject\<rparr>"
  shows "ValidateMessage v data True =
           (Inl (ErrValidation ''end location must be >= start location''), v)"
  using assms
  by (simp add: ValidateMessage_control controlFrame_dispatch isValidMessageType_def
        validateFetch_def Let_def)


theorem fetch_range_inversion_is_validation_error_witness:
  "controlFrame [0x16, 0x00, 0x0D, 0x00, 0x00, 0x00, 0x01, 0x01, 0x01, 0x61, 0x01, 0x62,
                 0x05, 0x00, 0x04, 0x00] =
     Some (Fetch, [0x00, 0x00, 0x00, 0x01, 0x01, 0x01, 0x61, 0x01, 0x62,
                   0x05, 0x00, 0x04, 0x00], []) \<and>
   Less \<lparr>GroupID = 4, ObjectID = 0\<rparr> \<lparr>GroupID = 5, ObjectID = 0\<rparr> \<and>
   ValidateMessage NewMoQTValidator
     [0x16, 0x00, 0x0D, 0x00, 0x00, 0x00, 0x01, 0x01, 0x01, 0x61, 0x01, 0x62,
      0x05, 0x00, 0x04, 0x00] True =
     (Inl (ErrValidation ''end location must be >= start location''), NewMoQTValidator)"
proof -
  have f: "controlFrame [0x16, 0x00, 0x0D, 0x00, 0x00, 0x00, 0x01, 0x01, 0x01, 0x61, 0x01, 0x62,
                 0x05, 0x00, 0x04, 0x00] =
     Some (Fetch, [0x00, 0x00, 0x00, 0x01, 0x01, 0x01, 0x61, 0x01, 0x62,
                   0x05, 0x00, 0x04, 0x00], [])"
    by (simp add: controlFrame_def decode_simps)
  have l: "Less \<lparr>GroupID = 4, ObjectID = 0\<rparr> \<lparr>GroupID = 5, ObjectID = 0\<rparr>"
    by (simp add: Less_def)
  have "ValidateMessage NewMoQTValidator
     [0x16, 0x00, 0x0D, 0x00, 0x00, 0x00, 0x01, 0x01, 0x01, 0x61, 0x01, 0x62,
      0x05, 0x00, 0x04, 0x00] True =
     (Inl (ErrValidation ''end location must be >= start location''), NewMoQTValidator)"
  proof (rule fetch_range_inversion_is_validation_error[OF f _ _ _ _ _ _ _ _ _ _ _ _ _ l])
    show "readVarInt [0x00, 0x00, 0x00, 0x01, 0x01, 0x01, 0x61, 0x01, 0x62,
                      0x05, 0x00, 0x04, 0x00] =
            Inr (0, [0x00, 0x00, 0x01, 0x01, 0x01, 0x61, 0x01, 0x62, 0x05, 0x00, 0x04, 0x00])"
      by (simp add: decode_simps)
    show "validateRequestID NewMoQTValidator 0 True = None"
      by (simp add: validateRequestID_def NewMoQTValidator_def)
    show "readBytes 1 [0x00, 0x00, 0x01, 0x01, 0x01, 0x61, 0x01, 0x62, 0x05, 0x00, 0x04, 0x00] =
            Inr ([0x00], [0x00, 0x01, 0x01, 0x01, 0x61, 0x01, 0x62, 0x05, 0x00, 0x04, 0x00])"
      by (simp add: decode_simps)
    show "readBytes 1 [0x00, 0x01, 0x01, 0x01, 0x61, 0x01, 0x62, 0x05, 0x00, 0x04, 0x00] =
            Inr ([0x00], [0x01, 0x01, 0x01, 0x61, 0x01, 0x62, 0x05, 0x00, 0x04, 0x00])"
      by (simp add: decode_simps)
    show "\<not> [0x00 :: byte] ! 0 > 2" by simp
    show "readVarInt [0x01, 0x01, 0x01, 0x61, 0x01, 0x62, 0x05, 0x00, 0x04, 0x00] =
            Inr (1, [0x01, 0x01, 0x61, 0x01, 0x62, 0x05, 0x00, 0x04, 0x00])"
      by (simp add: decode_simps)
    show "readTuple [0x01, 0x01, 0x61, 0x01, 0x62, 0x05, 0x00, 0x04, 0x00] =
            Inr ([[0x61]], [0x01, 0x62, 0x05, 0x00, 0x04, 0x00])"
      by (simp add: readTuple_def decode_simps)
    show "readVarInt [0x01, 0x62, 0x05, 0x00, 0x04, 0x00] = Inr (1, [0x62, 0x05, 0x00, 0x04, 0x00])"
      by (simp add: decode_simps)
    show "readBytes (unat (1 :: u64)) [0x62, 0x05, 0x00, 0x04, 0x00] =
            Inr ([0x62], [0x05, 0x00, 0x04, 0x00])"
      by (simp add: decode_simps)
    show "readVarInt [0x05, 0x00, 0x04, 0x00] = Inr (5, [0x00, 0x04, 0x00])"
      by (simp add: decode_simps)
    show "readVarInt [0x00, 0x04, 0x00] = Inr (0, [0x04, 0x00])"
      by (simp add: decode_simps)
    show "readVarInt [0x04, 0x00] = Inr (4, [0x00])"
      by (simp add: decode_simps)
    show "readVarInt [0x00] = Inr (0, [])"
      by (simp add: decode_simps)
  qed
  with f l show ?thesis by blast
qed

section \<open>Truncation by one byte\<close>

text \<open>
  Claim C6 says that every accepted message, cut by its last byte, is rejected with a
  validation error. An object datagram has no length field, its payload is whatever
  follows the header: cut by one byte it is accepted again, with a shorter payload. A
  subgroup stream of two objects, cut by one byte, is accepted with one object: the loop
  ends at the object that does not decode once one object is complete.
\<close>

theorem truncation_silent_success_counterexample:
  "\<not> isl (fst (ValidateDatagram NewMoQTValidator [0x00, 0x01, 0x01, 0x01, 0x00, 0xAA, 0xBB])) \<and>
   butlast [0x00, 0x01, 0x01, 0x01, 0x00, 0xAA, 0xBB] = [0x00, 0x01, 0x01, 0x01, 0x00, 0xAA :: byte] \<and>
   \<not> isl (fst (ValidateDatagram NewMoQTValidator [0x00, 0x01, 0x01, 0x01, 0x00, 0xAA])) \<and>
   \<not> isl (fst (ValidateMessage NewMoQTValidator
                [0x08, 0x01, 0x01, 0x00, 0x05, 0x01, 0xAA, 0x06, 0x01, 0xBB] False)) \<and>
   butlast [0x08, 0x01, 0x01, 0x00, 0x05, 0x01, 0xAA, 0x06, 0x01, 0xBB] =
     [0x08, 0x01, 0x01, 0x00, 0x05, 0x01, 0xAA, 0x06, 0x01 :: byte] \<and>
   \<not> isl (fst (ValidateMessage NewMoQTValidator
                [0x08, 0x01, 0x01, 0x00, 0x05, 0x01, 0xAA, 0x06, 0x01] False))"
proof -
  have d1: "\<not> isl (fst (ValidateDatagram NewMoQTValidator [0x00, 0x01, 0x01, 0x01, 0x00, 0xAA, 0xBB]))"
    by (simp add: ValidateDatagram_def decode_simps isValidDatagramType_def ReadAll_def Let_def)
  have d2: "\<not> isl (fst (ValidateDatagram NewMoQTValidator [0x00, 0x01, 0x01, 0x01, 0x00, 0xAA]))"
    by (simp add: ValidateDatagram_def decode_simps isValidDatagramType_def ReadAll_def Let_def)
  have s1: "\<not> isl (fst (ValidateMessage NewMoQTValidator
                [0x08, 0x01, 0x01, 0x00, 0x05, 0x01, 0xAA, 0x06, 0x01, 0xBB] False))"
    by (simp add: ValidateMessage_def validateDataStream_def validateSubgroupHeader_def
          typeInfo_def validateSubgroupObject_def validateSubgroupHeader_loop.simps
          decode_simps Let_def)
  have s2: "\<not> isl (fst (ValidateMessage NewMoQTValidator
                [0x08, 0x01, 0x01, 0x00, 0x05, 0x01, 0xAA, 0x06, 0x01] False))"
    by (simp add: ValidateMessage_def validateDataStream_def validateSubgroupHeader_def
          typeInfo_def validateSubgroupObject_def validateSubgroupHeader_loop.simps
          decode_simps Let_def)
  from d1 d2 s1 s2 show ?thesis by simp
qed

lemma readVarInt_prefix:
  assumes "readVarInt r = Inr (x, r')"
  shows "\<exists>pre. pre \<noteq> [] \<and> r = pre @ r' \<and> (\<forall>ys. readVarInt (pre @ ys) = Inr (x, ys))"
proof -
  from assms obtain b0 t where r: "r = b0 # t"
    by (cases r) (auto simp: decode_simps)
  consider "drop_bit 6 b0 = 0" | "drop_bit 6 b0 = 1" | "drop_bit 6 b0 = 2"
    | "drop_bit 6 b0 \<noteq> 0" "drop_bit 6 b0 \<noteq> 1" "drop_bit 6 b0 \<noteq> 2"
    by blast
  then show ?thesis
  proof cases
    case 1
    with assms r have "r' = t" "x = ucast b0" by (auto simp: decode_simps)
    with 1 r show ?thesis
      by (intro exI[of _ "[b0]"]) (simp add: decode_simps)
  next
    case 2
    with assms r have l: "length t \<ge> 1" and r': "r' = drop 1 t"
      and x: "x = ucast (Uint16 (b0 # take 1 t) AND 0x3FFF)"
      by (cases t; auto simp: decode_simps split: if_splits)+
    from l have "length (take 1 t) = 1" "t \<noteq> []" by auto
    with 2 r r' x l show ?thesis
      by (intro exI[of _ "b0 # take 1 t"]) (simp add: decode_simps)
  next
    case 3
    with assms r have l: "length t \<ge> 3" and r': "r' = drop 3 t"
      and x: "x = ucast (Uint32 (b0 # take 3 t) AND 0x3FFFFFFF)"
      by (auto simp: decode_simps split: if_splits)
    from l have "length (take 3 t) = 3" "t \<noteq> []" by auto
    with 3 r r' x l show ?thesis
      by (intro exI[of _ "b0 # take 3 t"]) (simp add: decode_simps)
  next
    case 4
    with assms r have l: "length t \<ge> 7" and r': "r' = drop 7 t"
      and x: "x = Uint64 (b0 # take 7 t) AND 0x3FFFFFFFFFFFFFFF"
      by (auto simp: decode_simps split: if_splits)
    from l have "length (take 7 t) = 7" "t \<noteq> []" by auto
    with 4 r r' x l show ?thesis
      by (intro exI[of _ "b0 # take 7 t"]) (simp add: decode_simps)
  qed
qed


lemma readVarInt_butlast:
  assumes "readVarInt r = Inr (x, r')" and "r' \<noteq> []"
  shows "readVarInt (butlast r) = Inr (x, butlast r')" and "butlast r \<noteq> []"
proof -
  from readVarInt_prefix[OF assms(1)] obtain pre where
    p: "pre \<noteq> []" "r = pre @ r'" "\<And>ys. readVarInt (pre @ ys) = Inr (x, ys)" by blast
  from p(2) assms(2) have "butlast r = pre @ butlast r'" by (simp add: butlast_append)
  with p show "readVarInt (butlast r) = Inr (x, butlast r')" "butlast r \<noteq> []" by auto
qed

text \<open>
  Claim C6, as amended. For every control message that the validator accepts and that
  consists of exactly its type, its 16-bit length and a payload of that length (no byte
  follows the payload), validating the message without its last byte returns an error
  wrapping \<^verbatim>\<open>ErrValidation\<close> and leaves the session state unchanged. (For datagrams and
  data streams the truncated buffer can be accepted.)
\<close>

theorem truncated_control_message_rejected:
  assumes "controlFrame data = Some (msgType, payload, [])"
    and "\<not> isl (fst (ValidateMessage v data True))"
  shows "isErrValidation (fst (ValidateMessage v (butlast data) True)) \<and>
         snd (ValidateMessage v (butlast data) True) = v"
proof -
  from assms(1) obtain r1 lengthBytes r2 where
    1: "readVarInt data = Inr (msgType, r1)" and
    2: "readBytes 2 r1 = Inr (lengthBytes, r2)" and
    3: "readBytes (unat (Uint16 lengthBytes)) r2 = Inr (payload, [])"
    by (auto simp: controlFrame_def split: sum.splits)
  from assms have valid: "isValidMessageType msgType"
    by (auto simp: ValidateMessage_control controlFrame_dispatch split: if_splits)
  from 2 have r1: "length r1 \<ge> 2" "lengthBytes = take 2 r1" "r2 = drop 2 r1"
    by (auto simp: readBytes_Inr)
  from 3 have r2: "length r2 = unat (Uint16 lengthBytes)"
    by (auto simp: readBytes_Inr)
  from r1 have ne: "r1 \<noteq> []" by auto
  note b = readVarInt_butlast[OF 1 ne]
  show ?thesis
  proof (cases "r2 = []")
    case True
    with r1 have "length (butlast r1) < 2" by simp
    then have "\<exists>e. readBytes 2 (butlast r1) = Inl e" by (simp add: readBytes_Inl)
    then obtain e where "readBytes 2 (butlast r1) = Inl e" ..
    with b valid show ?thesis
      by (simp add: ValidateMessage_def validateControlMessage_def)
  next
    case False
    with r1 have 4: "readBytes 2 (butlast r1) = Inr (lengthBytes, butlast r2)"
      by (auto simp: readBytes_Inr butlast_drop take_butlast)
    from False r2 have "length (butlast r2) < unat (Uint16 lengthBytes)" by (cases r2) auto
    then have "\<exists>e. readBytes (unat (Uint16 lengthBytes)) (butlast r2) = Inl e"
      by (simp add: readBytes_Inl)
    then obtain e where "readBytes (unat (Uint16 lengthBytes)) (butlast r2) = Inl e" ..
    with b valid 4 show ?thesis
      by (simp add: ValidateMessage_def validateControlMessage_def)
  qed
qed


theorem truncated_control_message_rejected_witness:
  "controlFrame [0x15, 0x00, 0x01, 0x05] = Some (MaxRequestID, [0x05], []) \<and>
   \<not> isl (fst (ValidateMessage NewMoQTValidator [0x15, 0x00, 0x01, 0x05] True)) \<and>
   isErrValidation (fst (ValidateMessage NewMoQTValidator (butlast [0x15, 0x00, 0x01, 0x05]) True)) \<and>
   snd (ValidateMessage NewMoQTValidator (butlast [0x15, 0x00, 0x01, 0x05]) True) = NewMoQTValidator"
proof -
  have 1: "controlFrame [0x15, 0x00, 0x01, 0x05] = Some (MaxRequestID, [0x05], [])"
    by (simp add: controlFrame_def decode_simps)
  have 2: "\<not> isl (fst (ValidateMessage NewMoQTValidator [0x15, 0x00, 0x01, 0x05] True))"
    by (simp add: eval_control validateMaxRequestID_def)
  from truncated_control_message_rejected[OF 1 2] 1 2 show ?thesis by blast
qed

section \<open>Object ids within a subgroup\<close>

lemma sorted_wrt_less_Cons2:
  "sorted_wrt (<) (y # ys) \<Longrightarrow> (x :: u64) < y \<Longrightarrow> sorted_wrt (<) (x # y # ys)"
  by (auto intro: order.strict_trans)

lemma validateSubgroupHeader_loop_violation:
  assumes "\<not> sorted_wrt (<) (if objectCount > 0
              then lastObjectID # subgroupObjectIDs r ext else subgroupObjectIDs r ext)"
  shows "validateSubgroupHeader_loop ext r objects objectCount firstObjectID lastObjectID =
           Inl (ErrProtocolViolation ''object IDs must be ascending'')"
  using assms
proof (induction ext r objects objectCount firstObjectID lastObjectID
        rule: validateSubgroupHeader_loop.induct)
  case (1 ext r objects objectCount firstObjectID lastObjectID)
  show ?case
  proof (cases "validateSubgroupObject r ext")
    case (Inl err)
    then have "subgroupObjectIDs r ext = []"
      by (subst subgroupObjectIDs.simps) simp
    with "1.prems" show ?thesis by (simp split: if_splits)
  next
    case (Inr p)
    obtain obj r' where p: "p = (obj, r')" by (cases p)
    show ?thesis
    proof (cases "assertU64 (obj ''object_id'')")
      case None
      with Inr p have "subgroupObjectIDs r ext = []"
        by (subst subgroupObjectIDs.simps) simp
      with "1.prems" show ?thesis by (simp split: if_splits)
    next
      case (Some objID)
      from Inr p Some have ids: "subgroupObjectIDs r ext = objID # subgroupObjectIDs r' ext"
        by (subst subgroupObjectIDs.simps) simp
      show ?thesis
      proof (cases "objectCount > 0 \<and> objID \<le> lastObjectID")
        case True
        with Inr p Some show ?thesis
          by (subst validateSubgroupHeader_loop.simps) simp
      next
        case False
        have "\<not> sorted_wrt (<) (objID # subgroupObjectIDs r' ext)"
        proof (cases "objectCount > 0")
          case True
          with False have "lastObjectID < objID" by simp
          with "1.prems" True ids show ?thesis
            using sorted_wrt_less_Cons2[of objID "subgroupObjectIDs r' ext" lastObjectID]
            by auto
        next
          case False
          with "1.prems" ids show ?thesis by simp
        qed
        then have "validateSubgroupHeader_loop ext r' (objects @ [JMap obj]) (objectCount + 1)
             (if firstObjectID = None then Some objID else firstObjectID) objID =
           Inl (ErrProtocolViolation ''object IDs must be ascending'')"
          using "1.IH"[OF Inr p[symmetric] Some refl False] by simp
        with Inr p Some False show ?thesis
          by (subst validateSubgroupHeader_loop.simps) (simp add: Let_def)
      qed
    qed
  qed
qed


lemma typeInfo_range: "typeInfo t = Some x \<Longrightarrow> t \<ge> 0x08 \<and> t \<le> 0x0D"
  by (auto simp: typeInfo_def split: if_splits)

text \<open>
  Claim C8. For every subgroup-header data stream (a stream type with an entry in the
  type matrix, a header that decodes), if the object ids of the objects that decode one
  after the other from the bytes after the header are not strictly ascending, that is,
  some object's id is not strictly greater than the id of the object before it,
  validation fails with \<^verbatim>\<open>ErrProtocolViolation\<close>. Objects decoded completely before the
  offending one do not change this: the loop swallows an error only when an object does
  not decode.
\<close>

theorem subgroup_object_ids_must_ascend:
  assumes "readVarInt data = Inr (streamType, r0)"
    and "typeInfo streamType = Some (subgroupIDPresent, subgroupIDValue, extensionsPresent)"
    and "subgroupHeaderRest r0 subgroupIDPresent = Some r"
    and "\<not> sorted_wrt (<) (subgroupObjectIDs r extensionsPresent)"
  shows "ValidateMessage v data False =
           (Inl (ErrProtocolViolation ''object IDs must be ascending''), v)"
proof -
  from assms(1) have ne: "data \<noteq> []" by auto
  from assms(3) obtain trackAlias ra groupID rb rc priorityByte where
    a: "readVarInt r0 = Inr (trackAlias, ra)" and
    b: "readVarInt ra = Inr (groupID, rb)" and
    c: "subgroupIDPresent \<Longrightarrow> \<exists>subgroupID. readVarInt rb = Inr (subgroupID, rc)" and
    c': "\<not> subgroupIDPresent \<Longrightarrow> rc = rb" and
    d: "readBytes 1 rc = Inr (priorityByte, r)"
    by (auto simp: subgroupHeaderRest_def split: sum.splits if_splits)
  have loop: "validateSubgroupHeader_loop extensionsPresent r [] 0 None 0 =
           Inl (ErrProtocolViolation ''object IDs must be ascending'')"
    by (rule validateSubgroupHeader_loop_violation) (use assms(4) in simp)
  have "validateSubgroupHeader r0 streamType =
          Inl (ErrProtocolViolation ''object IDs must be ascending'')"
  proof (cases subgroupIDPresent)
    case True
    with c obtain subgroupID where "readVarInt rb = Inr (subgroupID, rc)" by blast
    with True a b d loop assms(2) show ?thesis
      by (simp add: validateSubgroupHeader_def Let_def)
  next
    case False
    with c' a b d loop assms(2) show ?thesis
      by (simp add: validateSubgroupHeader_def Let_def)
  qed
  with assms(1) typeInfo_range[OF assms(2)] ne show ?thesis
    by (simp add: ValidateMessage_def validateDataStream_def Let_def)
qed

theorem subgroup_object_ids_must_ascend_witness:
  "readVarInt [0x0A, 0x01, 0x40, 0x64, 0x00, 0x05, 0x03, 0x61, 0x62, 0x63, 0x07, 0x00, 0x00,
               0x06, 0x00, 0x03] =
     Inr (0x0A, [0x01, 0x40, 0x64, 0x00, 0x05, 0x03, 0x61, 0x62, 0x63, 0x07, 0x00, 0x00,
                 0x06, 0x00, 0x03]) \<and>
   subgroupObjectIDs [0x05, 0x03, 0x61, 0x62, 0x63, 0x07, 0x00, 0x00, 0x06, 0x00, 0x03] False =
     [5, 7, 6] \<and>
   ValidateMessage NewMoQTValidator
     [0x0A, 0x01, 0x40, 0x64, 0x00, 0x05, 0x03, 0x61, 0x62, 0x63, 0x07, 0x00, 0x00,
      0x06, 0x00, 0x03] False =
     (Inl (ErrProtocolViolation ''object IDs must be ascending''), NewMoQTValidator)"
proof -
  have 1: "readVarInt [0x0A, 0x01, 0x40, 0x64, 0x00, 0x05, 0x03, 0x61, 0x62, 0x63, 0x07, 0x00, 0x00,
               0x06, 0x00, 0x03] =
     Inr (0x0A, [0x01, 0x40, 0x64, 0x00, 0x05, 0x03, 0x61, 0x62, 0x63, 0x07, 0x00, 0x00,
                 0x06, 0x00, 0x03])"
    by (simp add: decode_simps)
  have 2: "typeInfo 0x0A = Some (False, ''first_object_id'', False)"
    by (simp add: typeInfo_def)
  have 3: "subgroupHeaderRest [0x01, 0x40, 0x64, 0x00, 0x05, 0x03, 0x61, 0x62, 0x63, 0x07, 0x00,
               0x00, 0x06, 0x00, 0x03] False =
     Some [0x05, 0x03, 0x61, 0x62, 0x63, 0x07, 0x00, 0x00, 0x06, 0x00, 0x03]"
    by (simp add: subgroupHeaderRest_def decode_simps)
  have 4: "subgroupObjectIDs [0x05, 0x03, 0x61, 0x62, 0x63, 0x07, 0x00, 0x00, 0x06, 0x00, 0x03]
             False = [5, 7, 6]"
    by (simp add: subgroupObjectIDs.simps validateSubgroupObject_def decode_simps
          isValidObjectStatus_def Let_def)
  have 5: "\<not> sorted_wrt (<) (subgroupObjectIDs
             [0x05, 0x03, 0x61, 0x62, 0x63, 0x07, 0x00, 0x00, 0x06, 0x00, 0x03] False)"
    unfolding 4 by simp
  from subgroup_object_ids_must_ascend[OF 1 2 3 5] 1 4 show ?thesis by blast
qed

section \<open>Track aliases of live subscriptions\<close>

lemmas eval_subscribe = eval_control validateSubscribe_def validateRequestID_def readTuple_def
  NewTrackNamespace_def NewFullTrackName_def isValidFilterType_def

lemma subscribe_first:
  "\<exists>result. ValidateMessage (NewMoQTValidator\<lparr>maxRequestIDClient := m\<rparr>)
     [0x03, 0x00, 0x11, 0x00, 0x0A, 0x01, 0x04, 0x6C, 0x69, 0x76, 0x65, 0x03, 0x63, 0x61, 0x6D,
      0x80, 0x01, 0x01, 0x02, 0x00] True =
     (Inr result, NewMoQTValidator\<lparr>maxRequestIDClient := m, activeSubscriptions := [0 \<mapsto> JMap [''track_alias'' \<mapsto> JU64 10,
            ''full_track_name'' \<mapsto>
              JTrack \<lparr>Namespace = \<lparr>Fields = [[0x6C, 0x69, 0x76, 0x65]]\<rparr>,
                      Name = [0x63, 0x61, 0x6D]\<rparr>,
            ''filter_type'' \<mapsto> JU64 2]]\<rparr>)"
  by (simp add: eval_subscribe NewMoQTValidator_def)

lemma subscribe_again:
  "\<exists>result. ValidateMessage
     (NewMoQTValidator\<lparr>maxRequestIDClient := m, activeSubscriptions := [0 \<mapsto> JMap [''track_alias'' \<mapsto> JU64 10,
            ''full_track_name'' \<mapsto>
              JTrack \<lparr>Namespace = \<lparr>Fields = [[0x6C, 0x69, 0x76, 0x65]]\<rparr>,
                      Name = [0x63, 0x61, 0x6D]\<rparr>,
            ''filter_type'' \<mapsto> JU64 2]]\<rparr>)
     [0x03, 0x00, 0x11, 0x00, 0x0A, 0x01, 0x04, 0x6C, 0x69, 0x76, 0x65, 0x03, 0x63, 0x61, 0x6D,
      0x80, 0x01, 0x01, 0x02, 0x00] True =
     (Inr result, NewMoQTValidator\<lparr>maxRequestIDClient := m, activeSubscriptions := [0 \<mapsto> JMap [''track_alias'' \<mapsto> JU64 10,
            ''full_track_name'' \<mapsto>
              JTrack \<lparr>Namespace = \<lparr>Fields = [[0x6C, 0x69, 0x76, 0x65]]\<rparr>,
                      Name = [0x63, 0x61, 0x6D]\<rparr>,
            ''filter_type'' \<mapsto> JU64 2]]\<rparr>)"
  by (simp add: eval_subscribe NewMoQTValidator_def)

lemma subscribe_second:
  "\<exists>result. ValidateMessage
     (NewMoQTValidator\<lparr>maxRequestIDClient := 2, activeSubscriptions := [0 \<mapsto> JMap [''track_alias'' \<mapsto> JU64 10,
            ''full_track_name'' \<mapsto>
              JTrack \<lparr>Namespace = \<lparr>Fields = [[0x6C, 0x69, 0x76, 0x65]]\<rparr>,
                      Name = [0x63, 0x61, 0x6D]\<rparr>,
            ''filter_type'' \<mapsto> JU64 2]]\<rparr>)
     [0x03, 0x00, 0x11, 0x02, 0x0A, 0x01, 0x04, 0x6C, 0x69, 0x76, 0x65, 0x03, 0x63, 0x61, 0x6D,
      0x80, 0x01, 0x01, 0x02, 0x00] True =
     (Inr result, NewMoQTValidator\<lparr>maxRequestIDClient := 2,
        activeSubscriptions := [0 \<mapsto> JMap [''track_alias'' \<mapsto> JU64 10,
            ''full_track_name'' \<mapsto>
              JTrack \<lparr>Namespace = \<lparr>Fields = [[0x6C, 0x69, 0x76, 0x65]]\<rparr>,
                      Name = [0x63, 0x61, 0x6D]\<rparr>,
            ''filter_type'' \<mapsto> JU64 2], 2 \<mapsto> JMap [''track_alias'' \<mapsto> JU64 10,
            ''full_track_name'' \<mapsto>
              JTrack \<lparr>Namespace = \<lparr>Fields = [[0x6C, 0x69, 0x76, 0x65]]\<rparr>,
                      Name = [0x63, 0x61, 0x6D]\<rparr>,
            ''filter_type'' \<mapsto> JU64 2]]\<rparr>)"
  by (simp add: eval_subscribe NewMoQTValidator_def)


text \<open>
  Claim C2 says that a second SUBSCRIBE carrying the track alias of a live subscription
  fails with a protocol violation. \<^verbatim>\<open>validateSubscribe\<close> never looks at the live
  subscriptions: on a new validator, a SUBSCRIBE with request id 0 and track alias 10 is
  accepted twice; and in a session that allows request ids up to 2, SUBSCRIBE messages
  with request ids 0 and 2 and the same alias 10 are both accepted and both live.
\<close>

theorem shared_track_alias_accepted_counterexample:
  "\<not> isl (fst (ValidateMessage NewMoQTValidator [0x03, 0x00, 0x11, 0x00, 0x0A, 0x01, 0x04, 0x6C, 0x69, 0x76, 0x65, 0x03, 0x63, 0x61, 0x6D,
      0x80, 0x01, 0x01, 0x02, 0x00] True)) \<and>
   subscriptionAlias (activeSubscriptions (snd (ValidateMessage NewMoQTValidator [0x03, 0x00, 0x11, 0x00, 0x0A, 0x01, 0x04, 0x6C, 0x69, 0x76, 0x65, 0x03, 0x63, 0x61, 0x6D,
      0x80, 0x01, 0x01, 0x02, 0x00] True)) 0) =
     Some 10 \<and>
   \<not> isErrProtocolViolation
       (fst (ValidateMessage (snd (ValidateMessage NewMoQTValidator [0x03, 0x00, 0x11, 0x00, 0x0A, 0x01, 0x04, 0x6C, 0x69, 0x76, 0x65, 0x03, 0x63, 0x61, 0x6D,
      0x80, 0x01, 0x01, 0x02, 0x00] True)) [0x03, 0x00, 0x11, 0x00, 0x0A, 0x01, 0x04, 0x6C, 0x69, 0x76, 0x65, 0x03, 0x63, 0x61, 0x6D,
      0x80, 0x01, 0x01, 0x02, 0x00] True)) \<and>
   \<not> isl (fst (ValidateMessage (snd (ValidateMessage NewMoQTValidator [0x03, 0x00, 0x11, 0x00, 0x0A, 0x01, 0x04, 0x6C, 0x69, 0x76, 0x65, 0x03, 0x63, 0x61, 0x6D,
      0x80, 0x01, 0x01, 0x02, 0x00] True)) [0x03, 0x00, 0x11, 0x00, 0x0A, 0x01, 0x04, 0x6C, 0x69, 0x76, 0x65, 0x03, 0x63, 0x61, 0x6D,
      0x80, 0x01, 0x01, 0x02, 0x00] True)) \<and>
   \<not> isl (fst (ValidateMessage
       (snd (ValidateMessage (NewMoQTValidator\<lparr>maxRequestIDClient := 2\<rparr>) [0x03, 0x00, 0x11, 0x00, 0x0A, 0x01, 0x04, 0x6C, 0x69, 0x76, 0x65, 0x03, 0x63, 0x61, 0x6D,
      0x80, 0x01, 0x01, 0x02, 0x00] True))
       [0x03, 0x00, 0x11, 0x02, 0x0A, 0x01, 0x04, 0x6C, 0x69, 0x76, 0x65, 0x03, 0x63, 0x61, 0x6D,
      0x80, 0x01, 0x01, 0x02, 0x00] True)) \<and>
   subscriptionAlias (activeSubscriptions (snd (ValidateMessage
       (snd (ValidateMessage (NewMoQTValidator\<lparr>maxRequestIDClient := 2\<rparr>) [0x03, 0x00, 0x11, 0x00, 0x0A, 0x01, 0x04, 0x6C, 0x69, 0x76, 0x65, 0x03, 0x63, 0x61, 0x6D,
      0x80, 0x01, 0x01, 0x02, 0x00] True))
       [0x03, 0x00, 0x11, 0x02, 0x0A, 0x01, 0x04, 0x6C, 0x69, 0x76, 0x65, 0x03, 0x63, 0x61, 0x6D,
      0x80, 0x01, 0x01, 0x02, 0x00] True)) 0) = Some 10 \<and>
   subscriptionAlias (activeSubscriptions (snd (ValidateMessage
       (snd (ValidateMessage (NewMoQTValidator\<lparr>maxRequestIDClient := 2\<rparr>) [0x03, 0x00, 0x11, 0x00, 0x0A, 0x01, 0x04, 0x6C, 0x69, 0x76, 0x65, 0x03, 0x63, 0x61, 0x6D,
      0x80, 0x01, 0x01, 0x02, 0x00] True))
       [0x03, 0x00, 0x11, 0x02, 0x0A, 0x01, 0x04, 0x6C, 0x69, 0x76, 0x65, 0x03, 0x63, 0x61, 0x6D,
      0x80, 0x01, 0x01, 0x02, 0x00] True)) 2) = Some 10"
proof -
  have n: "NewMoQTValidator\<lparr>maxRequestIDClient := 0\<rparr> = NewMoQTValidator"
    by (simp add: NewMoQTValidator_def)
  from subscribe_first[of 0] subscribe_again[of 0] subscribe_first[of 2] subscribe_second
  show ?thesis
    unfolding n by (auto simp: subscriptionAlias_def)
qed

lemma validateAuthToken_agree:
  assumes "sameButSubscriptions v w"
  shows "agree (validateAuthToken v tokenData) (validateAuthToken w tokenData)"
  unfolding validateAuthToken_def ReadAll_def prod.case option.case
  apply (intro agree_intros assms refl)
  using assms apply (simp_all add: sameButSubscriptions_def)
  done

lemma validateVersionParameters_loop_agree:
  "sameButSubscriptions v w \<Longrightarrow>
   agree (validateVersionParameters_loop n v r params) (validateVersionParameters_loop n w r params)"
proof (induction n arbitrary: v w r params)
  case 0
  then show ?case by (simp add: agree_pair)
next
  case (Suc n)
  note same = Suc.prems
  show ?case
    unfolding validateVersionParameters_loop.simps
    by (intro agree_intros same refl validateAuthToken_agree Suc.IH)
qed

lemma validateVersionParameters_agree:
  "sameButSubscriptions v w \<Longrightarrow>
   agree (validateVersionParameters v r n) (validateVersionParameters w r n)"
  unfolding validateVersionParameters_def by (rule validateVersionParameters_loop_agree)

lemma validateRequestID_same:
  "sameButSubscriptions v w \<Longrightarrow> validateRequestID v x c = validateRequestID w x c"
  by (simp add: validateRequestID_def sameButSubscriptions_def)

lemma validateSubscribe_agree:
  assumes "sameButSubscriptions v w"
  shows "agree (validateSubscribe v r) (validateSubscribe w r)"
  unfolding validateSubscribe_def
  apply (intro agree_intros assms refl validateVersionParameters_agree
      arg_cong[OF validateRequestID_same[OF assms]])
  apply (simp_all add: sameButSubscriptions_def)
  done


lemma validateSubscribe_records_alias:
  assumes "readVarInt r = Inr (requestID, r1)" and "readVarInt r1 = Inr (trackAlias, r2)"
  shows "postOK (\<lambda>v'. subscriptionAlias (activeSubscriptions v' requestID) = Some trackAlias)
           (validateSubscribe v r)"
  unfolding validateSubscribe_def
  apply (intro postOK_intros)
  using assms apply (simp add: subscriptionAlias_def)
  done

text \<open>
  Claim C2, as amended. For every SUBSCRIBE message validated against a session state,
  whatever subscriptions are live in it: the message is accepted or rejected, with the
  same record or error, exactly as in the state with any other tables of live
  subscriptions and track aliases (\<^verbatim>\<open>validateSubscribe\<close> consults neither), and when it is
  accepted the subscription is recorded under its request id with the track alias it
  carries. So a second SUBSCRIBE carrying the alias of a live subscription is not
  rejected for it, and two live subscriptions may share an alias.
\<close>

theorem subscribe_ignores_live_aliases:
  assumes "controlFrame data = Some (Subscribe, payload, rest)"
  shows "fst (ValidateMessage (v\<lparr>activeSubscriptions := subs, activeTracks := tracks\<rparr>) data True) =
           fst (ValidateMessage v data True) \<and>
         (\<forall>result v' requestID r1 trackAlias r2.
            ValidateMessage v data True = (Inr result, v') \<and>
            readVarInt payload = Inr (requestID, r1) \<and>
            readVarInt r1 = Inr (trackAlias, r2) \<longrightarrow>
            subscriptionAlias (activeSubscriptions v' requestID) = Some trackAlias)"
proof (intro conjI allI impI)
  have "sameButSubscriptions v (v\<lparr>activeSubscriptions := subs, activeTracks := tracks\<rparr>)"
    by (simp add: sameButSubscriptions_def)
  from validateSubscribe_agree[OF this, of payload]
  have "agree (orReturnS (validateSubscribe v payload) (\<lambda>details v. (Inr (res ++ details), v)))
          (orReturnS (validateSubscribe (v\<lparr>activeSubscriptions := subs, activeTracks := tracks\<rparr>) payload)
             (\<lambda>details v. (Inr (res ++ details), v)))" for res
    by (intro agree_intros)
  then show "fst (ValidateMessage (v\<lparr>activeSubscriptions := subs, activeTracks := tracks\<rparr>) data True) =
           fst (ValidateMessage v data True)"
    using assms
    by (simp add: ValidateMessage_control controlFrame_dispatch isValidMessageType_def agree_def)
next
  fix result v' requestID r1 trackAlias r2
  assume a: "ValidateMessage v data True = (Inr result, v') \<and>
            readVarInt payload = Inr (requestID, r1) \<and>
            readVarInt r1 = Inr (trackAlias, r2)"
  then have "postOK (\<lambda>v'. subscriptionAlias (activeSubscriptions v' requestID) = Some trackAlias)
           (validateSubscribe v payload)"
    by (intro validateSubscribe_records_alias) auto
  then have "postOK (\<lambda>v'. subscriptionAlias (activeSubscriptions v' requestID) = Some trackAlias)
           (validateControlMessage v data)"
    unfolding controlFrame_dispatch[OF assms]
    by (simp add: isValidMessageType_def) (intro postOK_intros, simp add: postOK_def)
  with a assms show "subscriptionAlias (activeSubscriptions v' requestID) = Some trackAlias"
    by (simp add: ValidateMessage_control postOK_def)
qed


theorem subscribe_ignores_live_aliases_witness:
  "controlFrame [0x03, 0x00, 0x11, 0x00, 0x0A, 0x01, 0x04, 0x6C, 0x69, 0x76, 0x65, 0x03, 0x63, 0x61, 0x6D,
      0x80, 0x01, 0x01, 0x02, 0x00] = Some (Subscribe, [0x00, 0x0A, 0x01, 0x04, 0x6C, 0x69, 0x76, 0x65, 0x03, 0x63, 0x61, 0x6D,
      0x80, 0x01, 0x01, 0x02, 0x00], []) \<and>
   fst (ValidateMessage
          (NewMoQTValidator\<lparr>activeSubscriptions := [4 \<mapsto> JMap [''track_alias'' \<mapsto> JU64 10]],
             activeTracks := Map.empty\<rparr>) [0x03, 0x00, 0x11, 0x00, 0x0A, 0x01, 0x04, 0x6C, 0x69, 0x76, 0x65, 0x03, 0x63, 0x61, 0x6D,
      0x80, 0x01, 0x01, 0x02, 0x00] True) =
     fst (ValidateMessage NewMoQTValidator [0x03, 0x00, 0x11, 0x00, 0x0A, 0x01, 0x04, 0x6C, 0x69, 0x76, 0x65, 0x03, 0x63, 0x61, 0x6D,
      0x80, 0x01, 0x01, 0x02, 0x00] True) \<and>
   \<not> isl (fst (ValidateMessage NewMoQTValidator [0x03, 0x00, 0x11, 0x00, 0x0A, 0x01, 0x04, 0x6C, 0x69, 0x76, 0x65, 0x03, 0x63, 0x61, 0x6D,
      0x80, 0x01, 0x01, 0x02, 0x00] True)) \<and>
   subscriptionAlias (activeSubscriptions (snd (ValidateMessage NewMoQTValidator [0x03, 0x00, 0x11, 0x00, 0x0A, 0x01, 0x04, 0x6C, 0x69, 0x76, 0x65, 0x03, 0x63, 0x61, 0x6D,
      0x80, 0x01, 0x01, 0x02, 0x00] True)) 0) =
     Some 10"
proof -
  have f: "controlFrame [0x03, 0x00, 0x11, 0x00, 0x0A, 0x01, 0x04, 0x6C, 0x69, 0x76, 0x65, 0x03, 0x63, 0x61, 0x6D,
      0x80, 0x01, 0x01, 0x02, 0x00] = Some (Subscribe, [0x00, 0x0A, 0x01, 0x04, 0x6C, 0x69, 0x76, 0x65, 0x03, 0x63, 0x61, 0x6D,
      0x80, 0x01, 0x01, 0x02, 0x00], [])"
    by (simp add: controlFrame_def decode_simps)
  have n: "NewMoQTValidator\<lparr>maxRequestIDClient := 0\<rparr> = NewMoQTValidator"
    by (simp add: NewMoQTValidator_def)
  from subscribe_first[of 0] obtain result v' where
    e: "ValidateMessage NewMoQTValidator [0x03, 0x00, 0x11, 0x00, 0x0A, 0x01, 0x04, 0x6C, 0x69, 0x76, 0x65, 0x03, 0x63, 0x61, 0x6D,
      0x80, 0x01, 0x01, 0x02, 0x00] True = (Inr result, v')"
    unfolding n by blast
  have 1: "readVarInt [0x00, 0x0A, 0x01, 0x04, 0x6C, 0x69, 0x76, 0x65, 0x03, 0x63, 0x61, 0x6D,
      0x80, 0x01, 0x01, 0x02, 0x00] = Inr (0, tl [0x00, 0x0A, 0x01, 0x04, 0x6C, 0x69, 0x76, 0x65, 0x03, 0x63, 0x61, 0x6D,
      0x80, 0x01, 0x01, 0x02, 0x00])"
    and 2: "readVarInt (tl [0x00, 0x0A, 0x01, 0x04, 0x6C, 0x69, 0x76, 0x65, 0x03, 0x63, 0x61, 0x6D,
      0x80, 0x01, 0x01, 0x02, 0x00]) = Inr (10, tl (tl [0x00, 0x0A, 0x01, 0x04, 0x6C, 0x69, 0x76, 0x65, 0x03, 0x63, 0x61, 0x6D,
      0x80, 0x01, 0x01, 0x02, 0x00]))"
    by (simp_all add: decode_simps)
  from subscribe_ignores_live_aliases[OF f, where v = NewMoQTValidator
      and subs = "[4 \<mapsto> JMap [''track_alias'' \<mapsto> JU64 10]]" and tracks = Map.empty] e 1 2 f
  show ?thesis by auto
qed


section \<open>The token-cache budget\<close>

text \<open>
  \<^verbatim>\<open>validateAuthToken\<close> is the only method that assigns to \<^verbatim>\<open>authTokens\<close> and
  \<^verbatim>\<open>currentAuthTokenSize\<close>, and no method assigns to \<^verbatim>\<open>maxAuthTokenCacheSize\<close>. The sizes
  are \<^verbatim>\<open>uint64\<close> and the sums wrap, so the budget is kept as long as the maximum leaves
  room for one more token: a Go slice holds fewer than \<open>2\<^sup>6\<^sup>3\<close> bytes, and a maximum below
  \<open>2\<^sup>6\<^sup>2\<close> keeps \<^verbatim>\<open>currentAuthTokenSize + tokenSize\<close> below \<open>2\<^sup>6\<^sup>4\<close>.
\<close>

lemma post_case_option:
  "(x = None \<Longrightarrow> post P a) \<Longrightarrow> (\<And>y. x = Some y \<Longrightarrow> post P (f y)) \<Longrightarrow>
   post P (case x of None \<Rightarrow> a | Some y \<Rightarrow> f y)"
  by (cases x) simp_all

lemma unat_of_nat_u64: "n < 2 ^ 64 \<Longrightarrow> unat (of_nat n :: u64) = n"
  by (simp add: unat_of_nat)

lemma tokenSize_unat:
  "n < 2 ^ 63 \<Longrightarrow> unat (of_nat (8 + n) :: u64) = 8 + n"
  by (rule unat_of_nat_u64) simp

lemma tokenCacheSum_register:
  assumes "finite (dom (authTokens v))" and "authTokens v alias = None"
  shows "tokenCacheSum (v\<lparr>authTokens := (authTokens v)(alias \<mapsto> tokenValue),
             currentAuthTokenSize := c\<rparr>) = tokenCacheSum v + (8 + length tokenValue)"
proof -
  from assms(2) have notin: "alias \<notin> dom (authTokens v)" by auto
  have "(\<Sum>a \<in> dom (authTokens v). 8 + length (the (((authTokens v)(alias \<mapsto> tokenValue)) a))) =
        (\<Sum>a \<in> dom (authTokens v). 8 + length (the (authTokens v a)))"
    using notin by (intro sum.cong) auto
  with assms(1) notin show ?thesis
    by (simp add: tokenCacheSum_def)
qed

lemma tokenCacheSum_delete:
  assumes "finite (dom (authTokens v))" and "authTokens v alias = Some token"
  shows "tokenCacheSum v =
         tokenCacheSum (v\<lparr>authTokens := (authTokens v)(alias := None),
             currentAuthTokenSize := c\<rparr>) + (8 + length token)"
proof -
  from assms(2) have isin: "alias \<in> dom (authTokens v)" by auto
  have "(\<Sum>a \<in> dom (authTokens v) - {alias}. 8 + length (the (((authTokens v)(alias := None)) a))) =
        (\<Sum>a \<in> dom (authTokens v) - {alias}. 8 + length (the (authTokens v a)))"
    by (intro sum.cong) auto
  with assms isin sum.remove[OF assms(1) isin, of "\<lambda>a. 8 + length (the (authTokens v a))"]
  show ?thesis
    by (simp add: tokenCacheSum_def)
qed

lemma tokenCacheOK_register:
  assumes ok: "tokenCacheOK v" and none: "authTokens v alias = None"
    and fits: "\<not> currentAuthTokenSize v + of_nat (8 + length tokenValue) > maxAuthTokenCacheSize v"
    and max: "unat (maxAuthTokenCacheSize v) < 2 ^ 62" and len: "length tokenValue < 2 ^ 63"
  shows "tokenCacheOK (v\<lparr>authTokens := (authTokens v)(alias \<mapsto> tokenValue),
           currentAuthTokenSize := currentAuthTokenSize v + of_nat (8 + length tokenValue)\<rparr>)"
proof -
  from ok have fin: "finite (dom (authTokens v))"
    and sum: "tokenCacheSum v = unat (currentAuthTokenSize v)"
    and le: "currentAuthTokenSize v \<le> maxAuthTokenCacheSize v"
    by (simp_all add: tokenCacheOK_def)
  from le have "unat (currentAuthTokenSize v) \<le> unat (maxAuthTokenCacheSize v)"
    by (simp add: word_le_nat_alt)
  with max len have "unat (currentAuthTokenSize v) + (8 + length tokenValue) < 2 ^ 64"
    by simp
  then have "unat (currentAuthTokenSize v + of_nat (8 + length tokenValue)) =
             unat (currentAuthTokenSize v) + (8 + length tokenValue)"
    using tokenSize_unat[OF len] by (simp add: unat_add_lem[THEN iffD1])
  with fin sum fits tokenCacheSum_register[OF fin none] show ?thesis
    by (simp add: tokenCacheOK_def not_less)
qed

lemma tokenCacheOK_delete:
  assumes ok: "tokenCacheOK v" and some: "authTokens v alias = Some token"
  shows "tokenCacheOK (v\<lparr>authTokens := (authTokens v)(alias := None),
           currentAuthTokenSize := currentAuthTokenSize v - of_nat (8 + length token)\<rparr>)"
proof -
  from ok have fin: "finite (dom (authTokens v))"
    and sum: "tokenCacheSum v = unat (currentAuthTokenSize v)"
    and le: "currentAuthTokenSize v \<le> maxAuthTokenCacheSize v"
    by (simp_all add: tokenCacheOK_def)
  note del = tokenCacheSum_delete[OF fin some]
  from del sum have small: "8 + length token \<le> unat (currentAuthTokenSize v)"
    by (metis le_add2)
  then have "8 + length token < 2 ^ 64"
    using unsigned_less[of "currentAuthTokenSize v", where 'a = nat] by simp
  then have u: "unat (of_nat (8 + length token) :: u64) = 8 + length token"
    by (rule unat_of_nat_u64)
  with small have wle: "(of_nat (8 + length token) :: u64) \<le> currentAuthTokenSize v"
    by (simp add: word_le_nat_alt)
  then have sub: "unat (currentAuthTokenSize v - of_nat (8 + length token)) =
             unat (currentAuthTokenSize v) - (8 + length token)"
    using u by (simp add: unat_sub)
  have "currentAuthTokenSize v - of_nat (8 + length token) \<le> currentAuthTokenSize v"
    using wle by (simp add: word_sub_le)
  with le have "currentAuthTokenSize v - of_nat (8 + length token) \<le> maxAuthTokenCacheSize v"
    by simp
  moreover from del[of "currentAuthTokenSize v - of_nat (8 + length token)"] sum sub
  have "tokenCacheSum (v\<lparr>authTokens := (authTokens v)(alias := None),
           currentAuthTokenSize := currentAuthTokenSize v - of_nat (8 + length token)\<rparr>) =
        unat (currentAuthTokenSize v - of_nat (8 + length token))"
    by simp
  ultimately show ?thesis using fin
    by (simp add: tokenCacheOK_def)
qed


lemma validateAuthToken_budget:
  assumes ok: "tokenCacheOK v" and M: "maxAuthTokenCacheSize v = M"
    and max: "unat M < 2 ^ 62" and len: "length tokenData < 2 ^ 63"
  shows "post (\<lambda>v'. tokenCacheOK v' \<and> maxAuthTokenCacheSize v' = M)
           (validateAuthToken v tokenData)"
  unfolding validateAuthToken_def ReadAll_def prod.case option.case
  apply (intro post_intros post_case_option)
                      apply (simp_all add: ok M)
  subgoal for x aliasType r xa result ra xb tokenType rb al
  proof -
    assume a: "readVarInt tokenData = Inr (1, r)"
      "orReturn (readVarInt r)
          (\<lambda>(tokenAlias, r).
              Inr ([''alias_type'' \<mapsto>
                    JStr (case aliasTypeNames 1 of None \<Rightarrow> [] | Some name \<Rightarrow> name),
                    ''token_alias'' \<mapsto> JU64 tokenAlias], r)) = Inr (result, ra)"
      "readVarInt ra = Inr (tokenType, rb)"
      and fits: "\<not> M < currentAuthTokenSize v + (8 + word_of_nat (length rb))"
      and none: "authTokens v al = None"
    from a have "length rb < length tokenData"
      by (auto simp: orReturn_Inr_iff dest!: readVarInt_length)
    with len have l: "length rb < 2 ^ 63" by simp
    from tokenCacheOK_register[OF ok none _ _ l] fits M max
    show ?thesis by simp
  qed
  subgoal for x aliasType r xa result ra xb al token
    using tokenCacheOK_delete[OF ok, of al token] by simp
  done


lemma tokenCacheOK_other_tables [simp]:
  "tokenCacheOK (v\<lparr>activeSubscriptions := subs\<rparr>) = tokenCacheOK v"
  "tokenCacheOK (v\<lparr>activeFetches := fetches\<rparr>) = tokenCacheOK v"
  by (simp_all add: tokenCacheOK_def tokenCacheSum_def)

lemma parameter_value_length:
  assumes "orReturn (readVarInt r) (\<lambda>(length', r).
             if length' > (65535 :: u64) then Inl e else
             orReturn (wrapErr e' (readBytes (unat length') r)) (\<lambda>(value, r).
             Inr (g value length', value, r))) = Inr (paramInfo, value, r')"
  shows "length value \<le> 65535"
  using assms
  by (auto simp: orReturn_Inr_iff readBytes_Inr word_le_nat_alt not_less split: if_splits)

lemma validateVersionParameters_loop_budget:
  "tokenCacheOK v \<Longrightarrow> maxAuthTokenCacheSize v = M \<Longrightarrow> unat M < 2 ^ 62 \<Longrightarrow>
   post (\<lambda>v'. tokenCacheOK v' \<and> maxAuthTokenCacheSize v' = M)
     (validateVersionParameters_loop n v r params)"
proof (induction n arbitrary: v r params)
  case 0
  then show ?case by (simp add: post_def)
next
  case (Suc n)
  note inv = Suc.prems
  show ?case
    unfolding validateVersionParameters_loop.simps
    apply (intro post_intros Suc.IH validateAuthToken_budget inv)
                      apply (simp_all add: inv)
    apply (drule parameter_value_length)
    apply simp
    done
qed

lemma validateVersionParameters_budget:
  "tokenCacheOK v \<Longrightarrow> maxAuthTokenCacheSize v = M \<Longrightarrow> unat M < 2 ^ 62 \<Longrightarrow>
   post (\<lambda>v'. tokenCacheOK v' \<and> maxAuthTokenCacheSize v' = M)
     (validateVersionParameters v r numParams)"
  unfolding validateVersionParameters_def by (rule validateVersionParameters_loop_budget)

lemma validateSubscribe_budget:
  assumes "tokenCacheOK v" "maxAuthTokenCacheSize v = M" "unat M < 2 ^ 62"
  shows "post (\<lambda>v'. tokenCacheOK v' \<and> maxAuthTokenCacheSize v' = M) (validateSubscribe v r)"
  unfolding validateSubscribe_def
  apply (intro post_intros validateVersionParameters_budget assms)
                      apply (simp_all add: assms)
  done

lemma validateSubscribeOK_budget:
  assumes "tokenCacheOK v" "maxAuthTokenCacheSize v = M" "unat M < 2 ^ 62"
  shows "post (\<lambda>v'. tokenCacheOK v' \<and> maxAuthTokenCacheSize v' = M) (validateSubscribeOK v r)"
  unfolding validateSubscribeOK_def
  apply (intro post_intros validateVersionParameters_budget assms)
                      apply (simp_all add: assms)
  done

lemma validateFetch_budget:
  assumes "tokenCacheOK v" "maxAuthTokenCacheSize v = M" "unat M < 2 ^ 62"
  shows "post (\<lambda>v'. tokenCacheOK v' \<and> maxAuthTokenCacheSize v' = M) (validateFetch v r)"
  unfolding validateFetch_def
  apply (intro post_intros validateVersionParameters_budget assms)
                      apply (simp_all add: assms)
  done

lemma validateAnnounce_budget:
  assumes "tokenCacheOK v" "maxAuthTokenCacheSize v = M" "unat M < 2 ^ 62"
  shows "post (\<lambda>v'. tokenCacheOK v' \<and> maxAuthTokenCacheSize v' = M) (validateAnnounce v r)"
  unfolding validateAnnounce_def
  apply (intro post_intros validateVersionParameters_budget assms)
                      apply (simp_all add: assms)
  done

lemma validateTrackStatusRequest_budget:
  assumes "tokenCacheOK v" "maxAuthTokenCacheSize v = M" "unat M < 2 ^ 62"
  shows "post (\<lambda>v'. tokenCacheOK v' \<and> maxAuthTokenCacheSize v' = M)
           (validateTrackStatusRequest v r)"
  unfolding validateTrackStatusRequest_def
  apply (intro post_intros validateVersionParameters_budget assms)
                      apply (simp_all add: assms)
  done

lemma validateControlMessage_budget:
  assumes "tokenCacheOK v" "maxAuthTokenCacheSize v = M" "unat M < 2 ^ 62"
  shows "post (\<lambda>v'. tokenCacheOK v' \<and> maxAuthTokenCacheSize v' = M)
           (validateControlMessage v r)"
  unfolding validateControlMessage_def
  apply (intro post_intros validateSubscribe_budget validateSubscribeOK_budget
      validateFetch_budget validateAnnounce_budget validateTrackStatusRequest_budget assms)
                      apply (simp_all add: assms)
  done

lemma ValidateMessage_budget:
  assumes "tokenCacheOK v" "maxAuthTokenCacheSize v = M" "unat M < 2 ^ 62"
  shows "post (\<lambda>v'. tokenCacheOK v' \<and> maxAuthTokenCacheSize v' = M)
           (ValidateMessage v data isControlStream)"
  unfolding ValidateMessage_def
  apply (intro post_intros validateControlMessage_budget assms)
                      apply (simp_all add: assms)
  done

lemma ValidateDatagram_budget:
  assumes "tokenCacheOK v" "maxAuthTokenCacheSize v = M" "unat M < 2 ^ 62"
  shows "post (\<lambda>v'. tokenCacheOK v' \<and> maxAuthTokenCacheSize v' = M) (ValidateDatagram v data)"
  unfolding ValidateDatagram_def ReadAll_def prod.case option.case
  apply (intro post_intros post_case_option assms)
                      apply (simp_all add: assms)
  done

lemma reachableFrom_budget:
  assumes "reachableFrom s0 s" and "tokenCacheOK s0" and "unat (maxAuthTokenCacheSize s0) < 2 ^ 62"
  shows "tokenCacheOK s \<and> maxAuthTokenCacheSize s = maxAuthTokenCacheSize s0"
  using assms
proof (induction rule: reachableFrom.induct)
  case start
  then show ?case by simp
next
  case (message s data isControlStream)
  then show ?case
    using ValidateMessage_budget[of s "maxAuthTokenCacheSize s0" data isControlStream]
    by (simp add: post_def)
next
  case (datagram s data)
  then show ?case
    using ValidateDatagram_budget[of s "maxAuthTokenCacheSize s0" data]
    by (simp add: post_def)
qed


lemma register_overflow:
  assumes ok: "tokenCacheOK v" and max: "unat (maxAuthTokenCacheSize v) < 2 ^ 62"
    and len: "length tokenData < 2 ^ 63"
    and 1: "readVarInt tokenData = Inr (AliasTypeRegister, r1)"
    and 2: "readVarInt r1 = Inr (al, r2)"
    and 3: "readVarInt r2 = Inr (tokenType, tokenValue)"
    and over: "unat (maxAuthTokenCacheSize v) < unat (currentAuthTokenSize v) + (8 + length tokenValue)"
  shows "validateAuthToken v tokenData =
           (Inl (ErrProtocolViolation ''auth token cache overflow''), v)"
proof -
  from 1 2 3 have "length tokenValue < length tokenData"
    by (auto dest!: readVarInt_length)
  with len have l: "length tokenValue < 2 ^ 63" by simp
  then have u: "unat (of_nat (8 + length tokenValue) :: u64) = 8 + length tokenValue"
    by (rule tokenSize_unat)
  from ok have "unat (currentAuthTokenSize v) \<le> unat (maxAuthTokenCacheSize v)"
    by (simp add: tokenCacheOK_def word_le_nat_alt)
  with max l have "unat (currentAuthTokenSize v) + (8 + length tokenValue) < 2 ^ 64"
    by simp
  with u have "unat (currentAuthTokenSize v + of_nat (8 + length tokenValue)) =
      unat (currentAuthTokenSize v) + (8 + length tokenValue)"
    by (simp add: unat_add_lem[THEN iffD1])
  with over have "maxAuthTokenCacheSize v < currentAuthTokenSize v + of_nat (8 + length tokenValue)"
    by (simp add: word_less_nat_alt)
  with 1 2 3 show ?thesis
    by (simp add: validateAuthToken_def ReadAll_def)
qed

lemma tokenCacheOK_NewMoQTValidator: "tokenCacheOK NewMoQTValidator"
  by (simp add: tokenCacheOK_def tokenCacheSum_def NewMoQTValidator_def)

lemmas eval_announce = eval_control validateAnnounce_def validateRequestID_def readTuple_def
  validateVersionParameters_def validateAuthToken_def ReadAll_def aliasTypeNames_def

lemma announce_register_refused:
  "ValidateMessage NewMoQTValidator [0x06, 0x00, 0x11, 0x00, 0x01, 0x04, 0x6C, 0x69, 0x76, 0x65, 0x01, 0x01, 0x07,
      0x01, 0x03, 0x00, 0xDE, 0xAD, 0xBE, 0xEF] True =
     (Inl (ErrProtocolViolation ''auth token cache overflow''), NewMoQTValidator)"
  by (simp add: eval_announce NewMoQTValidator_def)

lemma announce_register_accepted:
  "\<exists>result. ValidateMessage (NewMoQTValidator\<lparr>maxAuthTokenCacheSize := 20\<rparr>) [0x06, 0x00, 0x11, 0x00, 0x01, 0x04, 0x6C, 0x69, 0x76, 0x65, 0x01, 0x01, 0x07,
      0x01, 0x03, 0x00, 0xDE, 0xAD, 0xBE, 0xEF] True =
     (Inr result,
      NewMoQTValidator\<lparr>maxAuthTokenCacheSize := 20,
        authTokens := [3 \<mapsto> [0xDE, 0xAD, 0xBE, 0xEF]], currentAuthTokenSize := 12\<rparr>)"
  by (simp add: eval_announce NewMoQTValidator_def)

text \<open>
  Claim C5. In every session state reachable by validating messages and datagrams,
  accepted or not, from a state that keeps the token-cache budget and whose maximum is
  below \<open>2\<^sup>6\<^sup>2\<close> (a new validator is such a state, its maximum being 0): the sum of
  \<open>8 + len(value)\<close> over the registered aliases equals \<^verbatim>\<open>currentAuthTokenSize\<close>,
  \<^verbatim>\<open>currentAuthTokenSize\<close> is at most \<^verbatim>\<open>maxAuthTokenCacheSize\<close>, and the maximum is the one
  of the start. In such a state a token that decodes as a REGISTER (alias type, alias,
  token type, then the value) whose size \<open>8 + len(value)\<close> added to
  \<^verbatim>\<open>currentAuthTokenSize\<close> exceeds the maximum is refused with the protocol violation
  ``auth token cache overflow'', and the state, so the cache and the size, is unchanged.
\<close>

theorem token_cache_budget:
  assumes "reachableFrom s0 s" and "tokenCacheOK s0"
    and "unat (maxAuthTokenCacheSize s0) < 2 ^ 62"
  shows "tokenCacheSum s = unat (currentAuthTokenSize s) \<and>
         currentAuthTokenSize s \<le> maxAuthTokenCacheSize s \<and>
         maxAuthTokenCacheSize s = maxAuthTokenCacheSize s0 \<and>
         (\<forall>tokenData r1 al r2 tokenType tokenValue.
            length tokenData < 2 ^ 63 \<and>
            readVarInt tokenData = Inr (AliasTypeRegister, r1) \<and>
            readVarInt r1 = Inr (al, r2) \<and>
            readVarInt r2 = Inr (tokenType, tokenValue) \<and>
            unat (maxAuthTokenCacheSize s) <
              unat (currentAuthTokenSize s) + (8 + length tokenValue) \<longrightarrow>
            validateAuthToken s tokenData =
              (Inl (ErrProtocolViolation ''auth token cache overflow''), s))"
proof -
  from reachableFrom_budget[OF assms]
  have ok: "tokenCacheOK s" and M: "maxAuthTokenCacheSize s = maxAuthTokenCacheSize s0"
    by simp_all
  from assms(3) M have max: "unat (maxAuthTokenCacheSize s) < 2 ^ 62" by simp
  from ok M register_overflow[OF ok max] show ?thesis
    by (auto simp: tokenCacheOK_def)
qed

text \<open>
  On a new validator an ANNOUNCE that registers alias 3 with a 4-byte value is refused
  (the maximum is 0) and the cache stays empty. With a maximum of 20 the same message is
  accepted, the cache holds the one token and the size is 12; a second REGISTER of a
  5-byte value (size 13) is then refused, and the state stays as it is.
\<close>

theorem token_cache_budget_witness:
  "reachableFrom NewMoQTValidator (snd (ValidateMessage NewMoQTValidator [0x06, 0x00, 0x11, 0x00, 0x01, 0x04, 0x6C, 0x69, 0x76, 0x65, 0x01, 0x01, 0x07,
      0x01, 0x03, 0x00, 0xDE, 0xAD, 0xBE, 0xEF] True)) \<and>
   tokenCacheOK NewMoQTValidator \<and>
   unat (maxAuthTokenCacheSize NewMoQTValidator) < 2 ^ 62 \<and>
   tokenCacheSum (snd (ValidateMessage NewMoQTValidator [0x06, 0x00, 0x11, 0x00, 0x01, 0x04, 0x6C, 0x69, 0x76, 0x65, 0x01, 0x01, 0x07,
      0x01, 0x03, 0x00, 0xDE, 0xAD, 0xBE, 0xEF] True)) = 0 \<and>
   currentAuthTokenSize (snd (ValidateMessage NewMoQTValidator [0x06, 0x00, 0x11, 0x00, 0x01, 0x04, 0x6C, 0x69, 0x76, 0x65, 0x01, 0x01, 0x07,
      0x01, 0x03, 0x00, 0xDE, 0xAD, 0xBE, 0xEF] True)) = 0 \<and>
   maxAuthTokenCacheSize (snd (ValidateMessage NewMoQTValidator [0x06, 0x00, 0x11, 0x00, 0x01, 0x04, 0x6C, 0x69, 0x76, 0x65, 0x01, 0x01, 0x07,
      0x01, 0x03, 0x00, 0xDE, 0xAD, 0xBE, 0xEF] True)) = 0 \<and>
   validateAuthToken (snd (ValidateMessage NewMoQTValidator [0x06, 0x00, 0x11, 0x00, 0x01, 0x04, 0x6C, 0x69, 0x76, 0x65, 0x01, 0x01, 0x07,
      0x01, 0x03, 0x00, 0xDE, 0xAD, 0xBE, 0xEF] True)) [0x01, 0x03, 0x00, 0xDE, 0xAD, 0xBE, 0xEF] =
     (Inl (ErrProtocolViolation ''auth token cache overflow''),
      snd (ValidateMessage NewMoQTValidator [0x06, 0x00, 0x11, 0x00, 0x01, 0x04, 0x6C, 0x69, 0x76, 0x65, 0x01, 0x01, 0x07,
      0x01, 0x03, 0x00, 0xDE, 0xAD, 0xBE, 0xEF] True)) \<and>
   reachableFrom (NewMoQTValidator\<lparr>maxAuthTokenCacheSize := 20\<rparr>)
     (snd (ValidateMessage (NewMoQTValidator\<lparr>maxAuthTokenCacheSize := 20\<rparr>) [0x06, 0x00, 0x11, 0x00, 0x01, 0x04, 0x6C, 0x69, 0x76, 0x65, 0x01, 0x01, 0x07,
      0x01, 0x03, 0x00, 0xDE, 0xAD, 0xBE, 0xEF] True)) \<and>
   tokenCacheOK (NewMoQTValidator\<lparr>maxAuthTokenCacheSize := 20\<rparr>) \<and>
   unat (maxAuthTokenCacheSize (NewMoQTValidator\<lparr>maxAuthTokenCacheSize := 20\<rparr>)) < 2 ^ 62 \<and>
   authTokens (snd (ValidateMessage (NewMoQTValidator\<lparr>maxAuthTokenCacheSize := 20\<rparr>) [0x06, 0x00, 0x11, 0x00, 0x01, 0x04, 0x6C, 0x69, 0x76, 0x65, 0x01, 0x01, 0x07,
      0x01, 0x03, 0x00, 0xDE, 0xAD, 0xBE, 0xEF] True)) =
     [3 \<mapsto> [0xDE, 0xAD, 0xBE, 0xEF]] \<and>
   tokenCacheSum (snd (ValidateMessage (NewMoQTValidator\<lparr>maxAuthTokenCacheSize := 20\<rparr>) [0x06, 0x00, 0x11, 0x00, 0x01, 0x04, 0x6C, 0x69, 0x76, 0x65, 0x01, 0x01, 0x07,
      0x01, 0x03, 0x00, 0xDE, 0xAD, 0xBE, 0xEF] True)) = 12 \<and>
   currentAuthTokenSize (snd (ValidateMessage (NewMoQTValidator\<lparr>maxAuthTokenCacheSize := 20\<rparr>) [0x06, 0x00, 0x11, 0x00, 0x01, 0x04, 0x6C, 0x69, 0x76, 0x65, 0x01, 0x01, 0x07,
      0x01, 0x03, 0x00, 0xDE, 0xAD, 0xBE, 0xEF] True)) = 12 \<and>
   validateAuthToken (snd (ValidateMessage (NewMoQTValidator\<lparr>maxAuthTokenCacheSize := 20\<rparr>) [0x06, 0x00, 0x11, 0x00, 0x01, 0x04, 0x6C, 0x69, 0x76, 0x65, 0x01, 0x01, 0x07,
      0x01, 0x03, 0x00, 0xDE, 0xAD, 0xBE, 0xEF] True)) [0x01, 0x05, 0x00, 0xCA, 0xFE, 0xF0, 0x0D, 0x01] =
     (Inl (ErrProtocolViolation ''auth token cache overflow''),
      snd (ValidateMessage (NewMoQTValidator\<lparr>maxAuthTokenCacheSize := 20\<rparr>) [0x06, 0x00, 0x11, 0x00, 0x01, 0x04, 0x6C, 0x69, 0x76, 0x65, 0x01, 0x01, 0x07,
      0x01, 0x03, 0x00, 0xDE, 0xAD, 0xBE, 0xEF] True))"
proof -
  let ?s0 = "NewMoQTValidator\<lparr>maxAuthTokenCacheSize := 20\<rparr>"
  let ?s1 = "NewMoQTValidator\<lparr>maxAuthTokenCacheSize := 20,
               authTokens := [3 \<mapsto> [0xDE, 0xAD, 0xBE, 0xEF]], currentAuthTokenSize := 12\<rparr>"
  have r0: "reachableFrom NewMoQTValidator (snd (ValidateMessage NewMoQTValidator [0x06, 0x00, 0x11, 0x00, 0x01, 0x04, 0x6C, 0x69, 0x76, 0x65, 0x01, 0x01, 0x07,
      0x01, 0x03, 0x00, 0xDE, 0xAD, 0xBE, 0xEF] True))"
    by (intro reachableFrom.message reachableFrom.start)
  have r1: "reachableFrom ?s0 (snd (ValidateMessage ?s0 [0x06, 0x00, 0x11, 0x00, 0x01, 0x04, 0x6C, 0x69, 0x76, 0x65, 0x01, 0x01, 0x07,
      0x01, 0x03, 0x00, 0xDE, 0xAD, 0xBE, 0xEF] True))"
    by (intro reachableFrom.message reachableFrom.start)
  have ok1: "tokenCacheOK ?s0"
    by (simp add: tokenCacheOK_def tokenCacheSum_def NewMoQTValidator_def)
  have m0: "unat (maxAuthTokenCacheSize NewMoQTValidator) < 2 ^ 62"
    and m1: "unat (maxAuthTokenCacheSize ?s0) < 2 ^ 62"
    by (simp_all add: NewMoQTValidator_def)
  have e0: "snd (ValidateMessage NewMoQTValidator [0x06, 0x00, 0x11, 0x00, 0x01, 0x04, 0x6C, 0x69, 0x76, 0x65, 0x01, 0x01, 0x07,
      0x01, 0x03, 0x00, 0xDE, 0xAD, 0xBE, 0xEF] True) = NewMoQTValidator"
    by (simp add: announce_register_refused)
  have e1: "snd (ValidateMessage ?s0 [0x06, 0x00, 0x11, 0x00, 0x01, 0x04, 0x6C, 0x69, 0x76, 0x65, 0x01, 0x01, 0x07,
      0x01, 0x03, 0x00, 0xDE, 0xAD, 0xBE, 0xEF] True) = ?s1"
    using announce_register_accepted by auto
  have d0: "readVarInt [0x01, 0x03, 0x00, 0xDE, 0xAD, 0xBE, 0xEF] = Inr (1, tl [0x01, 0x03, 0x00, 0xDE, 0xAD, 0xBE, 0xEF])"
    "readVarInt (tl [0x01, 0x03, 0x00, 0xDE, 0xAD, 0xBE, 0xEF]) = Inr (3, tl (tl [0x01, 0x03, 0x00, 0xDE, 0xAD, 0xBE, 0xEF]))"
    "readVarInt (tl (tl [0x01, 0x03, 0x00, 0xDE, 0xAD, 0xBE, 0xEF])) = Inr (0, tl (tl (tl [0x01, 0x03, 0x00, 0xDE, 0xAD, 0xBE, 0xEF])))"
    and d1: "readVarInt [0x01, 0x05, 0x00, 0xCA, 0xFE, 0xF0, 0x0D, 0x01] = Inr (1, tl [0x01, 0x05, 0x00, 0xCA, 0xFE, 0xF0, 0x0D, 0x01])"
    "readVarInt (tl [0x01, 0x05, 0x00, 0xCA, 0xFE, 0xF0, 0x0D, 0x01]) = Inr (5, tl (tl [0x01, 0x05, 0x00, 0xCA, 0xFE, 0xF0, 0x0D, 0x01]))"
    "readVarInt (tl (tl [0x01, 0x05, 0x00, 0xCA, 0xFE, 0xF0, 0x0D, 0x01])) = Inr (0, tl (tl (tl [0x01, 0x05, 0x00, 0xCA, 0xFE, 0xF0, 0x0D, 0x01])))"
    by (simp_all add: decode_simps)
  note t0 = token_cache_budget[OF r0 tokenCacheOK_NewMoQTValidator m0, unfolded e0]
  note t1 = token_cache_budget[OF r1 ok1 m1, unfolded e1]
  have a: "tokenCacheSum NewMoQTValidator = 0"
    "currentAuthTokenSize NewMoQTValidator = 0"
    "maxAuthTokenCacheSize NewMoQTValidator = 0"
    using t0[THEN conjunct1] by (simp_all add: NewMoQTValidator_def)
  have b: "validateAuthToken NewMoQTValidator [0x01, 0x03, 0x00, 0xDE, 0xAD, 0xBE, 0xEF] =
      (Inl (ErrProtocolViolation ''auth token cache overflow''), NewMoQTValidator)"
    using t0[THEN conjunct2, THEN conjunct2, THEN conjunct2, rule_format,
        of "[0x01, 0x03, 0x00, 0xDE, 0xAD, 0xBE, 0xEF]" "tl [0x01, 0x03, 0x00, 0xDE, 0xAD, 0xBE, 0xEF]" 3 "tl (tl [0x01, 0x03, 0x00, 0xDE, 0xAD, 0xBE, 0xEF])" 0 "tl (tl (tl [0x01, 0x03, 0x00, 0xDE, 0xAD, 0xBE, 0xEF]))"] d0 a
    by simp
  have c: "authTokens ?s1 = [3 \<mapsto> [0xDE, 0xAD, 0xBE, 0xEF]]"
    "tokenCacheSum ?s1 = 12" "currentAuthTokenSize ?s1 = 12"
    "maxAuthTokenCacheSize ?s1 = 20"
    using t1[THEN conjunct1] by simp_all
  have d: "validateAuthToken ?s1 [0x01, 0x05, 0x00, 0xCA, 0xFE, 0xF0, 0x0D, 0x01] =
      (Inl (ErrProtocolViolation ''auth token cache overflow''), ?s1)"
    using t1[THEN conjunct2, THEN conjunct2, THEN conjunct2, rule_format,
        of "[0x01, 0x05, 0x00, 0xCA, 0xFE, 0xF0, 0x0D, 0x01]" "tl [0x01, 0x05, 0x00, 0xCA, 0xFE, 0xF0, 0x0D, 0x01]" 5 "tl (tl [0x01, 0x05, 0x00, 0xCA, 0xFE, 0xF0, 0x0D, 0x01])" 0 "tl (tl (tl [0x01, 0x05, 0x00, 0xCA, 0xFE, 0xF0, 0x0D, 0x01]))"] d1 c
    by simp
  show ?thesis
    unfolding e0 e1
    using a b c d r0[unfolded e0] r1[unfolded e1] ok1 m0 m1 tokenCacheOK_NewMoQTValidator
    by simp
qed

end
